theory Spec2Isabelle
  imports Complex_Main
begin

chapter \<open>The model: definitions translated from the source\<close>

section \<open>Strings\<close>

text \<open>
  A string of the program is given by its UTF-8 bytes (the arrow of the delegation
  messages below is three bytes). Concatenation, equality, \<^verbatim>\<open>join\<close> and the search for an
  ASCII text are then those of byte lists. Two operations of the source count UTF-16
  code units and are written out: \<^verbatim>\<open>slice(0, n)\<close> here, and \<^verbatim>\<open>toLowerCase\<close> with the
  resilience wrapper.

  A byte \<^verbatim>\<open>10xxxxxx\<close> continues a character; a first byte \<^verbatim>\<open>11110xxx\<close> starts a
  character of four bytes, which is two code units in UTF-16 (a surrogate pair); every
  other character is one code unit.
\<close>

definition is_continuation :: "char \<Rightarrow> bool" where
  "is_continuation c = (digit7 c \<and> \<not> digit6 c)"

definition code_units :: "string \<Rightarrow> nat" where
  "code_units g =
     (case g of
        [] \<Rightarrow> 0
      | c # cs \<Rightarrow> if digit7 c \<and> digit6 c \<and> digit5 c \<and> digit4 c then 2 else 1)"

text \<open>The characters of a string: each first byte with the bytes that continue it.\<close>

definition utf8_chars :: "string \<Rightarrow> string list" where
  "utf8_chars s =
     (case foldr (\<lambda>c (pending, groups).
                    if is_continuation c then (c # pending, groups)
                    else ([], (c # pending) # groups)) s ([], []) of
        (pending, groups) \<Rightarrow> if pending = [] then groups else pending # groups)"

text \<open>The byte with a given value, bit by bit.\<close>

definition byte_of :: "nat \<Rightarrow> char" where
  "byte_of n =
     Char (odd n) (odd (n div 2)) (odd (n div 4)) (odd (n div 8))
          (odd (n div 16)) (odd (n div 32)) (odd (n div 64)) (odd (n div 128))"

text \<open>
  The high surrogate of a character of four bytes, in the three bytes of the generalised
  encoding: what \<^verbatim>\<open>slice\<close> leaves when it cuts a surrogate pair.
\<close>

definition high_surrogate :: "string \<Rightarrow> string" where
  "high_surrogate g =
     (case map of_char g of
        [b0, b1, b2, b3] \<Rightarrow>
          (let cp = (b0 mod 8) * 262144 + (b1 mod 64) * 4096 + (b2 mod 64) * 64 + b3 mod 64;
               v = (cp - 65536) div 1024
           in [CHR 0xED, byte_of (160 + v div 64), byte_of (128 + v mod 64)])
      | other \<Rightarrow> [])"

fun take_units :: "nat \<Rightarrow> string list \<Rightarrow> string" where
  "take_units n [] = []"
| "take_units n (g # gs) =
     (if code_units g \<le> n then g @ take_units (n - code_units g) gs
      else if n = 0 then []
      else high_surrogate g)"

text \<open>\<^verbatim>\<open>str.slice(0, n)\<close>: the first \<open>n\<close> UTF-16 code units of the string.\<close>

definition js_slice :: "nat \<Rightarrow> string \<Rightarrow> string" where
  "js_slice n s = take_units n (utf8_chars s)"

section \<open>Thrown values\<close>

text \<open>
  What a JavaScript \<^verbatim>\<open>throw\<close> (or a rejected promise) carries. An \<^verbatim>\<open>Error\<close> instance
  has a \<^verbatim>\<open>name\<close> and a \<^verbatim>\<open>message\<close> and, on the errors of HTTP clients, the
  properties \<^verbatim>\<open>status\<close> and \<^verbatim>\<open>statusCode\<close>; a property is absent (null or undefined),
  a number, or a value of another type. A thrown value that is not an \<^verbatim>\<open>Error\<close>
  instance is given by \<^verbatim>\<open>String(value)\<close> and by its \<^verbatim>\<open>message\<close> property, as a
  template literal renders it, when it has one that is not null or undefined (a primitive
  has none). Functions that can throw return \<open>thrown + 'a\<close>, with \<open>Inl\<close> for the throw.
\<close>

datatype js_prop = Absent | Num int | NotNum

record js_error =
  err_name :: string
  err_message :: string
  err_status :: js_prop
  err_statusCode :: js_prop

datatype thrown = ErrorObj js_error | NonError string "string option"

text \<open>\<^verbatim>\<open>new Error(message)\<close>.\<close>

definition new_Error :: "string \<Rightarrow> js_error" where
  "new_Error msg =
     \<lparr>err_name = ''Error'', err_message = msg, err_status = Absent, err_statusCode = Absent\<rparr>"

text \<open>\<^verbatim>\<open>err instanceof Error ? err.message : String(err)\<close>.\<close>

fun message_of :: "thrown \<Rightarrow> string" where
  "message_of (ErrorObj e) = err_message e"
| "message_of (NonError s m) = s"

text \<open>\<^verbatim>\<open>err instanceof Error ? err.name : undefined\<close>.\<close>

fun name_of :: "thrown \<Rightarrow> string option" where
  "name_of (ErrorObj e) = Some (err_name e)"
| "name_of (NonError s m) = None"

text \<open>
  \<^verbatim>\<open>(reason as Error)?.message\<close>: the \<^verbatim>\<open>message\<close> property of whatever was thrown, when
  it is not null or undefined.
\<close>

fun message_property :: "thrown \<Rightarrow> string option" where
  "message_property (ErrorObj e) = Some (err_message e)"
| "message_property (NonError s m) = m"

text \<open>\<^verbatim>\<open>Array.prototype.join\<close> on strings, and the line feed.\<close>

fun join :: "string \<Rightarrow> string list \<Rightarrow> string" where
  "join sep [] = []"
| "join sep [x] = x"
| "join sep (x # y # ys) = x @ sep @ join sep (y # ys)"

definition LF :: string where
  "LF = [CHR 0x0A]"

text \<open>
  The double quote and the separator \<^verbatim>\<open>" -> "\<close> of the delegation messages (the arrow
  is U+2192, three bytes in UTF-8), and a number in a template literal.
\<close>

definition DQ :: string where
  "DQ = [CHR 0x22]"

definition ARROW :: string where
  "ARROW = '' '' @ [CHR 0xE2, CHR 0x86, CHR 0x92] @ '' ''"

definition digit_char :: "nat \<Rightarrow> char" where
  "digit_char d = ''0123456789'' ! d"

fun decimal :: "nat \<Rightarrow> string" where
  "decimal n =
     (if 10 \<le> n then decimal (n div 10) @ [digit_char (n mod 10)] else [digit_char n])"

definition template_number :: "int \<Rightarrow> string" where
  "template_number k =
     (case k < 0 of True \<Rightarrow> CHR ''-'' # decimal (nat (abs k)) | False \<Rightarrow> decimal (nat k))"

text \<open>\<^verbatim>\<open>[...new Set(xs)]\<close>: the elements in the order of their first occurrence.\<close>

definition new_Set :: "'a list \<Rightarrow> 'a list" where
  "new_Set xs = rev (remdups (rev xs))"

text \<open>Adding a key to an object: an existing key keeps its place.\<close>

definition set_key :: "string \<Rightarrow> string list \<Rightarrow> string list" where
  "set_key k ks = (if k \<in> set ks then ks else ks @ [k])"

section \<open>Numbers\<close>

text \<open>
  A \<^verbatim>\<open>number\<close> of the program is an IEEE 754 double: \<^verbatim>\<open>NaN\<close>, one of the two
  infinities, or a finite value, given here by the rational it stands for (the two zeros
  are not told apart: they are equal for \<^verbatim>\<open>===\<close> and print alike). Arithmetic rounds the
  exact result to the nearest double, ties to the even significand.

  \<open>bit_length n\<close> is the number of binary digits of \<open>n\<close>, and \<open>floor_log2 x\<close>, for a
  positive \<open>x\<close>, the exponent \<open>e\<close> with \<open>2 powi e \<le> x < 2 powi (e + 1)\<close>: the difference of
  the bit lengths of numerator and denominator, or one less.
\<close>

datatype number = NaN | PosInfinity | NegInfinity | Finite rat

fun bit_length :: "nat \<Rightarrow> nat" where
  "bit_length n = (if n = 0 then 0 else Suc (bit_length (n div 2)))"

definition floor_log2 :: "rat \<Rightarrow> int" where
  "floor_log2 x =
     (case quotient_of x of
        (p, q) \<Rightarrow>
          (let k = int (bit_length (nat p)) - int (bit_length (nat q))
           in if 2 powi k \<le> x then k else k - 1))"

text \<open>The nearest integer, a tie going to the even one.\<close>

definition round_half_even :: "rat \<Rightarrow> int" where
  "round_half_even x =
     (let f = \<lfloor>x\<rfloor>; r = x - of_int f
      in if r < 1 / 2 then f
         else if 1 / 2 < r then f + 1
         else if even f then f else f + 1)"

text \<open>
  The double nearest to a rational: 53 significant bits, the last of them no finer than
  \<open>2 powi - 1074\<close> (subnormal numbers), and an infinity when the rounded value reaches
  \<open>2 ^ 1024\<close>. A decimal literal of the source, such as \<^verbatim>\<open>0.1\<close>, denotes
  \<open>to_double (1 / 10)\<close>.
\<close>

definition to_double :: "rat \<Rightarrow> number" where
  "to_double x =
     (if x = 0 then Finite 0
      else
        (let u = max (floor_log2 \<bar>x\<bar> - 52) (- 1074);
             y = of_int (round_half_even (x / 2 powi u)) * 2 powi u
         in if 2 ^ 1024 \<le> \<bar>y\<bar>
            then (if x < 0 then NegInfinity else PosInfinity)
            else Finite y))"

text \<open>The operator \<^verbatim>\<open>+\<close> on numbers.\<close>

fun number_add :: "number \<Rightarrow> number \<Rightarrow> number" where
  "number_add (Finite a) (Finite b) = to_double (a + b)"
| "number_add NaN y = NaN"
| "number_add x NaN = NaN"
| "number_add PosInfinity NegInfinity = NaN"
| "number_add NegInfinity PosInfinity = NaN"
| "number_add PosInfinity y = PosInfinity"
| "number_add NegInfinity y = NegInfinity"
| "number_add x PosInfinity = PosInfinity"
| "number_add x NegInfinity = NegInfinity"

text \<open>
  A value of the datatype is a number of the program when its rational, if it has one,
  is a double.
\<close>

definition is_double :: "number \<Rightarrow> bool" where
  "is_double x = (case x of Finite r \<Rightarrow> to_double r = Finite r | other \<Rightarrow> True)"

section \<open>Usage accounting (utils/ai-provider: UsageInfo, mergeUsage)\<close>

text \<open>
  \<^verbatim>\<open>UsageInfo\<close> is the record the source declares. The three token fields are counts and
  \<^verbatim>\<open>durationMs\<close> is a number of elapsed milliseconds (always
  \<^verbatim>\<open>Math.round(performance.now() - start)\<close> in the source, and folded from the
  initial value \<^verbatim>\<open>0\<close> by \<^verbatim>\<open>mergeUsage\<close>), so they are natural numbers here.
  \<^verbatim>\<open>cost\<close> is \<^verbatim>\<open>number | null\<close> (\<^verbatim>\<open>typeof rawCost === "number" ? rawCost : null\<close>): an
  optional double, and the costs are added as doubles are.
\<close>

record UsageInfo =
  inputTokens :: nat
  outputTokens :: nat
  totalTokens :: nat
  cost :: "number option"
  durationMs :: nat

text \<open>The initial value of the accumulator \<^verbatim>\<open>merged\<close> in \<^verbatim>\<open>mergeUsage\<close>.\<close>

definition merged_init :: UsageInfo where
  "merged_init =
     \<lparr>inputTokens = 0, outputTokens = 0, totalTokens = 0, cost = None, durationMs = 0\<rparr>"

text \<open>
  One turn of the loop \<^verbatim>\<open>for (const u of usages)\<close>: the three sums, the cost added
  only when \<^verbatim>\<open>u.cost !== null\<close> (with \<^verbatim>\<open>merged.cost ?? 0\<close> as the left operand),
  the duration replaced only when \<^verbatim>\<open>u.durationMs > merged.durationMs\<close>.
\<close>

definition merge_step :: "UsageInfo \<Rightarrow> UsageInfo \<Rightarrow> UsageInfo" where
  "merge_step merged u =
     \<lparr>inputTokens = inputTokens merged + inputTokens u,
      outputTokens = outputTokens merged + outputTokens u,
      totalTokens = totalTokens merged + totalTokens u,
      cost = (case cost u of
                None \<Rightarrow> cost merged
              | Some c \<Rightarrow>
                  Some (number_add (case cost merged of None \<Rightarrow> Finite 0 | Some m \<Rightarrow> m) c)),
      durationMs = (if durationMs u > durationMs merged then durationMs u
                    else durationMs merged)\<rparr>"

text \<open>\<^verbatim>\<open>mergeUsage(...usages)\<close>: the rest parameter is the list of its arguments.\<close>

definition mergeUsage :: "UsageInfo list \<Rightarrow> UsageInfo" where
  "mergeUsage usages = foldl merge_step merged_init usages"

subsection \<open>Notions for the statements\<close>

text \<open>
  The costs that are not null, in the order of the usages, and their sum: null when
  there is none, else the costs added one after the other, from \<open>0\<close>.
\<close>

definition non_null_costs :: "UsageInfo list \<Rightarrow> number list" where
  "non_null_costs us = List.map_filter cost us"

definition sum_costs :: "UsageInfo list \<Rightarrow> number option" where
  "sum_costs us =
     (if non_null_costs us = [] then None
      else Some (foldl number_add (Finite 0) (non_null_costs us)))"

definition max_duration :: "UsageInfo list \<Rightarrow> nat" where
  "max_duration us = foldr max (map durationMs us) 0"

text \<open>
  For two operands: the sum of the costs that are not null, null only when both are.
\<close>

fun sum_non_null :: "number option \<Rightarrow> number option \<Rightarrow> number option" where
  "sum_non_null None q = q"
| "sum_non_null (Some p) None = Some p"
| "sum_non_null (Some p) (Some r) = Some (number_add p r)"

text \<open>The cost of a usage, when it has one, is a double.\<close>

definition valid_usage :: "UsageInfo \<Rightarrow> bool" where
  "valid_usage u = (case cost u of None \<Rightarrow> True | Some c \<Rightarrow> is_double c)"

text \<open>A usage of one call that cost \<open>c\<close>, and one without a cost.\<close>

definition costing :: "number \<Rightarrow> UsageInfo" where
  "costing c =
     \<lparr>inputTokens = 100, outputTokens = 20, totalTokens = 120, cost = Some c,
      durationMs = 10\<rparr>"

definition uncosted :: UsageInfo where
  "uncosted =
     \<lparr>inputTokens = 7, outputTokens = 3, totalTokens = 10, cost = None, durationMs = 30\<rparr>"

section \<open>The registry of active streaming requests (utils/request-registry.ts)\<close>

text \<open>
  The module keeps one \<^verbatim>\<open>Map<string, AbortController>\<close>. The controllers are objects
  that outlive their entry in the map (a handler keeps the signal of the controller it
  was given), so they live in an explicit store: \<open>controllers\<close> holds the
  \<^verbatim>\<open>signal.aborted\<close> flag of every \<^verbatim>\<open>AbortController\<close> created so far, and a
  controller is its index there.
\<close>

record registry_state =
  controllers :: "bool list"
  activeRequests :: "string \<rightharpoonup> nat"

definition registry_init :: registry_state where
  "registry_init = \<lparr>controllers = [], activeRequests = Map.empty\<rparr>"

text \<open>
  \<^verbatim>\<open>cancelRequest\<close>: when a controller is found it is aborted, the entry is deleted and
  the result is true; otherwise false and nothing changes.
\<close>

definition cancelRequest :: "string \<Rightarrow> registry_state \<Rightarrow> bool \<times> registry_state" where
  "cancelRequest conversationId s =
     (case activeRequests s conversationId of
        None \<Rightarrow> (False, s)
      | Some controller \<Rightarrow>
          (True, s\<lparr>controllers := (controllers s)[controller := True],
                    activeRequests := (activeRequests s)(conversationId := None)\<rparr>))"

text \<open>
  \<^verbatim>\<open>registerRequest\<close>: \<^verbatim>\<open>cancelRequest(conversationId)\<close> first, then a new controller
  (not aborted) is allocated, stored under the id and returned.
\<close>

definition registerRequest :: "string \<Rightarrow> registry_state \<Rightarrow> nat \<times> registry_state" where
  "registerRequest conversationId s =
     (let s1 = snd (cancelRequest conversationId s);
          controller = length (controllers s1)
      in (controller,
          s1\<lparr>controllers := controllers s1 @ [False],
             activeRequests := (activeRequests s1)(conversationId \<mapsto> controller)\<rparr>))"

text \<open>\<^verbatim>\<open>unregisterRequest\<close> deletes the entry of the id, whatever controller it holds.\<close>

definition unregisterRequest :: "string \<Rightarrow> registry_state \<Rightarrow> registry_state" where
  "unregisterRequest conversationId s =
     s\<lparr>activeRequests := (activeRequests s)(conversationId := None)\<rparr>"

subsection \<open>The streaming requests that use the registry\<close>

text \<open>
  A streaming request, as \<^verbatim>\<open>buildSseHandler\<close> runs it: the conversation id it was
  given, the controller \<^verbatim>\<open>registerRequest\<close> returned to it, and whether its handler
  has left its \<^verbatim>\<open>try\<close> block. The events of the server are the calls the handlers and
  the cancel route make on the registry:
  \<^item> \<open>Start cid\<close>: a request arrives and calls \<^verbatim>\<open>registerRequest(convId)\<close>;
  \<^item> \<open>Disconnect k\<close>: \<^verbatim>\<open>req.raw.signal\<close> of request \<open>k\<close> aborts, its listener calls
    \<^verbatim>\<open>cancelRequest(convId)\<close>;
  \<^item> \<open>Cancel cid\<close>: the cancel route calls \<^verbatim>\<open>cancelRequest(conversationId)\<close>;
  \<^item> \<open>Finish k\<close>: the handler of request \<open>k\<close> ends (it returned, or it caught an error
    or the abort) and runs \<^verbatim>\<open>finally { unregisterRequest(convId) }\<close>.
\<close>

record stream_request =
  req_conversationId :: string
  req_controller :: nat
  req_finished :: bool

record server_state =
  registry :: registry_state
  requests :: "stream_request list"

datatype server_event = Start string | Disconnect nat | Cancel string | Finish nat

definition server_init :: server_state where
  "server_init = \<lparr>registry = registry_init, requests = []\<rparr>"

fun server_step :: "server_state \<Rightarrow> server_event \<Rightarrow> server_state" where
  "server_step s (Start cid) =
     (let (controller, r) = registerRequest cid (registry s)
      in \<lparr>registry = r,
          requests = requests s @
            [\<lparr>req_conversationId = cid, req_controller = controller, req_finished = False\<rparr>]\<rparr>)"
| "server_step s (Disconnect k) =
     (if k < length (requests s)
      then s\<lparr>registry := snd (cancelRequest (req_conversationId (requests s ! k)) (registry s))\<rparr>
      else s)"
| "server_step s (Cancel cid) = s\<lparr>registry := snd (cancelRequest cid (registry s))\<rparr>"
| "server_step s (Finish k) =
     (if k < length (requests s) \<and> \<not> req_finished (requests s ! k)
      then \<lparr>registry = unregisterRequest (req_conversationId (requests s ! k)) (registry s),
            requests = (requests s)[k := (requests s ! k)\<lparr>req_finished := True\<rparr>]\<rparr>
      else s)"

definition run_server :: "server_event list \<Rightarrow> server_state" where
  "run_server evs = foldl server_step server_init evs"

text \<open>
  A request is active while its handler has not ended and its signal is not aborted.
\<close>

definition is_active :: "server_state \<Rightarrow> stream_request \<Rightarrow> bool" where
  "is_active s r =
     (\<not> req_finished r \<and> req_controller r < length (controllers (registry s))
      \<and> \<not> controllers (registry s) ! req_controller r)"

definition active_requests :: "server_state \<Rightarrow> string \<Rightarrow> stream_request list" where
  "active_requests s cid =
     filter (\<lambda>r. req_conversationId r = cid \<and> is_active s r) (requests s)"

section \<open>Conversations and their compaction (storage, utils/compaction)\<close>

datatype role = User | Assistant

fun role_string :: "role \<Rightarrow> string" where
  "role_string User = ''user''"
| "role_string Assistant = ''assistant''"

text \<open>
  \<^verbatim>\<open>metadata?: Record<string, unknown>\<close>: an optional list of keys with values, of which
  the source reads the truth value only.
\<close>

datatype meta_value = MBool bool | MNum nat | MText string

fun truthy :: "meta_value \<Rightarrow> bool" where
  "truthy (MBool b) = b"
| "truthy (MNum n) = (n \<noteq> 0)"
| "truthy (MText s) = (s \<noteq> [])"

record ConversationMessage =
  msg_role :: role
  content :: string
  timestamp :: string
  metadata :: "(string \<times> meta_value) list option"

record Conversation =
  conv_id :: string
  messages :: "ConversationMessage list"
  createdAt :: string
  updatedAt :: string

type_synonym conversation_store = "string \<rightharpoonup> Conversation"

text \<open>
  The in-memory conversation store. \<open>now\<close> is the reading of
  \<^verbatim>\<open>new Date().toISOString()\<close>. \<^verbatim>\<open>append\<close> creates the conversation when it is
  missing and pushes the message; \<^verbatim>\<open>clear\<close> replaces the message list by an empty one
  (or creates an empty conversation).
\<close>

definition store_append ::
  "string \<Rightarrow> ConversationMessage \<Rightarrow> string \<Rightarrow> conversation_store \<Rightarrow> conversation_store" where
  "store_append cid message now store =
     (let conv = (case store cid of
                    None \<Rightarrow> \<lparr>conv_id = cid, messages = [], createdAt = now, updatedAt = now\<rparr>
                  | Some c \<Rightarrow> c)
      in store(cid \<mapsto> conv\<lparr>messages := messages conv @ [message], updatedAt := now\<rparr>))"

definition store_clear :: "string \<Rightarrow> string \<Rightarrow> conversation_store \<Rightarrow> conversation_store" where
  "store_clear cid now store =
     (case store cid of
        None \<Rightarrow> store(cid \<mapsto> \<lparr>conv_id = cid, messages = [], createdAt = now, updatedAt = now\<rparr>)
      | Some conv \<Rightarrow> store(cid \<mapsto> conv\<lparr>messages := [], updatedAt := now\<rparr>))"

text \<open>\<^verbatim>\<open>CompactionConfig\<close> and the \<^verbatim>\<open>configOverride\<close> argument; every field is optional.\<close>

record CompactionConfig =
  threshold :: "nat option"
  preserveRecent :: "nat option"
  prompt :: "string option"
  model :: "string option"
  enabled :: "bool option"

record CompactionOverride =
  ov_preserveRecent :: "nat option"
  ov_prompt :: "string option"
  ov_model :: "string option"

definition COMPACTION_THRESHOLD :: nat where
  "COMPACTION_THRESHOLD = 20"

definition COMPACTION_PRESERVE_RECENT :: nat where
  "COMPACTION_PRESERVE_RECENT = 4"

definition COMPACTION_METADATA_KEY :: string where
  "COMPACTION_METADATA_KEY = ''_compaction''"

definition DEFAULT_COMPACTION_PROMPT :: string where
  "DEFAULT_COMPACTION_PROMPT =
     ''You are a conversation summarizer. Given the following conversation messages, create a concise but comprehensive summary that preserves:'' @ LF @
     ''- Key facts, decisions, and outcomes'' @ LF @
     ''- User preferences and context established'' @ LF @
     ''- Important tool results and their implications'' @ LF @
     ''- Any ongoing tasks or commitments'' @ LF @ LF @
     ''Output ONLY the summary text, no preamble or formatting.''"

record CompactionResult =
  summary :: string
  summarizedCount :: nat
  preservedCount :: nat
  newMessageCount :: nat

text \<open>\<^verbatim>\<open>needsCompaction\<close>: the message count exceeds the threshold (default 20).\<close>

definition needsCompaction :: "Conversation \<Rightarrow> nat option \<Rightarrow> bool" where
  "needsCompaction conversation thr =
     (let limit = (case thr of None \<Rightarrow> COMPACTION_THRESHOLD | Some t \<Rightarrow> t)
      in length (messages conversation) > limit)"

definition is_compaction_message :: "ConversationMessage \<Rightarrow> bool" where
  "is_compaction_message m =
     (case metadata m of
        None \<Rightarrow> False
      | Some kvs \<Rightarrow> (case map_of kvs COMPACTION_METADATA_KEY of
                      None \<Rightarrow> False
                    | Some v \<Rightarrow> truthy v))"

definition formatMessagesForSummary :: "ConversationMessage list \<Rightarrow> string" where
  "formatMessagesForSummary ms =
     join (LF @ LF)
       (map (\<lambda>m. (if is_compaction_message m then ''[Previous Summary]''
                   else role_string (msg_role m)) @ '': '' @ content m) ms)"

text \<open>
  The three settings of \<^verbatim>\<open>compactConversation\<close>, each
  \<^verbatim>\<open>configOverride?.x ?? config?.x ?? default\<close>.
\<close>

definition effective_preserveRecent ::
  "CompactionConfig option \<Rightarrow> CompactionOverride option \<Rightarrow> nat" where
  "effective_preserveRecent config override =
     (case Option.bind override ov_preserveRecent of
        Some p \<Rightarrow> p
      | None \<Rightarrow> (case Option.bind config preserveRecent of
                   Some p \<Rightarrow> p
                 | None \<Rightarrow> COMPACTION_PRESERVE_RECENT))"

definition effective_prompt ::
  "CompactionConfig option \<Rightarrow> CompactionOverride option \<Rightarrow> string" where
  "effective_prompt config override =
     (case Option.bind override ov_prompt of
        Some p \<Rightarrow> p
      | None \<Rightarrow> (case Option.bind config prompt of
                   Some p \<Rightarrow> p
                 | None \<Rightarrow> DEFAULT_COMPACTION_PROMPT))"

definition effective_model ::
  "CompactionConfig option \<Rightarrow> CompactionOverride option \<Rightarrow> string option" where
  "effective_model config override =
     (case Option.bind override ov_model of
        Some m \<Rightarrow> Some m
      | None \<Rightarrow> Option.bind config model)"

text \<open>The prompt sent to the model for the messages to summarize.\<close>

definition fullPrompt :: "string \<Rightarrow> ConversationMessage list \<Rightarrow> string" where
  "fullPrompt p toSummarize =
     p @ LF @ LF @ ''---'' @ LF @ LF @ formatMessagesForSummary toSummarize"

text \<open>The summary message written first: role assistant, tagged as a compaction.\<close>

definition summary_message :: "string \<Rightarrow> nat \<Rightarrow> string \<Rightarrow> ConversationMessage" where
  "summary_message text n now =
     \<lparr>msg_role = Assistant, content = text, timestamp = now,
      metadata = Some [(COMPACTION_METADATA_KEY, MBool True), (''summarizedCount'', MNum n)]\<rparr>"

text \<open>
  \<^verbatim>\<open>compactConversation\<close>. \<open>llm m p\<close> is the call
  \<^verbatim>\<open>withResilience({fn: generateText({model, prompt})})\<close>: the text of the model, or what
  the call throws. The result is the store afterwards and either the throw or the value
  returned (\<open>None\<close> for \<^verbatim>\<open>null\<close>, conversation not found). \<^verbatim>\<open>preserveRecent\<close> is a
  number of messages, and \<^verbatim>\<open>slice\<close> at \<^verbatim>\<open>messages.length - preserveRecent\<close> (not
  negative past the early return) is \<open>take\<close> and \<open>drop\<close>.
\<close>

definition compactConversation ::
  "(string option \<Rightarrow> string \<Rightarrow> thrown + string) \<Rightarrow> string \<Rightarrow> CompactionConfig option \<Rightarrow>
   conversation_store \<Rightarrow> string \<Rightarrow> CompactionOverride option \<Rightarrow>
   conversation_store \<times> (thrown + CompactionResult option)" where
  "compactConversation llm now config store conversationId configOverride =
     (let keep = effective_preserveRecent config configOverride;
          p = effective_prompt config configOverride;
          m = effective_model config configOverride
      in case store conversationId of
           None \<Rightarrow> (store, Inr None)
         | Some conversation \<Rightarrow>
             (let msgs = messages conversation in
              if length msgs \<le> keep
              then (store, Inr (Some \<lparr>summary = [], summarizedCount = 0,
                      preservedCount = length msgs, newMessageCount = length msgs\<rparr>))
              else
                (let toSummarize = take (length msgs - keep) msgs;
                     toPreserve = drop (length msgs - keep) msgs
                 in case llm m (fullPrompt p toSummarize) of
                      Inl err \<Rightarrow> (store, Inl err)
                    | Inr text \<Rightarrow>
                        (let s1 = store_clear conversationId now store;
                             s2 = store_append conversationId
                                    (summary_message text (length toSummarize) now) now s1;
                             s3 = foldl (\<lambda>s msg. store_append conversationId msg now s)
                                    s2 toPreserve
                         in (s3, Inr (Some \<lparr>summary = text,
                               summarizedCount = length toSummarize,
                               preservedCount = length toPreserve,
                               newMessageCount = 1 + length toPreserve\<rparr>))))))"

text \<open>The messages stored under an id (none when the conversation is missing).\<close>

definition stored_messages :: "conversation_store \<Rightarrow> string \<Rightarrow> ConversationMessage list" where
  "stored_messages store cid = (case store cid of None \<Rightarrow> [] | Some c \<Rightarrow> messages c)"

subsection \<open>Example conversations\<close>

definition mk_message :: "role \<Rightarrow> string \<Rightarrow> ConversationMessage" where
  "mk_message r c = \<lparr>msg_role = r, content = c, timestamp = ''t0'', metadata = None\<rparr>"

text \<open>25 messages, and 10 messages; the configuration with threshold 20 that keeps 4.\<close>

definition conv25 :: Conversation where
  "conv25 =
     \<lparr>conv_id = ''c'',
      messages = replicate 21 (mk_message User ''old'') @
        [mk_message User ''w'', mk_message Assistant ''x'', mk_message User ''y'', mk_message Assistant ''z''],
      createdAt = ''t0'', updatedAt = ''t0''\<rparr>"

definition conv10 :: Conversation where
  "conv10 =
     \<lparr>conv_id = ''c'',
      messages = replicate 6 (mk_message User ''old'') @
        [mk_message User ''w'', mk_message Assistant ''x'', mk_message User ''y'', mk_message Assistant ''z''],
      createdAt = ''t0'', updatedAt = ''t0''\<rparr>"

definition config_20_4 :: CompactionConfig where
  "config_20_4 =
     \<lparr>threshold = Some 20, preserveRecent = Some 4, prompt = None, model = None,
      enabled = None\<rparr>"

definition conv3 :: Conversation where
  "conv3 =
     \<lparr>conv_id = ''c'',
      messages = [mk_message User ''w'', mk_message Assistant ''x'', mk_message User ''y''],
      createdAt = ''t0'', updatedAt = ''t0''\<rparr>"

section \<open>The task executor (agents/execute-task.ts)\<close>

subsection \<open>Results, registrations, contexts\<close>

record ClarifyItem =
  item_type :: string
  item_text :: string
  item_choices :: "string list option"
  item_context :: "string option"

text \<open>What \<^verbatim>\<open>runAgent\<close> returns, the \<^verbatim>\<open>result\<close> field of a \<^verbatim>\<open>TaskResult\<close>.\<close>

record AgentResult =
  response :: string
  items :: "ClarifyItem list option"
  toolsUsed :: "string list"
  usage :: "UsageInfo option"

record TaskResult =
  agent :: string
  query :: string
  result :: AgentResult
  responseSkills :: "string list option"

definition errorResult :: "string \<Rightarrow> string \<Rightarrow> string \<Rightarrow> TaskResult" where
  "errorResult a q msg =
     \<lparr>agent = a, query = q,
      result = \<lparr>response = msg, items = None, toolsUsed = [], usage = None\<rparr>,
      responseSkills = None\<rparr>"

record GuardResult =
  allowed :: bool
  reason :: "string option"

datatype SkillPhase = Query | Response | Both

record Skill =
  skill_name :: string
  phase :: SkillPhase
  skill_content :: string

text \<open>
  The fields of \<^verbatim>\<open>AgentRegistration\<close> the executor reads. \<open>tools\<close> is the list of the
  keys of the optional \<^verbatim>\<open>tools\<close> record; the two optional flags are false when absent;
  the guard, when there is one, returns its result or throws.
\<close>

record AgentRegistration =
  name :: string
  defaultSystem :: string
  tools :: "string list option"
  isOrchestrator :: bool
  disableMemoryTool :: bool
  guard :: "(string \<Rightarrow> string \<Rightarrow> thrown + GuardResult) option"

text \<open>
  \<^verbatim>\<open>AgentRegistry\<close>: two \<^verbatim>\<open>Map\<close>s, as lists of entries in insertion order (the keys of
  a \<^verbatim>\<open>Map\<close> are distinct).
\<close>

record AgentRegistry =
  agents :: "(string \<times> AgentRegistration) list"
  promptOverrides :: "(string \<times> string) list"

definition registry_get :: "AgentRegistry \<Rightarrow> string \<Rightarrow> AgentRegistration option" where
  "registry_get reg a = map_of (agents reg) a"

definition getOrchestratorNames :: "AgentRegistry \<Rightarrow> string set" where
  "getOrchestratorNames reg = set (map name (filter isOrchestrator (map snd (agents reg))))"

definition getResolvedPrompt :: "AgentRegistry \<Rightarrow> string \<Rightarrow> string option" where
  "getResolvedPrompt reg a =
     (case map_of (agents reg) a of
        None \<Rightarrow> None
      | Some ag \<Rightarrow> (case map_of (promptOverrides reg) a of
                      Some p \<Rightarrow> Some p
                    | None \<Rightarrow> Some (defaultSystem ag)))"

text \<open>
  \<^verbatim>\<open>DelegationContext\<close>, the value of \<^verbatim>\<open>delegationStore.getStore()\<close> when there is one.
  Of the event bus only its presence is kept (\<open>dc_events\<close>); what is emitted on it is
  returned by the functions below.
\<close>

record DelegationContext =
  dc_chain :: "string list"
  dc_depth :: int
  dc_events :: bool
  dc_orchestrator :: "string option"

datatype bus_event =
    SkillInject string "string list" string
  | DelegateStart string string string
  | DelegateEnd string string string bool
  | BusAgentStart string
  | BusAgentEnd string "string option"
  | BusStatus string string "string option"

text \<open>\<^verbatim>\<open>bus?.emit(...)\<close>: nothing without a bus.\<close>

definition emit :: "bool \<Rightarrow> bus_event \<Rightarrow> bus_event list" where
  "emit bus e = (if bus then [e] else [])"

text \<open>The configuration \<^verbatim>\<open>runAgent\<close> is called with.\<close>

record AgentConfig =
  system :: string
  config_tools :: "string list"
  agentName :: "string option"

text \<open>
  The part of \<^verbatim>\<open>PluginContext\<close> the executor reads, with the two calls that leave the
  module: \<^verbatim>\<open>ctx.storage.skills.getSkill\<close> (a skill, \<^verbatim>\<open>null\<close>, or a throw) and
  \<^verbatim>\<open>runAgent\<close> inside \<^verbatim>\<open>delegationStore.run(childCtx, ...)\<close> (its result or a throw).
\<close>

record PluginContext =
  registry_of :: AgentRegistry
  maxDelegationDepth :: int
  getSkill :: "string \<Rightarrow> thrown + Skill option"
  runAgent :: "DelegationContext \<Rightarrow> AgentConfig \<Rightarrow> string \<Rightarrow> thrown + AgentResult"

subsection \<open>Constants\<close>

definition SUMMARY_LENGTH_LIMIT :: nat where
  "SUMMARY_LENGTH_LIMIT = 200"

definition TOOL_CLARIFY :: string where
  "TOOL_CLARIFY = ''clarify''"

definition TOOL_MEMORY :: string where
  "TOOL_MEMORY = ''memory''"

definition TOOL_ROUTE_TO_AGENT :: string where
  "TOOL_ROUTE_TO_AGENT = ''routeToAgent''"

definition TOOL_CREATE_TASK :: string where
  "TOOL_CREATE_TASK = ''createTask''"

definition MEMORY_PROMPT_SUFFIX :: string where
  "MEMORY_PROMPT_SUFFIX =
     LF @ LF @ ''You have access to a memory tool for storing and retrieving information. '' @
     ''Use it to remember important facts, user preferences, or intermediate results. '' @
     ''Actions: set (save), get (retrieve by key), list (show all), delete (remove).''"

definition CLARIFY_PROMPT_SUFFIX :: string where
  "CLARIFY_PROMPT_SUFFIX =
     LF @ LF @ ''IMPORTANT: If the user's query is vague or lacks specifics needed to give a good answer, '' @
     ''you MUST use the clarify tool to ask for more information. Do NOT guess, do NOT ask in plain text, '' @
     ''and do NOT proceed without the needed details. Call clarify with items like: '' @
     ''{items: [{type: '' @ DQ @ ''question'' @ DQ @ '', text: '' @ DQ @ ''Your question here'' @ DQ @
     '', context: '' @ DQ @ ''Why you need this'' @ DQ @ ''}]}.''"

subsection \<open>Loading the skills of a task\<close>

text \<open>
  The loop over \<^verbatim>\<open>skills\<close>: the sections for the system prompt and the names of the
  query-phase and response-phase skills, in order; a throw of \<^verbatim>\<open>getSkill\<close> ends it.
\<close>

record loaded_skills =
  skillSections :: "string list"
  querySkillNames :: "string list"
  responseSkillNames :: "string list"

definition add_skill :: "Skill \<Rightarrow> loaded_skills \<Rightarrow> loaded_skills" where
  "add_skill sk acc =
     (let acc1 = (if phase sk = Query \<or> phase sk = Both
                  then acc\<lparr>skillSections := skillSections acc @
                              [''### '' @ skill_name sk @ LF @ skill_content sk],
                            querySkillNames := querySkillNames acc @ [skill_name sk]\<rparr>
                  else acc)
      in if phase sk = Response \<or> phase sk = Both
         then acc1\<lparr>responseSkillNames := responseSkillNames acc1 @ [skill_name sk]\<rparr>
         else acc1)"

fun load_skills ::
  "(string \<Rightarrow> thrown + Skill option) \<Rightarrow> string list \<Rightarrow> loaded_skills \<Rightarrow> thrown + loaded_skills" where
  "load_skills gs [] acc = Inr acc"
| "load_skills gs (skillName # rest) acc =
     (case gs skillName of
        Inl err \<Rightarrow> Inl err
      | Inr None \<Rightarrow> load_skills gs rest acc
      | Inr (Some sk) \<Rightarrow> load_skills gs rest (add_skill sk acc))"

definition no_skills :: loaded_skills where
  "no_skills = \<lparr>skillSections = [], querySkillNames = [], responseSkillNames = []\<rparr>"

definition ACTIVE_SKILLS_HEADER :: string where
  "ACTIVE_SKILLS_HEADER =
     ''# Active Skills'' @ LF @
     ''Apply the following behavioral instructions to your response:'' @ LF @ LF"

subsection \<open>executeTask\<close>

text \<open>
  What \<^verbatim>\<open>executeTask\<close> reads from the parent context:
  \<^verbatim>\<open>parentCtx?.chain ?? []\<close>, \<^verbatim>\<open>parentCtx?.depth ?? 0\<close>, whether \<^verbatim>\<open>getEventBus()\<close>
  finds a bus, and the sender \<^verbatim>\<open>from\<close> of the delegation events (the last element of
  the chain, else the orchestrator of the context, else the agent itself).
\<close>

definition parent_chain :: "DelegationContext option \<Rightarrow> string list" where
  "parent_chain parentCtx = (case parentCtx of None \<Rightarrow> [] | Some p \<Rightarrow> dc_chain p)"

definition parent_depth :: "DelegationContext option \<Rightarrow> int" where
  "parent_depth parentCtx = (case parentCtx of None \<Rightarrow> 0 | Some p \<Rightarrow> dc_depth p)"

definition parent_bus :: "DelegationContext option \<Rightarrow> bool" where
  "parent_bus parentCtx = (case parentCtx of None \<Rightarrow> False | Some p \<Rightarrow> dc_events p)"

definition delegate_from :: "DelegationContext option \<Rightarrow> string \<Rightarrow> string" where
  "delegate_from parentCtx a =
     (if parent_chain parentCtx \<noteq> [] then last (parent_chain parentCtx)
      else (case Option.bind parentCtx dc_orchestrator of Some orch \<Rightarrow> orch | None \<Rightarrow> a))"

text \<open>
  What the agent is run with: the child context (the chain extended by the agent, the
  depth incremented, the bus of the parent), the tools of the registration with the
  clarify tool and, unless disabled, the memory tool, and the system prompt with the
  suffixes for them.
\<close>

definition childCtx :: "DelegationContext option \<Rightarrow> string \<Rightarrow> DelegationContext" where
  "childCtx parentCtx a =
     \<lparr>dc_chain = parent_chain parentCtx @ [a],
      dc_depth = parent_depth parentCtx + 1,
      dc_events = parent_bus parentCtx, dc_orchestrator = None\<rparr>"

definition augmentedTools :: "AgentRegistration \<Rightarrow> string list" where
  "augmentedTools registration =
     (let tools1 = set_key TOOL_CLARIFY
                     (case tools registration of None \<Rightarrow> [] | Some ts \<Rightarrow> ts)
      in if \<not> disableMemoryTool registration then set_key TOOL_MEMORY tools1 else tools1)"

definition augmentedSystem :: "AgentRegistration \<Rightarrow> string \<Rightarrow> string" where
  "augmentedSystem registration systemPrompt =
     systemPrompt @ CLARIFY_PROMPT_SUFFIX @
     (if \<not> disableMemoryTool registration then MEMORY_PROMPT_SUFFIX else [])"

text \<open>
  The agent invocation of \<^verbatim>\<open>executeTask\<close>:
  \<^verbatim>\<open>delegationStore.run(childCtx, () => runAgent(ctx, { system: augmentedSystem, tools: augmentedTools, agentName: agent }, query))\<close>.
\<close>

definition agent_invocation ::
  "PluginContext \<Rightarrow> DelegationContext option \<Rightarrow> AgentRegistration \<Rightarrow> string \<Rightarrow> string \<Rightarrow>
   string \<Rightarrow> thrown + AgentResult" where
  "agent_invocation ctx parentCtx registration systemPrompt a q =
     runAgent ctx (childCtx parentCtx a)
       \<lparr>system = augmentedSystem registration systemPrompt,
        config_tools = augmentedTools registration,
        agentName = Some a\<rparr> q"

text \<open>
  The \<^verbatim>\<open>try\<close> block at the end of \<^verbatim>\<open>executeTask\<close>: the agent is run in the child
  context; its result is returned with the response skills, and a throw is caught and
  turned into an \<^verbatim>\<open>errorResult\<close> that carries the message. \<open>ev\<close> are the events
  emitted before. The events \<^verbatim>\<open>runAgent\<close> emits itself are not listed.
\<close>

definition invoke_agent ::
  "PluginContext \<Rightarrow> DelegationContext option \<Rightarrow> AgentRegistration \<Rightarrow> loaded_skills \<Rightarrow>
   string \<Rightarrow> string \<Rightarrow> string \<Rightarrow> bus_event list \<Rightarrow> bus_event list \<times> (thrown + TaskResult)" where
  "invoke_agent ctx parentCtx registration loaded systemPrompt a q ev =
     (let bus = parent_bus parentCtx;
          from = delegate_from parentCtx a;
          ev2 = ev @ emit bus (BusAgentStart a)
                   @ emit bus (BusStatus ''processing'' ''Agent starting work'' (Some a))
      in case agent_invocation ctx parentCtx registration systemPrompt a q of
           Inr res \<Rightarrow>
             (ev2 @ emit bus (BusAgentEnd a None)
                  @ emit bus (DelegateEnd from a
                       (js_slice SUMMARY_LENGTH_LIMIT (response res)) False),
              Inr \<lparr>agent = a, query = q, result = res,
                   responseSkills =
                     (if responseSkillNames loaded \<noteq> []
                      then Some (responseSkillNames loaded) else None)\<rparr>)
         | Inl err \<Rightarrow>
             (ev2 @ emit bus (BusAgentEnd a
                       (Some (js_slice SUMMARY_LENGTH_LIMIT (message_of err))))
                  @ emit bus (DelegateEnd from a
                       (''Error: '' @ js_slice SUMMARY_LENGTH_LIMIT (message_of err)) True),
              Inr (errorResult a q (''Agent execution failed: '' @ message_of err))))"

text \<open>
  The guard block: without a guard the agent is invoked; a guard that throws makes
  \<^verbatim>\<open>executeTask\<close> throw (the call is outside the \<^verbatim>\<open>try\<close>); a guard that does not
  allow the query ends the delegation with a \<^verbatim>\<open>delegate:end\<close> event (\<^verbatim>\<open>Blocked: ...\<close>,
  \<^verbatim>\<open>error: true\<close>) and an \<^verbatim>\<open>errorResult\<close>.
\<close>

definition guarded_invoke ::
  "PluginContext \<Rightarrow> DelegationContext option \<Rightarrow> AgentRegistration \<Rightarrow> loaded_skills \<Rightarrow>
   string \<Rightarrow> string \<Rightarrow> string \<Rightarrow> bus_event list \<Rightarrow> bus_event list \<times> (thrown + TaskResult)" where
  "guarded_invoke ctx parentCtx registration loaded systemPrompt a q ev =
     (case guard registration of
        None \<Rightarrow> invoke_agent ctx parentCtx registration loaded systemPrompt a q ev
      | Some g \<Rightarrow>
          (let bus = parent_bus parentCtx;
               from = delegate_from parentCtx a;
               ev2 = ev @ emit bus
                      (BusStatus ''guard-check'' ''Running pre-execution guard'' (Some a))
           in case g q a of
                Inl err \<Rightarrow> (ev2, Inl err)
              | Inr guardResult \<Rightarrow>
                  if \<not> allowed guardResult
                  then (ev2 @ emit bus (DelegateEnd from a
                          (''Blocked: '' @ (case reason guardResult of
                                              Some r \<Rightarrow> r
                                            | None \<Rightarrow> ''guard rejected'')) True),
                        Inr (errorResult a q
                          (''Guard blocked: '' @ (case reason guardResult of
                                                   Some r \<Rightarrow> r
                                                 | None \<Rightarrow> ''query not allowed''))))
                  else invoke_agent ctx parentCtx registration loaded systemPrompt a q ev2))"

text \<open>
  \<^verbatim>\<open>if (skills && skills.length > 0) { for ... }\<close>: a throw of \<^verbatim>\<open>getSkill\<close> leaves the
  function, which has no \<^verbatim>\<open>try\<close> around the loop.
\<close>

definition task_skills_loaded ::
  "PluginContext \<Rightarrow> string list option \<Rightarrow> thrown + loaded_skills" where
  "task_skills_loaded ctx skills =
     (case skills of
        None \<Rightarrow> Inr no_skills
      | Some names \<Rightarrow> load_skills (getSkill ctx) names no_skills)"

text \<open>
  The system prompt of the task: the resolved prompt of the agent, with the sections of
  the query-phase skills under a header when there are any.
\<close>

definition task_systemPrompt :: "PluginContext \<Rightarrow> string \<Rightarrow> loaded_skills \<Rightarrow> string" where
  "task_systemPrompt ctx a loaded =
     (let basePrompt = (case getResolvedPrompt (registry_of ctx) a of
                          Some p \<Rightarrow> p
                        | None \<Rightarrow> [])
      in if skillSections loaded \<noteq> []
         then basePrompt @ LF @ LF @ ACTIVE_SKILLS_HEADER @
              join (LF @ LF) (skillSections loaded)
         else basePrompt)"

text \<open>
  The part of \<^verbatim>\<open>executeTask\<close> after the legality checks. The result is the list of
  events emitted on the bus and either what the function throws (its promise rejects) or
  the \<^verbatim>\<open>TaskResult\<close> it returns.
\<close>

definition run_delegation ::
  "PluginContext \<Rightarrow> DelegationContext option \<Rightarrow> AgentRegistration \<Rightarrow> string \<Rightarrow> string \<Rightarrow>
   string list option \<Rightarrow> bus_event list \<times> (thrown + TaskResult)" where
  "run_delegation ctx parentCtx registration a q skills =
     (let bus = parent_bus parentCtx;
          from = delegate_from parentCtx a
      in case task_skills_loaded ctx skills of
           Inl err \<Rightarrow> ([], Inl err)
         | Inr loaded \<Rightarrow>
             (let systemPrompt = task_systemPrompt ctx a loaded;
                  ev1 = (if querySkillNames loaded \<noteq> []
                         then emit bus (SkillInject a (querySkillNames loaded) ''query'')
                         else [])
                        @ emit bus (DelegateStart from a q)
              in guarded_invoke ctx parentCtx registration loaded systemPrompt a q ev1))"

text \<open>
  \<^verbatim>\<open>executeTask\<close>: the six legality checks in the order of the source, each returning an
  \<^verbatim>\<open>errorResult\<close>, then the delegation.
\<close>

definition executeTask ::
  "PluginContext \<Rightarrow> DelegationContext option \<Rightarrow> string \<Rightarrow> string \<Rightarrow> string list option \<Rightarrow>
   bus_event list \<times> (thrown + TaskResult)" where
  "executeTask ctx parentCtx a q skills =
     (case registry_get (registry_of ctx) a of
        None \<Rightarrow> ([], Inr (errorResult a q (''Unknown agent: '' @ a)))
      | Some registration \<Rightarrow>
          if a \<in> getOrchestratorNames (registry_of ctx)
          then ([], Inr (errorResult a q
                  (''Agent '' @ DQ @ a @ DQ @ '' is an orchestrator and cannot be delegated to'')))
          else if (case tools registration of None \<Rightarrow> True | Some ts \<Rightarrow> ts = [])
          then ([], Inr (errorResult a q
                  (''Agent '' @ DQ @ a @ DQ @ '' does not support task execution'')))
          else
            (let chain = parent_chain parentCtx;
                 depth = parent_depth parentCtx
             in if depth \<ge> maxDelegationDepth ctx
                then ([], Inr (errorResult a q
                        (''Delegation depth limit ('' @ template_number (maxDelegationDepth ctx) @
                         '') exceeded. Chain: '' @ join ARROW chain @ ARROW @ a)))
                else if chain \<noteq> [] \<and> last chain = a
                then ([], Inr (errorResult a q
                        (''Self-delegation blocked: '' @ DQ @ a @ DQ @
                         '' cannot delegate to itself'')))
                else if a \<in> set chain
                then ([], Inr (errorResult a q
                        (''Circular delegation blocked: '' @ join ARROW chain @ ARROW @ a)))
                else run_delegation ctx parentCtx registration a q skills))"

text \<open>A result of the shape \<^verbatim>\<open>errorResult\<close> builds, for the agent and query given.\<close>

definition is_error_result :: "string \<Rightarrow> string \<Rightarrow> bus_event list \<times> (thrown + TaskResult) \<Rightarrow> bool" where
  "is_error_result a q out =
     (case snd out of
        Inl err \<Rightarrow> False
      | Inr r \<Rightarrow> r = errorResult a q (response (result r)))"

text \<open>
  The six checks of the specification, as one predicate: the agent is registered, it is
  not an orchestrator, it has tools, the depth is below the limit, and the agent is not
  in the chain (as its last element or anywhere).
\<close>

definition passes_checks :: "PluginContext \<Rightarrow> DelegationContext option \<Rightarrow> string \<Rightarrow> bool" where
  "passes_checks ctx parentCtx a =
     (case registry_get (registry_of ctx) a of
        None \<Rightarrow> False
      | Some registration \<Rightarrow>
          a \<notin> getOrchestratorNames (registry_of ctx)
          \<and> (case tools registration of None \<Rightarrow> False | Some ts \<Rightarrow> ts \<noteq> [])
          \<and> parent_depth parentCtx < maxDelegationDepth ctx
          \<and> a \<notin> set (parent_chain parentCtx))"


section \<open>The orchestrator (agents/orchestrator.ts)\<close>

subsection \<open>Tasks and their isolated execution\<close>

record Task =
  task_agent :: string
  task_query :: string
  task_skills :: "string list option"

text \<open>
  \<^verbatim>\<open>(s.reason as Error)?.message ?? "Unknown error"\<close>: the \<^verbatim>\<open>message\<close> property of
  what was thrown, whether an \<^verbatim>\<open>Error\<close> or not, when it is not null or undefined.
\<close>

definition reason_message :: "thrown \<Rightarrow> string" where
  "reason_message why =
     (case message_property why of Some m \<Rightarrow> m | None \<Rightarrow> ''Unknown error'')"

text \<open>
  \<^verbatim>\<open>executeTasksSettled\<close>: every task is started, \<^verbatim>\<open>Promise.allSettled\<close> waits for all
  of them, and a rejected task becomes a result that carries \<^verbatim>\<open>Task failed: ...\<close>. The
  tasks share no state in this model (\<^verbatim>\<open>getSkill\<close>, the guards and \<^verbatim>\<open>runAgent\<close> are
  functions of their arguments), so each result is that of \<^verbatim>\<open>executeTask\<close> on its own;
  the bus events of the tasks, which the scheduler interleaves, are not returned.
\<close>

definition settled :: "Task \<Rightarrow> thrown + TaskResult \<Rightarrow> TaskResult" where
  "settled t outcome =
     (case outcome of
        Inr v \<Rightarrow> v
      | Inl why \<Rightarrow>
          \<lparr>agent = task_agent t, query = task_query t,
           result = \<lparr>response = ''Task failed: '' @ reason_message why, items = None,
                     toolsUsed = [], usage = None\<rparr>,
           responseSkills = None\<rparr>)"

definition executeTasksSettled ::
  "PluginContext \<Rightarrow> DelegationContext option \<Rightarrow> Task list \<Rightarrow> TaskResult list" where
  "executeTasksSettled ctx parentCtx tasks =
     map (\<lambda>t. settled t
            (snd (executeTask ctx parentCtx (task_agent t) (task_query t) (task_skills t))))
       tasks"

subsection \<open>The result of the planning call\<close>

text \<open>
  What the handlers read of the result of \<^verbatim>\<open>generateText\<close>: the text, and per step the
  tool calls (name and input) and the tool results (name and output). The output of
  \<^verbatim>\<open>routeToAgent\<close> is the result of \<^verbatim>\<open>executeTask\<close> with the response skills under
  \<^verbatim>\<open>_responseSkills\<close>. \<open>plan_usage\<close> is what \<^verbatim>\<open>extractUsage\<close> makes of the result.
\<close>

record ToolInput =
  in_agent :: "string option"
  in_query :: "string option"
  in_skills :: "string list option"

record ToolCall =
  call_toolName :: string
  call_input :: "ToolInput option"

record RouteOutput =
  out_result :: AgentResult
  out_responseSkills :: "string list"

record ToolResult =
  res_toolName :: string
  res_output :: "RouteOutput option"

record Step =
  toolCalls :: "ToolCall list"
  toolResults :: "ToolResult list"

record PlanResult =
  plan_text :: string
  steps :: "Step list"
  plan_usage :: UsageInfo

text \<open>
  \<^verbatim>\<open>collectTasksFromSteps\<close>: one task per \<^verbatim>\<open>createTask\<close> call whose input has a
  non-empty agent and a non-empty query.
\<close>

definition task_of_call :: "ToolCall \<Rightarrow> Task list" where
  "task_of_call tc =
     (case call_input tc of
        None \<Rightarrow> []
      | Some inp \<Rightarrow>
          if call_toolName tc = TOOL_CREATE_TASK
          then (case in_agent inp of
                  None \<Rightarrow> []
                | Some ag \<Rightarrow>
                    (case in_query inp of
                       None \<Rightarrow> []
                     | Some qu \<Rightarrow>
                         if ag \<noteq> [] \<and> qu \<noteq> []
                         then [\<lparr>task_agent = ag, task_query = qu, task_skills = in_skills inp\<rparr>]
                         else []))
          else [])"

definition collectTasksFromSteps :: "Step list \<Rightarrow> Task list" where
  "collectTasksFromSteps sts = concat (map (\<lambda>st. concat (map task_of_call (toolCalls st))) sts)"

definition collectResponseSkills :: "TaskResult list \<Rightarrow> string list" where
  "collectResponseSkills results =
     new_Set (concat (map (\<lambda>r. case responseSkills r of None \<Rightarrow> [] | Some ss \<Rightarrow> ss) results))"

record SynthesisSource =
  label :: string
  source_response :: string

definition taskResultsToSources :: "TaskResult list \<Rightarrow> SynthesisSource list" where
  "taskResultsToSources results =
     map (\<lambda>(i, r). \<lparr>label = ''Task '' @ decimal (i + 1) @ '' ('' @ agent r @ '')'',
                    source_response = response (result r)\<rparr>)
       (enumerate 0 results)"

definition buildSynthesisPrompt :: "SynthesisSource list \<Rightarrow> string \<Rightarrow> string" where
  "buildSynthesisPrompt sources userMessage =
     ''Here are the results from the specialist agent(s):'' @ LF @ LF @
     join (LF @ LF) (map (\<lambda>src. label src @ '':'' @ LF @ source_response src) sources) @
     LF @ LF @
     ''Please synthesize these results into a coherent, comprehensive response for the user's original query: '' @
     DQ @ userMessage @ DQ"

text \<open>
  \<^verbatim>\<open>buildSynthesisContext\<close>: the sections of the response skills that exist, or
  \<^verbatim>\<open>undefined\<close>; a throw of \<^verbatim>\<open>getSkill\<close> leaves the function.
\<close>

fun synthesis_sections ::
  "(string \<Rightarrow> thrown + Skill option) \<Rightarrow> string list \<Rightarrow> thrown + string list" where
  "synthesis_sections gs [] = Inr []"
| "synthesis_sections gs (n # ns) =
     (case gs n of
        Inl err \<Rightarrow> Inl err
      | Inr found \<Rightarrow>
          (case synthesis_sections gs ns of
             Inl err \<Rightarrow> Inl err
           | Inr rest \<Rightarrow>
               Inr ((case found of
                       None \<Rightarrow> []
                     | Some sk \<Rightarrow> [''### '' @ skill_name sk @ LF @ skill_content sk]) @ rest)))"

definition buildSynthesisContext :: "PluginContext \<Rightarrow> string list \<Rightarrow> thrown + string option" where
  "buildSynthesisContext ctx skillNames =
     (if skillNames = [] then Inr None
      else case synthesis_sections (getSkill ctx) (new_Set skillNames) of
             Inl err \<Rightarrow> Inl err
           | Inr sections \<Rightarrow>
               if sections = [] then Inr None
               else Inr (Some (ACTIVE_SKILLS_HEADER @ join (LF @ LF) sections)))"

text \<open>
  \<^verbatim>\<open>results.map((r) => r.result.usage).filter((u) => !!u)\<close>, and the task summaries of
  the final payload.
\<close>

definition subAgentUsages :: "TaskResult list \<Rightarrow> UsageInfo list" where
  "subAgentUsages results = List.map_filter (\<lambda>r. usage (result r)) results"

record TaskSummary =
  sum_agent :: string
  sum_query :: string
  sum_summary :: string

definition task_summaries :: "TaskResult list \<Rightarrow> TaskSummary list" where
  "task_summaries results =
     map (\<lambda>r. \<lparr>sum_agent = agent r, sum_query = query r,
               sum_summary = js_slice SUMMARY_LENGTH_LIMIT (response (result r))\<rparr>) results"

definition tools_of_results :: "TaskResult list \<Rightarrow> string list" where
  "tools_of_results results = new_Set (concat (map (\<lambda>r. toolsUsed (result r)) results))"

subsection \<open>The aggregate usage of a request\<close>

text \<open>
  The two lines that every executing branch of the handlers runs:
  \<^verbatim>\<open>const totalUsage = mergeUsage(...); totalUsage.durationMs = Math.round(performance.now() - overallStart)\<close>.
  \<open>clock\<close> is that last reading. With a fresh plan the stages are the planning call,
  the tasks and the synthesis; with an approved plan there is no planning call.
\<close>

definition plan_totalUsage ::
  "UsageInfo \<Rightarrow> TaskResult list \<Rightarrow> UsageInfo \<Rightarrow> nat \<Rightarrow> UsageInfo" where
  "plan_totalUsage planUsage results synthUsageInfo clock =
     (mergeUsage (planUsage # subAgentUsages results @ [synthUsageInfo]))\<lparr>durationMs := clock\<rparr>"

definition approvedPlan_totalUsage ::
  "TaskResult list \<Rightarrow> UsageInfo \<Rightarrow> nat \<Rightarrow> UsageInfo" where
  "approvedPlan_totalUsage results synthUsageInfo clock =
     (mergeUsage (subAgentUsages results @ [synthUsageInfo]))\<lparr>durationMs := clock\<rparr>"

subsection \<open>Requests and what surrounds a handler\<close>

text \<open>
  The fields of the request body the handlers read. \<open>body_approvedPlan\<close> is the array
  when the body has one.
\<close>

record RequestBody =
  body_message :: string
  body_conversationId :: "string option"
  body_planMode :: bool
  body_approvedPlan :: "Task list option"
  body_autonomous :: "bool option"

text \<open>
  What a handler meets outside of this module:
  \<^item> \<open>system_prompt\<close>: \<^verbatim>\<open>buildSystemPrompt\<close> (it reads the skill store), the prompt or a
    throw;
  \<^item> \<open>planning\<close>: the planning call \<^verbatim>\<open>withResilience({fn: generateText(...)})\<close>, its result
    or its throw;
  \<^item> \<open>synthesis_json\<close>: the same for the synthesis call of the JSON handler, by system
    prompt and prompt: the text and the usage extracted;
  \<^item> \<open>synthesis_stream\<close>: \<^verbatim>\<open>streamText\<close> for the streaming handler: the text chunks read
    from the stream, then the usage or a throw;
  \<^item> \<open>save_response\<close>: \<^verbatim>\<open>ctx.storage.conversations.append\<close> in
    \<^verbatim>\<open>saveAssistantResponse\<close>: a throw, if any;
  \<^item> \<open>clock\<close>: \<^verbatim>\<open>Math.round(performance.now() - overallStart)\<close> when the total is built;
  \<^item> \<open>signal_aborted\<close>: \<^verbatim>\<open>abortSignal.aborted\<close> when the \<^verbatim>\<open>catch\<close> block reads it;
  \<^item> \<open>fresh_id\<close>: the id \<^verbatim>\<open>generateConversationId\<close> makes when the body has none.
\<close>

record OrchestratorEnv =
  plugin :: PluginContext
  system_prompt :: "thrown + string"
  planning :: "thrown + PlanResult"
  synthesis_json :: "string option \<Rightarrow> string \<Rightarrow> thrown + (string \<times> UsageInfo)"
  synthesis_stream :: "string option \<Rightarrow> string \<Rightarrow> string list \<times> (thrown + UsageInfo)"
  save_response :: "string \<Rightarrow> thrown option"
  clock :: nat
  signal_aborted :: bool
  fresh_id :: string

definition generateConversationId :: "OrchestratorEnv \<Rightarrow> string option \<Rightarrow> string" where
  "generateConversationId env existing =
     (case existing of Some i \<Rightarrow> i | None \<Rightarrow> fresh_id env)"

text \<open>
  \<^verbatim>\<open>approvedPlan && Array.isArray(approvedPlan) && approvedPlan.length > 0\<close>.
\<close>

definition approved_tasks :: "RequestBody \<Rightarrow> Task list option" where
  "approved_tasks body =
     (case body_approvedPlan body of
        None \<Rightarrow> None
      | Some ts \<Rightarrow> if ts = [] then None else Some ts)"

text \<open>
  \<^verbatim>\<open>getRoutableAgents\<close>; \<^verbatim>\<open>buildRoutingTool\<close> and \<^verbatim>\<open>buildCreateTaskTool\<close> throw when
  there is none.
\<close>

definition getRoutableAgents ::
  "PluginContext \<Rightarrow> string list option \<Rightarrow> AgentRegistration list" where
  "getRoutableAgents ctx allowedAgents =
     filter (\<lambda>ag. \<not> (name ag \<in> getOrchestratorNames (registry_of ctx))
                 \<and> \<not> (case tools ag of None \<Rightarrow> True | Some ts \<Rightarrow> ts = [])
                 \<and> (case allowedAgents of None \<Rightarrow> True | Some al \<Rightarrow> name ag \<in> set al))
       (map snd (agents (registry_of ctx)))"

definition no_routable_agents :: thrown where
  "no_routable_agents = ErrorObj (new_Error ''No routable agents available'')"

subsection \<open>The JSON handler\<close>

record JsonBody =
  json_response :: string
  json_toolsUsed :: "string list"
  json_agentsUsed :: "string list option"
  json_tasks :: "TaskSummary list option"
  json_conversationId :: string
  json_usage :: UsageInfo

text \<open>\<^verbatim>\<open>synthesizeJson\<close>: the context of the response skills, then the model call.\<close>

definition synthesizeJson ::
  "OrchestratorEnv \<Rightarrow> SynthesisSource list \<Rightarrow> string \<Rightarrow> string list \<Rightarrow>
   thrown + (string \<times> UsageInfo)" where
  "synthesizeJson env sources userMessage skillNames =
     (case buildSynthesisContext (plugin env) skillNames of
        Inl err \<Rightarrow> Inl err
      | Inr synthesisSystem \<Rightarrow>
          synthesis_json env synthesisSystem (buildSynthesisPrompt sources userMessage))"

text \<open>
  The branch both paths of the JSON handler share: the tasks are executed, their results
  synthesized, and the response is built. \<open>first_usage\<close> is the usage of the planning
  call when there was one.
\<close>

definition json_execute_tasks ::
  "OrchestratorEnv \<Rightarrow> DelegationContext option \<Rightarrow> RequestBody \<Rightarrow> Task list \<Rightarrow>
   UsageInfo option \<Rightarrow> thrown + JsonBody" where
  "json_execute_tasks env parentCtx body tasks first_usage =
     (let results = executeTasksSettled (plugin env) parentCtx tasks;
          responseSkills = collectResponseSkills results;
          sources = taskResultsToSources results
      in case synthesizeJson env sources (body_message body) responseSkills of
           Inl err \<Rightarrow> Inl err
         | Inr (stext, synthUsage) \<Rightarrow>
             Inr \<lparr>json_response = stext,
                  json_toolsUsed = tools_of_results results,
                  json_agentsUsed = (case first_usage of
                                       None \<Rightarrow> None
                                     | Some pu \<Rightarrow> Some (new_Set (map agent results))),
                  json_tasks = Some (task_summaries results),
                  json_conversationId = generateConversationId env (body_conversationId body),
                  json_usage = (case first_usage of
                                  None \<Rightarrow> approvedPlan_totalUsage results synthUsage (clock env)
                                | Some pu \<Rightarrow> plan_totalUsage pu results synthUsage (clock env))\<rparr>)"

text \<open>
  The direct path of the JSON handler: no task was declared; the text of the planning
  call is the response.
\<close>

definition json_direct :: "OrchestratorEnv \<Rightarrow> RequestBody \<Rightarrow> PlanResult \<Rightarrow> JsonBody" where
  "json_direct env body res =
     (let orchestratorUsage = plan_usage res;
          routeResultUsages =
            List.map_filter
              (\<lambda>tr. case res_output tr of None \<Rightarrow> None | Some ro \<Rightarrow> usage (out_result ro))
              (filter (\<lambda>tr. res_toolName tr = TOOL_ROUTE_TO_AGENT)
                 (concat (map toolResults (steps res))));
          calls = concat (map toolCalls (steps res))
      in \<lparr>json_response = plan_text res,
          json_toolsUsed = new_Set (map call_toolName calls),
          json_agentsUsed = Some (new_Set
            (List.map_filter
               (\<lambda>tc. case call_input tc of
                        None \<Rightarrow> None
                      | Some inp \<Rightarrow> (case in_agent inp of
                                       None \<Rightarrow> None
                                     | Some ag \<Rightarrow> if ag \<noteq> [] then Some ag else None))
               calls)),
          json_tasks = None,
          json_conversationId = generateConversationId env (body_conversationId body),
          json_usage = (if routeResultUsages \<noteq> []
                        then mergeUsage (orchestratorUsage # routeResultUsages)
                        else orchestratorUsage)\<rparr>)"

text \<open>
  \<^verbatim>\<open>buildJsonHandler\<close>. The handler computes
  \<^verbatim>\<open>const autonomous = reqAutonomous ?? defaultAutonomous\<close> and never reads it: declared
  tasks are executed whatever its value.
\<close>

definition buildJsonHandler ::
  "OrchestratorEnv \<Rightarrow> DelegationContext option \<Rightarrow> string list option \<Rightarrow> bool \<Rightarrow> RequestBody \<Rightarrow>
   thrown + JsonBody" where
  "buildJsonHandler env parentCtx allowedAgents defaultAutonomous body =
     (let autonomous = (case body_autonomous body of Some b \<Rightarrow> b | None \<Rightarrow> defaultAutonomous)
      in case approved_tasks body of
           Some plan \<Rightarrow> json_execute_tasks env parentCtx body plan None
         | None \<Rightarrow>
             (case system_prompt env of
                Inl err \<Rightarrow> Inl err
              | Inr sys \<Rightarrow>
             if getRoutableAgents (plugin env) allowedAgents = [] then Inl no_routable_agents
             else (case planning env of
                     Inl err \<Rightarrow> Inl err
                   | Inr res \<Rightarrow>
                       (let tasks = collectTasksFromSteps (steps res)
                        in if tasks \<noteq> []
                           then json_execute_tasks env parentCtx body tasks (Some (plan_usage res))
                           else Inr (json_direct env body res)))))"

subsection \<open>The streaming handler\<close>

text \<open>
  The events the handler writes through its serialized writer, with the fields of their
  payloads that matter here, in the order written. The events the bridge forwards from
  the bus are not listed.
\<close>

record DonePayload =
  done_toolsUsed :: "string list"
  done_conversationId :: string
  done_awaitingApproval :: bool
  done_awaitingResponse :: bool
  done_plan :: "Task list option"
  done_tasks :: "TaskSummary list option"
  done_usage :: UsageInfo

datatype sse_event =
    SessionStart string
  | SseAgentStart string
  | SseStatus string string string
  | AgentPlan "Task list"
  | AskUser "ClarifyItem list" "string option"
  | SseAgentEnd string
  | SseSkillInject string "string list"
  | AgentThink string
  | TextDelta string
  | Done DonePayload
  | Cancelled string
  | SseError string string

definition SYNTHESIS_MESSAGE :: string where
  "SYNTHESIS_MESSAGE = ''Synthesizing results...''"

text \<open>
  \<^verbatim>\<open>synthesizeStreaming\<close>: the events written, then the text and usage or a throw.
\<close>

definition synthesizeStreaming ::
  "OrchestratorEnv \<Rightarrow> SynthesisSource list \<Rightarrow> string \<Rightarrow> string list \<Rightarrow> string \<Rightarrow>
   sse_event list \<times> (thrown + (string \<times> UsageInfo))" where
  "synthesizeStreaming env sources userMessage skillNames agentName' =
     (case buildSynthesisContext (plugin env) skillNames of
        Inl err \<Rightarrow> ([], Inl err)
      | Inr synthesisSystem \<Rightarrow>
          (let written = (if skillNames \<noteq> [] then [SseSkillInject agentName' skillNames] else [])
                         @ [SseStatus ''synthesizing'' ''Combining results'' agentName',
                            AgentThink SYNTHESIS_MESSAGE];
               streamed = synthesis_stream env synthesisSystem
                            (buildSynthesisPrompt sources userMessage)
           in (written @ map TextDelta (fst streamed),
               (case snd streamed of
                  Inl err \<Rightarrow> Inl err
                | Inr synthUsage \<Rightarrow> Inr (concat (fst streamed), synthUsage)))))"

text \<open>\<^verbatim>\<open>saveAssistantResponse\<close>: \<^verbatim>\<open>if (cid && text) await ...append(...)\<close>.\<close>

definition saveAssistantResponse :: "OrchestratorEnv \<Rightarrow> RequestBody \<Rightarrow> string \<Rightarrow> thrown option" where
  "saveAssistantResponse env body stext =
     (case body_conversationId body of
        None \<Rightarrow> None
      | Some i \<Rightarrow> if i \<noteq> [] \<and> stext \<noteq> [] then save_response env stext else None)"

text \<open>
  The \<^verbatim>\<open>catch\<close> block of both streaming paths: \<^verbatim>\<open>cancelled\<close> for an \<^verbatim>\<open>AbortError\<close> or
  an aborted signal, \<^verbatim>\<open>error\<close> with the message otherwise.
\<close>

definition catch_block :: "bool \<Rightarrow> string \<Rightarrow> thrown \<Rightarrow> sse_event list" where
  "catch_block aborted_now convId err =
     (if name_of err = Some ''AbortError'' \<or> aborted_now
      then [Cancelled convId]
      else [SseError convId (message_of err)])"

definition on_error :: "OrchestratorEnv \<Rightarrow> string \<Rightarrow> thrown \<Rightarrow> sse_event list" where
  "on_error env convId err = catch_block (signal_aborted env) convId err"

text \<open>
  A \<^verbatim>\<open>try\<close> body gives the events it wrote and the throw that ended it, if any;
  \<open>with_catch\<close> adds what the \<^verbatim>\<open>catch\<close> block writes.
\<close>

definition with_catch ::
  "OrchestratorEnv \<Rightarrow> string \<Rightarrow> sse_event list \<times> thrown option \<Rightarrow> sse_event list" where
  "with_catch env convId tried =
     fst tried @ (case snd tried of None \<Rightarrow> [] | Some err \<Rightarrow> on_error env convId err)"

text \<open>
  The context the streaming handler runs its tasks in:
  \<^verbatim>\<open>{ ...parentCtx!, abortSignal }\<close>.
\<close>

definition delCtx :: "DelegationContext option \<Rightarrow> DelegationContext" where
  "delCtx parentCtx =
     (case parentCtx of
        Some p \<Rightarrow> p
      | None \<Rightarrow> \<lparr>dc_chain = [], dc_depth = 0, dc_events = False, dc_orchestrator = None\<rparr>)"

text \<open>
  The tasks are executed and synthesized (shared by the approved-plan path and the
  autonomous branch of a fresh plan). \<open>written\<close> are the events before.
\<close>

definition sse_execute_tasks ::
  "OrchestratorEnv \<Rightarrow> DelegationContext option \<Rightarrow> RequestBody \<Rightarrow> string \<Rightarrow> string \<Rightarrow>
   Task list \<Rightarrow> UsageInfo option \<Rightarrow> sse_event list \<Rightarrow> sse_event list \<times> thrown option" where
  "sse_execute_tasks env parentCtx body agentName' convId tasks first_usage written =
     (let results = executeTasksSettled (plugin env) (Some (delCtx parentCtx)) tasks;
          responseSkills = collectResponseSkills results;
          sources = taskResultsToSources results;
          synth = synthesizeStreaming env sources (body_message body) responseSkills agentName'
      in case snd synth of
           Inl err \<Rightarrow> (written @ fst synth, Some err)
         | Inr (fullText, synthUsageInfo) \<Rightarrow>
             (case saveAssistantResponse env body fullText of
                Some err \<Rightarrow> (written @ fst synth, Some err)
              | None \<Rightarrow>
                  (written @ fst synth @
                   [SseAgentEnd agentName',
                    Done \<lparr>done_toolsUsed = tools_of_results results,
                          done_conversationId = convId,
                          done_awaitingApproval = False,
                          done_awaitingResponse = False,
                          done_plan = None,
                          done_tasks = Some (task_summaries results),
                          done_usage =
                            (case first_usage of
                               None \<Rightarrow> approvedPlan_totalUsage results synthUsageInfo (clock env)
                             | Some pu \<Rightarrow>
                                 plan_totalUsage pu results synthUsageInfo (clock env))\<rparr>],
                   None)))"

text \<open>
  The reactive clarification check of the non-autonomous mode: the first
  \<^verbatim>\<open>routeToAgent\<close> result, in step order, whose output has clarification items; and the
  agent of the first \<^verbatim>\<open>routeToAgent\<close> call.
\<close>

definition clarifying_output :: "PlanResult \<Rightarrow> (ClarifyItem list \<times> RouteOutput) option" where
  "clarifying_output res =
     (case List.map_filter
             (\<lambda>tr. if res_toolName tr = TOOL_ROUTE_TO_AGENT
                    then (case res_output tr of
                            None \<Rightarrow> None
                          | Some ro \<Rightarrow>
                              (case items (out_result ro) of
                                 None \<Rightarrow> None
                               | Some its \<Rightarrow> if its \<noteq> [] then Some (its, ro) else None))
                    else None)
             (concat (map toolResults (steps res))) of
        [] \<Rightarrow> None
      | found # others \<Rightarrow> Some found)"

definition routed_agent :: "PlanResult \<Rightarrow> string option" where
  "routed_agent res =
     (case filter (\<lambda>tc. call_toolName tc = TOOL_ROUTE_TO_AGENT)
             (concat (map toolCalls (steps res))) of
        [] \<Rightarrow> None
      | tc # others \<Rightarrow> Option.bind (call_input tc) in_agent)"

text \<open>
  Direct mode: no task was declared. With \<^verbatim>\<open>routeToAgent\<close> results their responses are
  synthesized; otherwise the text of the planning call is the answer.
\<close>

definition sse_direct ::
  "OrchestratorEnv \<Rightarrow> RequestBody \<Rightarrow> string \<Rightarrow> string \<Rightarrow> PlanResult \<Rightarrow> sse_event list \<Rightarrow>
   sse_event list \<times> thrown option" where
  "sse_direct env body agentName' convId res written =
     (let planUsage = plan_usage res;
          routeOutputs = map res_output
            (filter (\<lambda>tr. res_toolName tr = TOOL_ROUTE_TO_AGENT)
               (concat (map toolResults (steps res))))
      in if routeOutputs \<noteq> []
         then
           (let responseSkills = new_Set (concat (map
                  (\<lambda>opt. case opt of None \<Rightarrow> [] | Some ro \<Rightarrow> out_responseSkills ro) routeOutputs));
                sources = map (\<lambda>(i, opt).
                    \<lparr>label = ''Result '' @ decimal (i + 1),
                     source_response =
                       (case opt of None \<Rightarrow> [] | Some ro \<Rightarrow> response (out_result ro))\<rparr>)
                  (enumerate 0 routeOutputs);
                synth = synthesizeStreaming env sources (body_message body) responseSkills
                          agentName'
            in case snd synth of
                 Inl err \<Rightarrow> (written @ fst synth, Some err)
               | Inr (fullText, synthUsageInfo) \<Rightarrow>
                   (case saveAssistantResponse env body fullText of
                      Some err \<Rightarrow> (written @ fst synth, Some err)
                    | None \<Rightarrow>
                        (let routeToolsUsed = concat (map
                               (\<lambda>opt. case opt of None \<Rightarrow> [] | Some ro \<Rightarrow> toolsUsed (out_result ro))
                               routeOutputs);
                             routeUsages = List.map_filter
                               (\<lambda>opt. case opt of None \<Rightarrow> None | Some ro \<Rightarrow> usage (out_result ro))
                               routeOutputs
                         in (written @ fst synth @
                             [SseAgentEnd agentName',
                              Done \<lparr>done_toolsUsed = new_Set (TOOL_ROUTE_TO_AGENT # routeToolsUsed),
                                    done_conversationId = convId,
                                    done_awaitingApproval = False,
                                    done_awaitingResponse = False,
                                    done_plan = None, done_tasks = None,
                                    done_usage =
                                      (mergeUsage (planUsage # routeUsages @ [synthUsageInfo]))
                                        \<lparr>durationMs := clock env\<rparr>\<rparr>],
                             None))))
         else
           (let final = [SseAgentEnd agentName',
                         Done \<lparr>done_toolsUsed = new_Set (map call_toolName
                                  (concat (map toolCalls (steps res)))),
                               done_conversationId = convId,
                               done_awaitingApproval = False,
                               done_awaitingResponse = False,
                               done_plan = None, done_tasks = None,
                               done_usage = planUsage\<lparr>durationMs := clock env\<rparr>\<rparr>]
            in if plan_text res \<noteq> []
               then (case saveAssistantResponse env body (plan_text res) of
                       Some err \<Rightarrow> (written @ [TextDelta (plan_text res)], Some err)
                     | None \<Rightarrow> (written @ [TextDelta (plan_text res)] @ final, None))
               else (written @ final, None)))"

text \<open>
  The \<^verbatim>\<open>try\<close> body of the main streaming path, after \<^verbatim>\<open>session:start\<close>: the planning
  call; in non-autonomous mode the clarification check; then the task plan (returned for
  approval in non-autonomous mode, executed otherwise) or direct mode.
\<close>

definition sse_try_body ::
  "OrchestratorEnv \<Rightarrow> DelegationContext option \<Rightarrow> RequestBody \<Rightarrow> string \<Rightarrow> string \<Rightarrow> bool \<Rightarrow>
   sse_event list \<times> thrown option" where
  "sse_try_body env parentCtx body agentName' convId autonomous =
     (let written = [SseAgentStart agentName',
                     SseStatus ''thinking'' ''Analyzing query and routing'' agentName']
      in case planning env of
           Inl err \<Rightarrow> (written, Some err)
         | Inr planResult \<Rightarrow>
             (let planUsage = plan_usage planResult
              in case (if \<not> autonomous then clarifying_output planResult else None) of
                   Some (its, ro) \<Rightarrow>
                     (written @
                      [AskUser its (routed_agent planResult),
                       SseAgentEnd agentName',
                       Done \<lparr>done_toolsUsed = [TOOL_ROUTE_TO_AGENT],
                             done_conversationId = convId,
                             done_awaitingApproval = False,
                             done_awaitingResponse = True,
                             done_plan = None, done_tasks = None,
                             done_usage =
                               (case usage (out_result ro) of
                                  Some subAgentUsage \<Rightarrow> mergeUsage [planUsage, subAgentUsage]
                                | None \<Rightarrow> planUsage)\<lparr>durationMs := clock env\<rparr>\<rparr>],
                      None)
                 | None \<Rightarrow>
                     (let tasks = collectTasksFromSteps (steps planResult)
                      in if tasks \<noteq> []
                         then
                           (let planned = written @
                                  [SseStatus ''planning'' ''Building task plan'' agentName',
                                   AgentPlan tasks]
                            in if \<not> autonomous
                               then (planned @
                                     [SseAgentEnd agentName',
                                      Done \<lparr>done_toolsUsed = [TOOL_CREATE_TASK],
                                            done_conversationId = convId,
                                            done_awaitingApproval = True,
                                            done_awaitingResponse = False,
                                            done_plan = Some tasks, done_tasks = None,
                                            done_usage = planUsage\<lparr>durationMs := clock env\<rparr>\<rparr>],
                                     None)
                               else sse_execute_tasks env parentCtx body agentName' convId tasks
                                      (Some planUsage)
                                      (planned @
                                       [SseStatus ''executing-tasks'' ''Executing parallel tasks''
                                          agentName']))
                         else sse_direct env body agentName' convId planResult written)))"

text \<open>
  \<^verbatim>\<open>buildSseHandler\<close>: what the handler writes to its stream, or the throw that ends it
  before the stream exists (the system prompt and the tools are built first). With an
  approved plan the tasks are executed at once; otherwise the planning path runs. The
  events are those written through the writer; whether they reach the client is the
  matter of the stream below.
\<close>

definition buildSseHandler ::
  "OrchestratorEnv \<Rightarrow> DelegationContext option \<Rightarrow> string \<Rightarrow> string list option \<Rightarrow> bool \<Rightarrow>
   RequestBody \<Rightarrow> thrown + sse_event list" where
  "buildSseHandler env parentCtx agentName' allowedAgents defaultAutonomous body =
     (let convId = generateConversationId env (body_conversationId body);
          autonomous = (case body_autonomous body of Some b \<Rightarrow> b | None \<Rightarrow> defaultAutonomous)
      in case system_prompt env of
           Inl err \<Rightarrow> Inl err
         | Inr sys \<Rightarrow>
             (case approved_tasks body of
                Some plan \<Rightarrow>
                  Inr (SessionStart convId #
                       with_catch env convId
                         (sse_execute_tasks env parentCtx body agentName' convId plan None
                            [SseAgentStart agentName',
                             SseStatus ''executing-tasks'' ''Executing approved plan tasks''
                               agentName']))
              | None \<Rightarrow>
                  if getRoutableAgents (plugin env) allowedAgents = []
                  then Inl no_routable_agents
                  else Inr (SessionStart convId #
                            with_catch env convId
                              (sse_try_body env parentCtx body agentName' convId autonomous))))"

subsection \<open>Notions for the statements\<close>

text \<open>
  A total sums a list of stage usages: each token count is the sum of the stages'
  counts, and the cost is the sum of their costs that are not null (null when all are).
\<close>

definition sums_stages :: "UsageInfo \<Rightarrow> UsageInfo list \<Rightarrow> bool" where
  "sums_stages merged stages =
     (inputTokens merged = sum_list (map inputTokens stages)
      \<and> outputTokens merged = sum_list (map outputTokens stages)
      \<and> totalTokens merged = sum_list (map totalTokens stages)
      \<and> cost merged = sum_costs stages)"

text \<open>\<^verbatim>\<open>reqAutonomous ?? defaultAutonomous\<close>.\<close>

definition autonomous_mode :: "bool \<Rightarrow> RequestBody \<Rightarrow> bool" where
  "autonomous_mode defaultAutonomous body =
     (case body_autonomous body of Some b \<Rightarrow> b | None \<Rightarrow> defaultAutonomous)"

text \<open>
  The \<^verbatim>\<open>routeToAgent\<close> results of a planning result, in step order, and the usages of
  those whose output reports one.
\<close>

definition routed_results :: "PlanResult \<Rightarrow> ToolResult list" where
  "routed_results res =
     filter (\<lambda>tr. res_toolName tr = TOOL_ROUTE_TO_AGENT) (concat (map toolResults (steps res)))"

definition routed_usages :: "PlanResult \<Rightarrow> UsageInfo list" where
  "routed_usages res =
     List.map_filter
       (\<lambda>tr. case res_output tr of None \<Rightarrow> None | Some ro \<Rightarrow> usage (out_result ro))
       (routed_results res)"


section \<open>The resilience wrapper (utils/resilience.ts)\<close>

subsection \<open>Strings: lower case, substring, the status pattern\<close>

text \<open>
  \<^verbatim>\<open>\d\<close> is a decimal digit and a word character (for \<^verbatim>\<open>\b\<close>, in a pattern without the
  \<^verbatim>\<open>u\<close> and \<^verbatim>\<open>i\<close> flags) an ASCII letter, a digit or the underscore; no byte of a
  character outside ASCII is one.
\<close>

definition is_digit :: "char \<Rightarrow> bool" where
  "is_digit ch = (ch \<in> set ''0123456789'')"

definition is_word_char :: "char \<Rightarrow> bool" where
  "is_word_char ch =
     (ch \<in> set ''abcdefghijklmnopqrstuvwxyzABCDEFGHIJKLMNOPQRSTUVWXYZ0123456789_'')"

text \<open>
  \<^verbatim>\<open>toLowerCase\<close>, as far as the tests of \<^verbatim>\<open>isRetryableError\<close> can tell. The letters A
  to Z become a to z. Two characters outside ASCII have a lower case with an ASCII
  letter in it: the Kelvin sign U+212A (bytes E2 84 AA) becomes \<^verbatim>\<open>k\<close>, and the dotted
  capital I U+0130 (bytes C4 B0) becomes \<^verbatim>\<open>i\<close> followed by the combining dot U+0307
  (bytes CC 87). Every other character outside ASCII has a lower case outside ASCII; its
  bytes are kept as they are, which no test below can tell from its lower case: the
  tests look for ASCII markers and for ASCII digits between non-word characters.
\<close>

definition lower_char :: "char \<Rightarrow> char" where
  "lower_char ch =
     (case map_of (zip ''ABCDEFGHIJKLMNOPQRSTUVWXYZ'' ''abcdefghijklmnopqrstuvwxyz'') ch of
        Some l \<Rightarrow> l
      | None \<Rightarrow> ch)"

fun toLowerCase :: "string \<Rightarrow> string" where
  "toLowerCase (c1 # c2 # c3 # rest) =
     (if [c1, c2, c3] = [CHR 0xE2, CHR 0x84, CHR 0xAA] then CHR ''k'' # toLowerCase rest
      else if [c1, c2] = [CHR 0xC4, CHR 0xB0]
      then CHR ''i'' # CHR 0xCC # CHR 0x87 # toLowerCase (c3 # rest)
      else lower_char c1 # toLowerCase (c2 # c3 # rest))"
| "toLowerCase [c1, c2] =
     (if [c1, c2] = [CHR 0xC4, CHR 0xB0] then [CHR ''i'', CHR 0xCC, CHR 0x87]
      else [lower_char c1, lower_char c2])"
| "toLowerCase [c1] = [lower_char c1]"
| "toLowerCase [] = []"

definition digit_value :: "char \<Rightarrow> int" where
  "digit_value ch =
     (case map_of (zip ''0123456789'' [0, 1, 2, 3, 4, 5, 6, 7, 8, 9]) ch of
        Some d \<Rightarrow> d
      | None \<Rightarrow> 0)"

text \<open>\<^verbatim>\<open>str.includes(part)\<close>.\<close>

fun str_includes :: "string \<Rightarrow> string \<Rightarrow> bool" where
  "str_includes [] part = (part = [])"
| "str_includes (ch # rest) part = (take (length part) (ch # rest) = part \<or> str_includes rest part)"

text \<open>
  \<^verbatim>\<open>message.match(/\b(\d{3})\b/)\<close>, then \<^verbatim>\<open>Number(statusMatch[1])\<close>: the leftmost run of
  exactly three digits that has no word character before it and none after it, as a
  number. \<open>prev\<close> tells whether the character before the position is a word character.
\<close>

fun status_scan :: "bool \<Rightarrow> string \<Rightarrow> int option" where
  "status_scan prev (d1 # d2 # d3 # rest) =
     (if \<not> prev \<and> is_digit d1 \<and> is_digit d2 \<and> is_digit d3
         \<and> (case rest of [] \<Rightarrow> True | ch # after \<Rightarrow> \<not> is_word_char ch)
      then Some (100 * digit_value d1 + 10 * digit_value d2 + digit_value d3)
      else status_scan (is_word_char d1) (d2 # d3 # rest))"
| "status_scan prev short = None"

definition statusMatch :: "string \<Rightarrow> int option" where
  "statusMatch message = status_scan False message"

subsection \<open>isRetryableError\<close>

definition RETRYABLE_STATUS_CODES :: "int set" where
  "RETRYABLE_STATUS_CODES = {429, 500, 502, 503, 504}"

definition NON_RETRYABLE_STATUS_CODES :: "int set" where
  "NON_RETRYABLE_STATUS_CODES = {400, 401, 403, 404, 422}"

text \<open>
  What the two sets decide for a status: retry, do not retry, or nothing (the function
  goes on to its next test).
\<close>

definition status_verdict :: "int \<Rightarrow> bool option" where
  "status_verdict st =
     (if st \<in> RETRYABLE_STATUS_CODES then Some True
      else if st \<in> NON_RETRYABLE_STATUS_CODES then Some False
      else None)"

text \<open>\<^verbatim>\<open>errRecord.status ?? errRecord.statusCode\<close>, when \<^verbatim>\<open>typeof\<close> it is \<^verbatim>\<open>"number"\<close>.\<close>

definition statusProp :: "js_error \<Rightarrow> int option" where
  "statusProp error =
     (case (case err_status error of Absent \<Rightarrow> err_statusCode error | given \<Rightarrow> given) of
        Num n \<Rightarrow> Some n
      | other \<Rightarrow> None)"

text \<open>The textual markers of the last three tests, on the lower-cased message.\<close>

definition transient_markers :: "string list" where
  "transient_markers =
     [''timeout'', ''timed out'', ''econnreset'', ''econnrefused'', ''network'',
      ''fetch failed'', ''socket hang up'',
      ''overloaded'', ''capacity'',
      ''rate limit'', ''too many requests'']"

definition has_marker :: "string \<Rightarrow> bool" where
  "has_marker message = list_ex (str_includes message) transient_markers"

fun isRetryableError :: "thrown \<Rightarrow> bool" where
  "isRetryableError (NonError v m) = False"
| "isRetryableError (ErrorObj error) =
     (if err_name error = ''AbortError'' then False
      else
        (let message = toLowerCase (err_message error)
         in case Option.bind (statusMatch message) status_verdict of
              Some verdict \<Rightarrow> verdict
            | None \<Rightarrow>
                (case Option.bind (statusProp error) status_verdict of
                   Some verdict \<Rightarrow> verdict
                 | None \<Rightarrow> has_marker message)))"

subsection \<open>withResilience\<close>

text \<open>
  What a run of \<^verbatim>\<open>withResilience\<close> meets:
  \<^item> \<open>call k\<close>: the outcome of the call \<^verbatim>\<open>fn()\<close> of attempt \<open>k\<close>;
  \<^item> \<open>aborted_after k\<close>: \<^verbatim>\<open>abortSignal?.aborted\<close> when that call has failed;
  \<^item> \<open>sleep_aborted k\<close>: the signal aborts before or during the sleep after attempt \<open>k\<close>
    (the sleep rejects with an \<^verbatim>\<open>AbortError\<close>);
  \<^item> \<open>onFallback\<close>: the configured hook, if any: a model id, \<^verbatim>\<open>null\<close>, or a throw;
  \<^item> \<open>fallback_call m\<close>: the outcome of \<^verbatim>\<open>fn(m)\<close>.
  The delay of the sleep (its jitter is random) has no part in the result.
\<close>

record 'a resilience_run =
  call :: "nat \<Rightarrow> thrown + 'a"
  aborted_after :: "nat \<Rightarrow> bool"
  sleep_aborted :: "nat \<Rightarrow> bool"
  onFallback :: "(js_error \<Rightarrow> thrown + string option) option"
  fallback_call :: "string \<Rightarrow> thrown + 'a"

text \<open>\<^verbatim>\<open>error instanceof Error ? error : new Error(String(error))\<close>.\<close>

fun as_Error :: "thrown \<Rightarrow> js_error" where
  "as_Error (ErrorObj e) = e"
| "as_Error (NonError v m) = new_Error v"

definition abort_error :: js_error where
  "abort_error =
     \<lparr>err_name = ''AbortError'', err_message = ''Aborted'', err_status = Absent,
      err_statusCode = Absent\<rparr>"

text \<open>
  The loop \<^verbatim>\<open>for (let attempt = 0; attempt <= maxRetries; attempt++)\<close>, from attempt
  \<open>attempt\<close> with \<open>left = maxRetries - attempt\<close> attempts after it. It ends with the
  number of calls of \<^verbatim>\<open>fn()\<close> made so far and either the result of the function
  (\<open>Inr\<close>: returned or thrown) or the last error when the retries are exhausted (\<open>Inl\<close>).
\<close>

fun attempts ::
  "'a resilience_run \<Rightarrow> nat \<Rightarrow> nat \<Rightarrow> nat \<times> (js_error + (thrown + 'a))" where
  "attempts w attempt left =
     (case call w attempt of
        Inr v \<Rightarrow> (attempt + 1, Inr (Inr v))
      | Inl error \<Rightarrow>
          (let lastError = as_Error error
           in if err_name lastError = ''AbortError'' \<or> aborted_after w attempt
              then (attempt + 1, Inr (Inl (ErrorObj lastError)))
              else if \<not> isRetryableError (ErrorObj lastError)
              then (attempt + 1, Inr (Inl (ErrorObj lastError)))
              else (case left of
                      0 \<Rightarrow> (attempt + 1, Inl lastError)
                    | Suc fewer \<Rightarrow>
                        if sleep_aborted w attempt
                        then (attempt + 1, Inr (Inl (ErrorObj abort_error)))
                        else attempts w (attempt + 1) fewer)))"

text \<open>
  \<^verbatim>\<open>withResilience\<close> with \<^verbatim>\<open>maxRetries\<close> retries: the number of calls of \<^verbatim>\<open>fn\<close> made,
  and what the function returns or throws. After the loop the fallback hook may name a
  model for one more call, \<^verbatim>\<open>fn(fallbackModel)\<close>; otherwise the last error is thrown.
\<close>

definition withResilience :: "'a resilience_run \<Rightarrow> nat \<Rightarrow> nat \<times> (thrown + 'a)" where
  "withResilience w maxRetries =
     (case attempts w 0 maxRetries of
        (calls, Inr finished) \<Rightarrow> (calls, finished)
      | (calls, Inl lastError) \<Rightarrow>
          (case onFallback w of
             None \<Rightarrow> (calls, Inl (ErrorObj lastError))
           | Some hook \<Rightarrow>
               (case hook lastError of
                  Inl err \<Rightarrow> (calls, Inl err)
                | Inr None \<Rightarrow> (calls, Inl (ErrorObj lastError))
                | Inr (Some fallbackModel) \<Rightarrow>
                    if fallbackModel \<noteq> [] then (calls + 1, fallback_call w fallbackModel)
                    else (calls, Inl (ErrorObj lastError)))))"

subsection \<open>Notions for the statements\<close>

text \<open>
  The message decides nothing: it has no three-digit number standing alone, or its first
  one is in neither set. Likewise for the status property.
\<close>

definition message_undecided :: "js_error \<Rightarrow> bool" where
  "message_undecided e =
     (Option.bind (statusMatch (toLowerCase (err_message e))) status_verdict = None)"

definition property_undecided :: "js_error \<Rightarrow> bool" where
  "property_undecided e = (Option.bind (statusProp e) status_verdict = None)"

text \<open>
  Attempt \<open>k\<close> of a run fails with an error that is classified retryable, while the
  signal is not aborted, neither then nor during the sleep that follows.
\<close>

definition retryable_failure :: "'a resilience_run \<Rightarrow> nat \<Rightarrow> bool" where
  "retryable_failure w k =
     (case call w k of
        Inr v \<Rightarrow> False
      | Inl err \<Rightarrow> isRetryableError (ErrorObj (as_Error err))
                  \<and> \<not> aborted_after w k \<and> \<not> sleep_aborted w k)"

definition failure_of :: "'a resilience_run \<Rightarrow> nat \<Rightarrow> thrown" where
  "failure_of w k = (case call w k of Inl err \<Rightarrow> ErrorObj (as_Error err) | Inr v \<Rightarrow> NonError [] None)"

section \<open>The event stream of a connection (streaming/sse-writer.ts)\<close>

text \<open>
  \<^verbatim>\<open>createSSEStream(handler, signal)\<close> makes a \<^verbatim>\<open>ReadableStream\<close> and a writer on its
  controller. What the client reads are the chunks enqueued, in order, until the stream
  is closed. \<^verbatim>\<open>controller.enqueue\<close> on a closed stream throws, and \<^verbatim>\<open>writeSSE\<close> catches
  that (\<^verbatim>\<open>// Stream may be closed\<close>): a write after the close is dropped. The writer is
  closed when the handler has ended (\<^verbatim>\<open>.finally(() => writer.close())\<close>) and, by the
  listener \<^verbatim>\<open>signal.addEventListener("abort", () => writer.close(), { once: true })\<close>,
  as soon as the signal aborts. The signal is the one of the controller
  \<^verbatim>\<open>registerRequest\<close> returned; \<^verbatim>\<open>cancelRequest\<close> aborts it, on the cancel route and
  when the client disconnects.
\<close>

record connection =
  is_closed :: bool
  delivered :: "sse_event list"
  aborted :: bool

definition connection_init :: connection where
  "connection_init = \<lparr>is_closed = False, delivered = [], aborted = False\<rparr>"

definition writeSSE :: "sse_event \<Rightarrow> connection \<Rightarrow> connection" where
  "writeSSE ev c = (if is_closed c then c else c\<lparr>delivered := delivered c @ [ev]\<rparr>)"

definition close_writer :: "connection \<Rightarrow> connection" where
  "close_writer c = c\<lparr>is_closed := True\<rparr>"

text \<open>
  The signal aborts: the flag is set and the listener closes the writer. An abort event
  fires once; a signal that has aborted before the listener was added (between
  \<^verbatim>\<open>registerRequest\<close> and \<^verbatim>\<open>createSSEStream\<close> the handler awaits the system prompt and
  the conversation) never calls it.
\<close>

definition abort_signal :: "connection \<Rightarrow> connection" where
  "abort_signal c = (if aborted c then c else close_writer (c\<lparr>aborted := True\<rparr>))"

text \<open>
  A run of a streaming handler, seen from its connection. \<open>early\<close> tells whether the
  signal has aborted before the stream was created. The \<^verbatim>\<open>try\<close> body writes events (its
  own and those bridged from the bus) and, at some of its suspension points, the signal
  may abort; the body ends by returning or by a throw. Then the \<^verbatim>\<open>catch\<close> block writes
  \<^verbatim>\<open>cancelled\<close> or \<^verbatim>\<open>error\<close>, and last the writer is closed.
\<close>

datatype handler_step = Write sse_event | Abort

fun do_step :: "connection \<Rightarrow> handler_step \<Rightarrow> connection" where
  "do_step c (Write ev) = writeSSE ev c"
| "do_step c Abort = abort_signal c"

definition run_stream ::
  "string \<Rightarrow> bool \<Rightarrow> handler_step list \<Rightarrow> thrown option \<Rightarrow> connection" where
  "run_stream convId early body_steps ending =
     (let c1 = writeSSE (SessionStart convId) (connection_init\<lparr>aborted := early\<rparr>);
          c2 = foldl do_step c1 body_steps;
          c3 = (case ending of
                  None \<Rightarrow> c2
                | Some err \<Rightarrow>
                    foldl (\<lambda>c ev. writeSSE ev c) c2 (catch_block (aborted c2) convId err))
      in close_writer c3)"

text \<open>The events the handler itself wrote in such a run, delivered or not.\<close>

definition written_events ::
  "string \<Rightarrow> bool \<Rightarrow> handler_step list \<Rightarrow> thrown option \<Rightarrow> sse_event list" where
  "written_events convId early body_steps ending =
     SessionStart convId #
     concat (map (\<lambda>st. case st of Write ev \<Rightarrow> [ev] | Abort \<Rightarrow> []) body_steps) @
     (case ending of
        None \<Rightarrow> []
      | Some err \<Rightarrow> catch_block (early \<or> Abort \<in> set body_steps) convId err)"

definition is_cancelled :: "sse_event \<Rightarrow> bool" where
  "is_cancelled ev = (case ev of Cancelled cv \<Rightarrow> True | other \<Rightarrow> False)"

definition is_error_event :: "sse_event \<Rightarrow> bool" where
  "is_error_event ev = (case ev of SseError cv m \<Rightarrow> True | other \<Rightarrow> False)"

section \<open>Example registry and contexts\<close>

text \<open>
  Three registered agents: a specialist with one tool, an orchestrator, and an agent
  without tools; one more specialist whose guard throws, and one whose guard refuses.
\<close>

definition weather_agent :: AgentRegistration where
  "weather_agent =
     \<lparr>name = ''weather'', defaultSystem = ''You are a weather specialist.'',
      tools = Some [''getWeather''], isOrchestrator = False, disableMemoryTool = False,
      guard = None\<rparr>"

definition boss_agent :: AgentRegistration where
  "boss_agent =
     \<lparr>name = ''boss'', defaultSystem = ''You route queries.'',
      tools = Some [''routeToAgent'', ''createTask''], isOrchestrator = True,
      disableMemoryTool = False, guard = None\<rparr>"

definition idle_agent :: AgentRegistration where
  "idle_agent =
     \<lparr>name = ''idle'', defaultSystem = ''You chat.'', tools = None, isOrchestrator = False,
      disableMemoryTool = False, guard = None\<rparr>"

definition fragile_agent :: AgentRegistration where
  "fragile_agent =
     \<lparr>name = ''fragile'', defaultSystem = ''You advise.'', tools = Some [''lookup''],
      isOrchestrator = False, disableMemoryTool = False,
      guard = Some (\<lambda>q a. Inl (ErrorObj (new_Error ''classifier unavailable'')))\<rparr>"

definition strict_agent :: AgentRegistration where
  "strict_agent =
     \<lparr>name = ''strict'', defaultSystem = ''You advise on finance.'', tools = Some [''lookup''],
      isOrchestrator = False, disableMemoryTool = True,
      guard = Some (\<lambda>q a. Inr \<lparr>allowed = False, reason = Some ''off topic''\<rparr>)\<rparr>"

definition example_registry :: AgentRegistry where
  "example_registry =
     \<lparr>agents = [(''weather'', weather_agent), (''boss'', boss_agent), (''idle'', idle_agent),
                (''fragile'', fragile_agent), (''strict'', strict_agent)],
      promptOverrides = []\<rparr>"

text \<open>
  A context with the default depth limit 3, an empty skill store, and an agent call that
  answers \<open>sunny\<close>; the same with an agent call that throws.
\<close>

definition sunny :: AgentResult where
  "sunny =
     \<lparr>response = ''sunny'', items = None, toolsUsed = [''getWeather''],
      usage = Some \<lparr>inputTokens = 10, outputTokens = 5, totalTokens = 15, cost = None,
                     durationMs = 20\<rparr>\<rparr>"

definition example_ctx :: PluginContext where
  "example_ctx =
     \<lparr>registry_of = example_registry, maxDelegationDepth = 3,
      getSkill = (\<lambda>n. Inr None),
      runAgent = (\<lambda>c cfg q. Inr sunny)\<rparr>"

definition failing_ctx :: PluginContext where
  "failing_ctx =
     \<lparr>registry_of = example_registry, maxDelegationDepth = 3,
      getSkill = (\<lambda>n. Inr None),
      runAgent = (\<lambda>c cfg q. Inl (ErrorObj (new_Error ''upstream exploded'')))\<rparr>"


definition context_of :: "string list \<Rightarrow> DelegationContext" where
  "context_of names =
     \<lparr>dc_chain = names, dc_depth = int (length names), dc_events = True,
      dc_orchestrator = Some ''boss''\<rparr>"

subsection \<open>Example requests\<close>

text \<open>
  Three stages with their usages: planning (10 ms), one task (the agent call above,
  20 ms), synthesis (30 ms); the request as a whole took 75 ms.
\<close>

definition planning_usage :: UsageInfo where
  "planning_usage =
     \<lparr>inputTokens = 100, outputTokens = 20, totalTokens = 120, cost = Some (Finite (1 / 2)),
      durationMs = 10\<rparr>"

definition synthesis_usage :: UsageInfo where
  "synthesis_usage =
     \<lparr>inputTokens = 40, outputTokens = 30, totalTokens = 70, cost = Some (Finite (1 / 4)),
      durationMs = 30\<rparr>"

definition weather_task :: Task where
  "weather_task = \<lparr>task_agent = ''weather'', task_query = ''rain?'', task_skills = None\<rparr>"

text \<open>A planning result that declares one task with \<^verbatim>\<open>createTask\<close>.\<close>

definition one_task_plan :: PlanResult where
  "one_task_plan =
     \<lparr>plan_text = [],
      steps = [\<lparr>toolCalls =
                  [\<lparr>call_toolName = ''createTask'',
                    call_input = Some \<lparr>in_agent = Some ''weather'', in_query = Some ''rain?'',
                                       in_skills = None\<rparr>\<rparr>],
                toolResults = []\<rparr>],
      plan_usage = planning_usage\<rparr>"

definition example_env :: OrchestratorEnv where
  "example_env =
     \<lparr>plugin = example_ctx,
      system_prompt = Inr ''You route queries.'',
      planning = Inr one_task_plan,
      synthesis_json = (\<lambda>sys p. Inr (''It is sunny.'', synthesis_usage)),
      synthesis_stream = (\<lambda>sys p. ([''It is '', ''sunny.''], Inr synthesis_usage)),
      save_response = (\<lambda>stext. None),
      clock = 75,
      signal_aborted = False,
      fresh_id = ''conv_1''\<rparr>"

text \<open>A request in non-autonomous mode, without an approved plan.\<close>

definition ask_first :: RequestBody where
  "ask_first =
     \<lparr>body_message = ''Will it rain?'', body_conversationId = None, body_planMode = False,
      body_approvedPlan = None, body_autonomous = Some False\<rparr>"

text \<open>
  A request with an approved plan of one task, and a request in autonomous mode.
\<close>

definition approved_request :: RequestBody where
  "approved_request =
     \<lparr>body_message = ''Will it rain?'', body_conversationId = None, body_planMode = False,
      body_approvedPlan = Some [weather_task], body_autonomous = None\<rparr>"

definition go_ahead :: RequestBody where
  "go_ahead =
     \<lparr>body_message = ''Will it rain?'', body_conversationId = None, body_planMode = False,
      body_approvedPlan = None, body_autonomous = Some True\<rparr>"

text \<open>
  A planning result that routed the query to the weather agent with \<^verbatim>\<open>routeToAgent\<close>,
  whose output is the result \<open>sunny\<close>; and one whose routed agent asks a question.
\<close>

definition routed_plan :: PlanResult where
  "routed_plan =
     \<lparr>plan_text = ''It is sunny.'',
      steps = [\<lparr>toolCalls =
                  [\<lparr>call_toolName = ''routeToAgent'',
                    call_input = Some \<lparr>in_agent = Some ''weather'', in_query = Some ''rain?'',
                                       in_skills = None\<rparr>\<rparr>],
                toolResults =
                  [\<lparr>res_toolName = ''routeToAgent'',
                    res_output = Some \<lparr>out_result = sunny, out_responseSkills = []\<rparr>\<rparr>]\<rparr>],
      plan_usage = planning_usage\<rparr>"

definition where_question :: ClarifyItem where
  "where_question =
     \<lparr>item_type = ''question'', item_text = ''Which city?'', item_choices = None,
      item_context = None\<rparr>"

definition asking :: AgentResult where
  "asking =
     \<lparr>response = ''I need the city.'', items = Some [where_question], toolsUsed = [],
      usage = Some \<lparr>inputTokens = 10, outputTokens = 5, totalTokens = 15, cost = None,
                     durationMs = 20\<rparr>\<rparr>"

definition clarifying_plan :: PlanResult where
  "clarifying_plan =
     \<lparr>plan_text = [],
      steps = [\<lparr>toolCalls =
                  [\<lparr>call_toolName = ''routeToAgent'',
                    call_input = Some \<lparr>in_agent = Some ''weather'', in_query = Some ''rain?'',
                                       in_skills = None\<rparr>\<rparr>],
                toolResults =
                  [\<lparr>res_toolName = ''routeToAgent'',
                    res_output = Some \<lparr>out_result = asking, out_responseSkills = []\<rparr>\<rparr>]\<rparr>],
      plan_usage = planning_usage\<rparr>"

text \<open>The example environment with these planning results.\<close>

definition routed_env :: OrchestratorEnv where
  "routed_env = example_env\<lparr>planning := Inr routed_plan\<rparr>"

definition clarifying_env :: OrchestratorEnv where
  "clarifying_env = example_env\<lparr>planning := Inr clarifying_plan\<rparr>"

subsection \<open>Example errors and runs of the resilience wrapper\<close>

definition error_with :: "string \<Rightarrow> js_prop \<Rightarrow> js_prop \<Rightarrow> js_error" where
  "error_with m st sc =
     \<lparr>err_name = ''Error'', err_message = m, err_status = st, err_statusCode = sc\<rparr>"

text \<open>
  A run whose calls all fail with the same thrown value, and a run whose first two calls
  fail with it and whose later calls return \<open>ok\<close>; the signal is never aborted and there
  is no fallback hook.
\<close>

definition always_failing :: "thrown \<Rightarrow> string resilience_run" where
  "always_failing err =
     \<lparr>call = (\<lambda>k. Inl err), aborted_after = (\<lambda>k. False), sleep_aborted = (\<lambda>k. False),
      onFallback = None, fallback_call = (\<lambda>m. Inl err)\<rparr>"

definition failing_twice :: "thrown \<Rightarrow> string resilience_run" where
  "failing_twice err =
     \<lparr>call = (\<lambda>k. if k < 2 then Inl err else Inr ''ok''), aborted_after = (\<lambda>k. False),
      sleep_aborted = (\<lambda>k. False), onFallback = None, fallback_call = (\<lambda>m. Inl err)\<rparr>"

chapter \<open>Properties\<close>

section \<open>Strings\<close>

text \<open>On ASCII text a UTF-16 code unit is a byte: \<^verbatim>\<open>slice(0, n)\<close> is \<open>take n\<close>.\<close>

lemma utf8_chars_ascii:
  "list_all (\<lambda>c. \<not> digit7 c) s \<Longrightarrow>
   foldr (\<lambda>c (pending, groups).
            if is_continuation c then (c # pending, groups)
            else ([], (c # pending) # groups)) s ([], []) = ([], map (\<lambda>c. [c]) s)"
  by (induction s) (simp_all add: is_continuation_def)

lemma take_units_ascii:
  "list_all (\<lambda>c. \<not> digit7 c) s \<Longrightarrow> take_units n (map (\<lambda>c. [c]) s) = take n s"
proof (induction s arbitrary: n)
  case Nil
  then show ?case by simp
next
  case (Cons c s)
  then show ?case by (cases n) (simp_all add: code_units_def)
qed

lemma js_slice_ascii:
  "list_all (\<lambda>c. \<not> digit7 c) s \<Longrightarrow> js_slice n s = take n s"
  by (simp add: js_slice_def utf8_chars_def utf8_chars_ascii take_units_ascii)

text \<open>
  A character outside the basic plane is two code units: \<^verbatim>\<open>slice(0, 1)\<close> of U+1F600
  leaves its high surrogate U+D83D, and \<^verbatim>\<open>slice(0, 2)\<close> the character.
\<close>

lemma js_slice_surrogate_pair:
  "js_slice 1 [CHR 0xF0, CHR 0x9F, CHR 0x98, CHR 0x80] = [CHR 0xED, CHR 0xA0, CHR 0xBD]"
  "js_slice 2 [CHR 0xF0, CHR 0x9F, CHR 0x98, CHR 0x80, CHR ''a''] =
     [CHR 0xF0, CHR 0x9F, CHR 0x98, CHR 0x80]"
  by (simp_all add: js_slice_def utf8_chars_def is_continuation_def code_units_def
      high_surrogate_def byte_of_def Let_def)

section \<open>Numbers\<close>

declare bit_length.simps [simp del]

subsection \<open>The exponent of a positive rational\<close>

lemma bit_length_bounds:
  "0 < n \<Longrightarrow> 2 ^ (bit_length n - 1) \<le> n \<and> n < 2 ^ bit_length n"
proof (induction n rule: bit_length.induct)
  case (1 n)
  show ?case
  proof (cases "n div 2 = 0")
    case True
    with 1(2) have "n = 1" by (auto simp: div_eq_0_iff) 
    then show ?thesis by (simp add: bit_length.simps)
  next
    case False
    then have pos: "0 < n div 2" by simp
    from 1(1) [OF _ pos] 1(2)
    have ih: "2 ^ (bit_length (n div 2) - 1) \<le> n div 2" "n div 2 < 2 ^ bit_length (n div 2)"
      by simp_all
    have bl: "bit_length n = Suc (bit_length (n div 2))"
      using 1(2) by (subst bit_length.simps) simp
    have bp: "0 < bit_length (n div 2)"
      using pos by (subst bit_length.simps) simp
    have "2 * 2 ^ (bit_length (n div 2) - 1) \<le> n" using ih(1) by linarith
    moreover have "2 * 2 ^ (bit_length (n div 2) - 1) = (2::nat) ^ bit_length (n div 2)"
      using bp by (cases "bit_length (n div 2)") simp_all
    moreover have "n < 2 * 2 ^ bit_length (n div 2)" using ih(2) by linarith
    ultimately show ?thesis by (simp add: bl)
  qed
qed

lemma bit_length_pos: "0 < n \<Longrightarrow> 0 < bit_length n"
  by (subst bit_length.simps) simp

lemma floor_log2_bounds:
  assumes "0 < x"
  shows "2 powi floor_log2 x \<le> x" and "x < 2 powi (floor_log2 x + 1)"
proof -
  obtain p q where pq: "quotient_of x = (p, q)" by (cases "quotient_of x")
  then have q: "0 < q" and x: "x = of_int p / of_int q"
    using quotient_of_denom_pos quotient_of_div by blast+
  with assms have p: "0 < p" by (simp add: zero_less_divide_iff)
  define a where "a = bit_length (nat p)"
  define b where "b = bit_length (nat q)"
  define k where "k = int a - int b"
  have a: "2 ^ (a - 1) \<le> nat p" "nat p < 2 ^ a" "0 < a"
    using bit_length_bounds [of "nat p"] bit_length_pos [of "nat p"] p by (simp_all add: a_def)
  have b: "2 ^ (b - 1) \<le> nat q" "nat q < 2 ^ b" "0 < b"
    using bit_length_bounds [of "nat q"] bit_length_pos [of "nat q"] q by (simp_all add: b_def)
  have pr: "(2::rat) ^ (a - 1) \<le> of_int p" "(of_int p :: rat) < 2 ^ a"
  proof -
    have "(of_nat (2 ^ (a - 1)) :: rat) \<le> of_nat (nat p)" using a(1) by (simp only: of_nat_le_iff)
    then show "(2::rat) ^ (a - 1) \<le> of_int p" using p by simp
    have "(of_nat (nat p) :: rat) < of_nat (2 ^ a)" using a(2) by (simp only: of_nat_less_iff)
    then show "(of_int p :: rat) < 2 ^ a" using p by simp
  qed
  have qr: "(2::rat) ^ (b - 1) \<le> of_int q" "(of_int q :: rat) < 2 ^ b"
  proof -
    have "(of_nat (2 ^ (b - 1)) :: rat) \<le> of_nat (nat q)" using b(1) by (simp only: of_nat_le_iff)
    then show "(2::rat) ^ (b - 1) \<le> of_int q" using q by simp
    have "(of_nat (nat q) :: rat) < of_nat (2 ^ b)" using b(2) by (simp only: of_nat_less_iff)
    then show "(of_int q :: rat) < 2 ^ b" using q by simp
  qed
  have qpos: "(0::rat) < of_int q" using q by simp
  have up: "x < 2 powi (k + 1)"
  proof -
    have "x * of_int q = of_int p" using qpos by (simp add: x)
    have "2 powi (k + 1) * (2::rat) ^ (b - 1) = 2 ^ a"
    proof -
      have "k + 1 + int (b - 1) = int a" using b(3) by (simp add: k_def)
      then have "(2::rat) powi (k + 1 + int (b - 1)) = 2 powi int a" by simp
      then show ?thesis by (simp add: power_int_add)
    qed
    then have "of_int p < 2 powi (k + 1) * (2::rat) ^ (b - 1)" using pr(2) by simp
    also have "\<dots> \<le> 2 powi (k + 1) * of_int q"
      using qr(1) by (simp add: mult_left_mono)
    finally show ?thesis using qpos by (simp add: x pos_divide_less_eq)
  qed
  have low: "2 powi (k - 1) < x"
  proof -
    have "2 powi (k - 1) * (2::rat) ^ b = 2 ^ (a - 1)"
    proof -
      have "k - 1 + int b = int (a - 1)" using a(3) by (simp add: k_def)
      then have "(2::rat) powi (k - 1 + int b) = 2 powi int (a - 1)" by simp
      then show ?thesis by (simp add: power_int_add)
    qed
    moreover have "2 powi (k - 1) * of_int q < 2 powi (k - 1) * (2::rat) ^ b"
      using qr(2) by (simp add: mult_strict_left_mono)
    ultimately have "2 powi (k - 1) * of_int q < (of_int p :: rat)" using pr(1) by linarith
    then show ?thesis using qpos by (simp add: x pos_less_divide_eq)
  qed
  have fl: "floor_log2 x = (if 2 powi k \<le> x then k else k - 1)"
    by (simp add: floor_log2_def pq Let_def k_def a_def b_def)
  show "2 powi floor_log2 x \<le> x"
    using low by (simp add: fl)
  show "x < 2 powi (floor_log2 x + 1)"
    using up by (auto simp: fl)
qed

lemma floor_log2_unique:
  assumes "2 powi e \<le> x" "x < 2 powi (e + 1)"
  shows "floor_log2 x = e"
proof -
  have pos: "0 < x"
    using assms(1) zero_less_power_int [of "2::rat" e] by linarith
  note b = floor_log2_bounds [OF pos]
  have "\<not> floor_log2 x < e"
  proof
    assume "floor_log2 x < e"
    then have "(2::rat) powi (floor_log2 x + 1) \<le> 2 powi e"
      by (intro power_int_increasing) simp_all
    with b(2) assms(1) show False by linarith
  qed
  moreover have "\<not> e < floor_log2 x"
  proof
    assume "e < floor_log2 x"
    then have "(2::rat) powi (e + 1) \<le> 2 powi floor_log2 x"
      by (intro power_int_increasing) simp_all
    with b(1) assms(2) show False by linarith
  qed
  ultimately show ?thesis by linarith
qed

lemma round_half_even_of_int: "round_half_even (of_int m) = m"
  by (simp add: round_half_even_def)


lemma round_half_even_bound:
  assumes "\<bar>z\<bar> \<le> of_int N"
  shows "\<bar>round_half_even z\<bar> \<le> N"
proof -
  have lo: "- N \<le> \<lfloor>z\<rfloor>"
  proof -
    have "of_int (- N) \<le> z" using assms by simp
    then show ?thesis by (simp only: le_floor_iff)
  qed
  have hi: "\<lfloor>z\<rfloor> \<le> N"
  proof -
    have "z \<le> of_int N" using assms by simp
    then show ?thesis by (simp add: floor_le_iff) 
  qed
  have hi': "\<lfloor>z\<rfloor> + 1 \<le> N" if "1 / 2 \<le> z - of_int \<lfloor>z\<rfloor>"
  proof -
    have "of_int \<lfloor>z\<rfloor> < (of_int N :: rat)" using that assms by linarith
    then have "\<lfloor>z\<rfloor> < N" by (simp only: of_int_less_iff)
    then show ?thesis by simp
  qed
  show ?thesis
    using lo hi hi' by (auto simp: round_half_even_def Let_def not_less)
qed

lemma to_double_eval:
  assumes "2 powi e \<le> \<bar>x\<bar>" "\<bar>x\<bar> < 2 powi (e + 1)"
  shows "to_double x =
     (let u = max (e - 52) (- 1074);
          y = of_int (round_half_even (x / 2 powi u)) * 2 powi u
      in if 2 ^ 1024 \<le> \<bar>y\<bar>
         then (if x < 0 then NegInfinity else PosInfinity)
         else Finite y)"
proof -
  have "(0::rat) < 2 powi e" by (simp add: zero_less_power_int)
  then have "0 < \<bar>x\<bar>" using assms(1) by (rule less_le_trans)
  then have "x \<noteq> 0" by simp
  then show ?thesis
    by (simp add: to_double_def floor_log2_unique [OF assms])
qed

lemma dyadic_is_double_strict:
  assumes m: "\<bar>m\<bar> < 2 ^ 53" and u: "- 1074 \<le> u"
    and y: "\<bar>of_int m * 2 powi u\<bar> < (2::rat) ^ 1024"
  shows "to_double (of_int m * 2 powi u) = Finite (of_int m * 2 powi u)"
proof (cases "m = 0")
  case True
  then show ?thesis by (simp add: to_double_def)
next
  case False
  define x :: rat where "x = of_int m * 2 powi u"
  have xn: "x \<noteq> 0" using False by (simp add: x_def)
  then have xp: "0 < \<bar>x\<bar>" by simp
  define e where "e = floor_log2 \<bar>x\<bar>"
  note b = floor_log2_bounds [OF xp, folded e_def]
  have "\<bar>x\<bar> = of_int \<bar>m\<bar> * 2 powi u"
    by (simp add: x_def abs_mult)
  also have "\<dots> < 2 ^ 53 * 2 powi u"
  proof -
    have "(of_int \<bar>m\<bar> :: rat) < of_int (2 ^ 53)" using m by (simp only: of_int_less_iff)
    then show ?thesis by (simp add: mult_strict_right_mono)
  qed
  also have "\<dots> = 2 powi (53 + u)"
    by (simp add: power_int_add)
  finally have "2 powi e < (2::rat) powi (53 + u)" using b(1) by linarith
  have "e < 53 + u"
  proof (rule ccontr)
    assume "\<not> e < 53 + u"
    then have "(2::rat) powi (53 + u) \<le> 2 powi e"
      by (intro power_int_increasing) simp_all
    with \<open>2 powi e < (2::rat) powi (53 + u)\<close> show False by linarith
  qed
  define u' where "u' = max (e - 52) (- 1074)"
  have le: "u' \<le> u" using \<open>e < 53 + u\<close> u by (simp add: u'_def)
  define j where "j = m * 2 ^ nat (u - u')"
  have "x / 2 powi u' = of_int m * 2 powi (u - u')"
    by (simp add: x_def power_int_diff)
  also have "\<dots> = of_int j"
    using le by (simp add: j_def power_int_def)
  finally have sc: "x / 2 powi u' = of_int j" .
  have restored: "of_int j * 2 powi u' = x"
    using sc by (simp add: field_simps)
  have "to_double x =
     (if 2 ^ 1024 \<le> \<bar>x\<bar> then (if x < 0 then NegInfinity else PosInfinity) else Finite x)"
    using xn
    by (simp add: to_double_def Let_def e_def [symmetric] u'_def [symmetric] sc
        round_half_even_of_int restored)
  then show ?thesis
    using y by (simp add: x_def)
qed

lemma dyadic_is_double:
  assumes m: "\<bar>m\<bar> \<le> 2 ^ 53" and u: "- 1074 \<le> u"
    and y: "\<bar>of_int m * 2 powi u\<bar> < (2::rat) ^ 1024"
  shows "to_double (of_int m * 2 powi u) = Finite (of_int m * 2 powi u)"
proof (cases "\<bar>m\<bar> < 2 ^ 53")
  case True
  then show ?thesis using u y by (rule dyadic_is_double_strict)
next
  case False
  with m have "\<bar>m\<bar> = 2 ^ 53" by simp
  then have "m = 2 ^ 53 \<or> m = - (2 ^ 53)" by (simp add: abs_eq_iff) linarith
  then have mm: "m = 2 * (m div 2)" "\<bar>m div 2\<bar> < 2 ^ 53" by auto
  have eq: "(of_int m :: rat) * 2 powi u = of_int (m div 2) * 2 powi (u + 1)"
  proof -
    have "(of_int m :: rat) = 2 * of_int (m div 2)"
      using mm(1) by (metis of_int_mult of_int_numeral)
    then show ?thesis by (simp add: power_int_add)
  qed
  show ?thesis
    using dyadic_is_double_strict [of "m div 2" "u + 1"] mm(2) u y
    by (simp add: eq)
qed

lemma to_double_closed:
  assumes "to_double x = Finite y"
  shows "to_double y = Finite y"
proof (cases "x = 0")
  case True
  with assms show ?thesis by (simp add: to_double_def)
next
  case False
  then have xp: "0 < \<bar>x\<bar>" by simp
  define e where "e = floor_log2 \<bar>x\<bar>"
  define u where "u = max (e - 52) (- 1074)"
  define j where "j = round_half_even (x / 2 powi u)"
  note b = floor_log2_bounds [OF xp, folded e_def]
  have y: "y = of_int j * 2 powi u" and small: "\<bar>of_int j * 2 powi u\<bar> < (2::rat) ^ 1024"
    using assms False
    by (simp_all add: to_double_def Let_def e_def [symmetric] u_def [symmetric]
        j_def [symmetric] split: if_splits)
  have "\<bar>x / 2 powi u\<bar> = \<bar>x\<bar> / 2 powi u" by (simp add: abs_divide) 
  also have "\<dots> < 2 powi (e + 1) / 2 powi u"
    using b(2) by (simp add: divide_strict_right_mono)
  also have "\<dots> = 2 powi (e + 1 - u)" by (simp add: power_int_diff)
  also have "\<dots> \<le> 2 powi 53"
    by (intro power_int_increasing) (simp_all add: u_def)
  finally have "\<bar>x / 2 powi u\<bar> \<le> of_int (2 ^ 53)" by simp
  then have "\<bar>j\<bar> \<le> 2 ^ 53" unfolding j_def by (rule round_half_even_bound)
  moreover have "- 1074 \<le> u" by (simp add: u_def)
  ultimately show ?thesis
    unfolding y using small by (intro dyadic_is_double)
qed

subsection \<open>Evaluating a rounding\<close>

lemma round_half_even_nearest:
  assumes "\<bar>z - of_int j\<bar> < 1 / 2"
  shows "round_half_even z = j"
proof (cases "of_int j \<le> z")
  case True
  then have "\<lfloor>z\<rfloor> = j" using assms by (intro floor_unique) auto
  then show ?thesis using assms True by (simp add: round_half_even_def Let_def)
next
  case False
  then have "\<lfloor>z\<rfloor> = j - 1" using assms by (intro floor_unique) auto
  then show ?thesis using assms False by (simp add: round_half_even_def Let_def)
qed

lemma round_half_even_tie:
  assumes "z = of_int f + 1 / 2"
  shows "round_half_even z = (if even f then f else f + 1)"
proof -
  have "\<lfloor>z\<rfloor> = f" using assms by (intro floor_unique) auto
  then show ?thesis using assms by (simp add: round_half_even_def Let_def)
qed

lemma to_double_round:
  assumes "2 powi e \<le> \<bar>x\<bar>" "\<bar>x\<bar> < 2 powi (e + 1)"
    and "max (e - 52) (- 1074) = - int k"
    and "round_half_even (x * 2 ^ k) = j"
    and "\<bar>of_int j / (2::rat) ^ k\<bar> < 2 ^ 1024"
  shows "to_double x = Finite (of_int j / 2 ^ k)"
proof -
  have p: "(2::rat) powi (- int k) = 1 / 2 ^ k"
    by (simp add: power_int_def inverse_eq_divide power_one_over)
  show ?thesis
    using assms(4,5)
    by (simp add: to_double_eval [OF assms(1,2)] assms(3) p Let_def)
qed

subsection \<open>Sums of numbers\<close>

lemma is_double_simps [simp]:
  "is_double NaN" "is_double PosInfinity" "is_double NegInfinity"
  "is_double (Finite r) = (to_double r = Finite r)"
  by (simp_all add: is_double_def)

lemma is_double_to_double: "is_double (to_double x)"
  by (cases "to_double x") (simp_all add: to_double_closed)

lemma is_double_zero: "is_double (Finite 0)"
  by (simp add: to_double_def)

lemma is_double_number_add: "is_double (number_add x y)"
  by (cases x; cases y) (simp_all add: is_double_to_double)

lemma number_add_commute: "number_add x y = number_add y x"
  by (cases x; cases y) (simp_all add: add.commute)

lemma number_add_zero: "is_double x \<Longrightarrow> number_add (Finite 0) x = x"
  by (cases x) simp_all

text \<open>The doubles of \<^verbatim>\<open>0.1\<close>, \<^verbatim>\<open>0.2\<close>, \<^verbatim>\<open>0.3\<close> and their sums in both orders.\<close>

lemma double_tenth: "to_double (1 / 10) = Finite (3602879701896397 / 36028797018963968)"
  using to_double_round [of "- 4" "1 / 10" 56 7205759403792794]
    round_half_even_nearest [of "1 / 10 * 2 ^ 56" 7205759403792794]
  by simp

lemma double_fifth: "to_double (1 / 5) = Finite (3602879701896397 / 18014398509481984)"
  using to_double_round [of "- 3" "1 / 5" 55 7205759403792794]
    round_half_even_nearest [of "1 / 5 * 2 ^ 55" 7205759403792794]
  by simp

lemma double_three_tenths:
  "to_double (3 / 10) = Finite (5404319552844595 / 18014398509481984)"
  using to_double_round [of "- 2" "3 / 10" 54 5404319552844595]
    round_half_even_nearest [of "3 / 10 * 2 ^ 54" 5404319552844595]
  by simp

lemma double_half: "to_double (1 / 2) = Finite (1 / 2)"
  using dyadic_is_double [of 1 "- 1"] by simp

lemma tenth_plus_fifth:
  "number_add (to_double (1 / 10)) (to_double (1 / 5)) =
     Finite (1351079888211149 / 4503599627370496)"
  using to_double_round [of "- 2" "10808639105689191 / 36028797018963968" 54 5404319552844596]
    round_half_even_tie [of "10808639105689191 / 36028797018963968 * 2 ^ 54" 5404319552844595]
  by (simp add: double_tenth double_fifth)

lemma tenth_fifth_then_three_tenths:
  "number_add (number_add (to_double (1 / 10)) (to_double (1 / 5))) (to_double (3 / 10)) =
     Finite (1351079888211149 / 2251799813685248)"
  using to_double_round [of "- 1" "10808639105689191 / 18014398509481984" 53 5404319552844596]
    round_half_even_tie [of "10808639105689191 / 18014398509481984 * 2 ^ 53" 5404319552844595]
  by (simp add: tenth_plus_fifth double_three_tenths)

lemma fifth_plus_three_tenths:
  "number_add (to_double (1 / 5)) (to_double (3 / 10)) = Finite (1 / 2)"
  by (simp add: double_fifth double_three_tenths double_half)

lemma tenth_then_fifth_three_tenths:
  "number_add (to_double (1 / 10)) (number_add (to_double (1 / 5)) (to_double (3 / 10))) =
     Finite (5404319552844595 / 9007199254740992)"
  using to_double_round [of "- 1" "21617278211378381 / 36028797018963968" 53 5404319552844595]
    round_half_even_nearest [of "21617278211378381 / 36028797018963968 * 2 ^ 53" 5404319552844595]
  by (simp add: fifth_plus_three_tenths double_tenth)

text \<open>The costs of the examples are doubles, and their sum is exact.\<close>

lemma double_quarter: "to_double (1 / 4) = Finite (1 / 4)"
  using dyadic_is_double [of 1 "- 2"] by simp

lemma double_three_quarters: "to_double (3 / 4) = Finite (3 / 4)"
  using dyadic_is_double [of 3 "- 2"] by simp

lemma half_plus_quarter:
  "number_add (Finite 0) (Finite (1 / 2)) = Finite (1 / 2)"
  "number_add (Finite (1 / 2)) (Finite (1 / 4)) = Finite (3 / 4)"
  by (simp_all add: double_half double_three_quarters)

section \<open>Usage accounting\<close>

subsection \<open>The fold, field by field\<close>

lemma merge_step_fields:
  "inputTokens (merge_step m u) = inputTokens m + inputTokens u"
  "outputTokens (merge_step m u) = outputTokens m + outputTokens u"
  "totalTokens (merge_step m u) = totalTokens m + totalTokens u"
  "durationMs (merge_step m u) = max (durationMs m) (durationMs u)"
  "cost (merge_step m u) =
     (case cost u of
        None \<Rightarrow> cost m
      | Some c \<Rightarrow> Some (number_add (case cost m of None \<Rightarrow> Finite 0 | Some x \<Rightarrow> x) c))"
  by (simp_all add: merge_step_def max_def)

lemma foldl_merge_step_inputTokens:
  "inputTokens (foldl merge_step m us) = inputTokens m + sum_list (map inputTokens us)"
  by (induction us arbitrary: m) (simp_all add: merge_step_fields)

lemma foldl_merge_step_outputTokens:
  "outputTokens (foldl merge_step m us) = outputTokens m + sum_list (map outputTokens us)"
  by (induction us arbitrary: m) (simp_all add: merge_step_fields)

lemma foldl_merge_step_totalTokens:
  "totalTokens (foldl merge_step m us) = totalTokens m + sum_list (map totalTokens us)"
  by (induction us arbitrary: m) (simp_all add: merge_step_fields)

lemma foldl_merge_step_durationMs:
  "durationMs (foldl merge_step m us) = max (durationMs m) (max_duration us)"
  by (induction us arbitrary: m)
     (simp_all add: merge_step_fields max_duration_def max.assoc)

lemma non_null_costs_simps:
  "non_null_costs [] = []"
  "non_null_costs (u # us) =
     (case cost u of None \<Rightarrow> non_null_costs us | Some c \<Rightarrow> c # non_null_costs us)"
  by (simp_all add: non_null_costs_def List.map_filter_simps split: option.splits)

lemma foldl_merge_step_cost:
  "cost (foldl merge_step m us) =
     (if non_null_costs us = [] then cost m
      else Some (foldl number_add (case cost m of None \<Rightarrow> Finite 0 | Some c \<Rightarrow> c)
                   (non_null_costs us)))"
proof (induction us arbitrary: m)
  case Nil
  show ?case by (simp add: non_null_costs_simps)
next
  case (Cons u us)
  show ?case
  proof (cases "cost u")
    case None
    then have "cost (merge_step m u) = cost m"
      by (simp add: merge_step_fields)
    with None show ?thesis
      by (simp add: Cons.IH non_null_costs_simps)
  next
    case (Some c)
    then have "cost (merge_step m u) =
        Some (number_add (case cost m of None \<Rightarrow> Finite 0 | Some x \<Rightarrow> x) c)"
      by (simp add: merge_step_fields)
    with Some show ?thesis
      by (simp add: Cons.IH non_null_costs_simps)
  qed
qed

lemma mergeUsage_inputTokens:
  "inputTokens (mergeUsage us) = sum_list (map inputTokens us)"
  by (simp add: mergeUsage_def foldl_merge_step_inputTokens merged_init_def)

lemma mergeUsage_outputTokens:
  "outputTokens (mergeUsage us) = sum_list (map outputTokens us)"
  by (simp add: mergeUsage_def foldl_merge_step_outputTokens merged_init_def)

lemma mergeUsage_totalTokens:
  "totalTokens (mergeUsage us) = sum_list (map totalTokens us)"
  by (simp add: mergeUsage_def foldl_merge_step_totalTokens merged_init_def)

lemma mergeUsage_durationMs:
  "durationMs (mergeUsage us) = max_duration us"
  by (simp add: mergeUsage_def foldl_merge_step_durationMs merged_init_def)

lemma mergeUsage_cost:
  "cost (mergeUsage us) = sum_costs us"
  by (simp add: mergeUsage_def foldl_merge_step_cost merged_init_def sum_costs_def)

lemma UsageInfo_eqI:
  fixes a b :: UsageInfo
  assumes "inputTokens a = inputTokens b" "outputTokens a = outputTokens b"
    "totalTokens a = totalTokens b" "cost a = cost b" "durationMs a = durationMs b"
  shows "a = b"
  using assms by simp

subsection \<open>Two and three operands\<close>

lemma mergeUsage_binary_cost:
  assumes "valid_usage a" "valid_usage b"
  shows "cost (mergeUsage [a, b]) = sum_non_null (cost a) (cost b)"
  using assms
  by (cases "cost a"; cases "cost b")
     (simp_all add: mergeUsage_cost sum_costs_def non_null_costs_simps valid_usage_def
        number_add_zero)

lemma sum_non_null_commute: "sum_non_null p q = sum_non_null q p"
  by (cases p; cases q) (simp_all add: number_add_commute)

lemma valid_usage_mergeUsage: "valid_usage (mergeUsage us)"
proof (cases "non_null_costs us" rule: rev_cases)
  case Nil
  then show ?thesis by (simp add: valid_usage_def mergeUsage_cost sum_costs_def)
next
  case (snoc cs c)
  then show ?thesis
    by (simp add: valid_usage_def mergeUsage_cost sum_costs_def is_double_number_add)
qed

lemma mergeUsage_commute:
  assumes "valid_usage a" "valid_usage b"
  shows "mergeUsage [a, b] = mergeUsage [b, a]"
  by (rule UsageInfo_eqI)
     (simp_all add: mergeUsage_inputTokens mergeUsage_outputTokens mergeUsage_totalTokens
        mergeUsage_durationMs max_duration_def mergeUsage_binary_cost assms max.commute
        sum_non_null_commute)

lemma mergeUsage_assoc_counts:
  "inputTokens (mergeUsage [mergeUsage [a, b], c]) =
     inputTokens (mergeUsage [a, mergeUsage [b, c]])"
  "outputTokens (mergeUsage [mergeUsage [a, b], c]) =
     outputTokens (mergeUsage [a, mergeUsage [b, c]])"
  "totalTokens (mergeUsage [mergeUsage [a, b], c]) =
     totalTokens (mergeUsage [a, mergeUsage [b, c]])"
  "durationMs (mergeUsage [mergeUsage [a, b], c]) =
     durationMs (mergeUsage [a, mergeUsage [b, c]])"
  by (simp_all add: mergeUsage_inputTokens mergeUsage_outputTokens mergeUsage_totalTokens
      mergeUsage_durationMs max_duration_def max.assoc)

lemma mergeUsage_assoc_cost:
  assumes "valid_usage a" "valid_usage b" "valid_usage c"
    and "cost a = None \<or> cost b = None \<or> cost c = None"
  shows "cost (mergeUsage [mergeUsage [a, b], c]) = cost (mergeUsage [a, mergeUsage [b, c]])"
proof -
  have "cost (mergeUsage [mergeUsage [a, b], c]) =
      sum_non_null (sum_non_null (cost a) (cost b)) (cost c)"
    by (simp add: mergeUsage_binary_cost valid_usage_mergeUsage assms(1-3))
  moreover have "cost (mergeUsage [a, mergeUsage [b, c]]) =
      sum_non_null (cost a) (sum_non_null (cost b) (cost c))"
    by (simp add: mergeUsage_binary_cost valid_usage_mergeUsage assms(1-3))
  ultimately show ?thesis
    using assms(4) by (cases "cost a"; cases "cost b"; cases "cost c") simp_all
qed

text \<open>
  C6, as stated: \<^verbatim>\<open>mergeUsage\<close> is associative. Its costs are added as doubles, and that
  sum depends on the grouping: with the costs \<^verbatim>\<open>0.1\<close>, \<^verbatim>\<open>0.2\<close> and \<^verbatim>\<open>0.3\<close>,
  \<^verbatim>\<open>mergeUsage(mergeUsage(a, b), c).cost\<close> is \<^verbatim>\<open>0.6000000000000001\<close> and
  \<^verbatim>\<open>mergeUsage(a, mergeUsage(b, c)).cost\<close> is \<^verbatim>\<open>0.6\<close>.
\<close>

theorem mergeUsage_cost_not_associative:
  "cost (mergeUsage [mergeUsage [costing (to_double (1 / 10)), costing (to_double (1 / 5))],
                     costing (to_double (3 / 10))]) =
     Some (Finite (1351079888211149 / 2251799813685248))
   \<and> cost (mergeUsage [costing (to_double (1 / 10)),
                       mergeUsage [costing (to_double (1 / 5)), costing (to_double (3 / 10))]]) =
     Some (to_double (3 / 5))
   \<and> to_double (3 / 5) = Finite (5404319552844595 / 9007199254740992)
   \<and> mergeUsage [mergeUsage [costing (to_double (1 / 10)), costing (to_double (1 / 5))],
                 costing (to_double (3 / 10))] \<noteq>
     mergeUsage [costing (to_double (1 / 10)),
                 mergeUsage [costing (to_double (1 / 5)), costing (to_double (3 / 10))]]"
proof -
  have v: "valid_usage (costing (to_double x))" for x
    by (simp add: valid_usage_def costing_def is_double_to_double)
  have c: "cost (costing x) = Some x" for x
    by (simp add: costing_def)
  have three_fifths: "to_double (3 / 5) = Finite (5404319552844595 / 9007199254740992)"
    using to_double_round [of "- 1" "3 / 5" 53 5404319552844595]
      round_half_even_nearest [of "3 / 5 * 2 ^ 53" 5404319552844595]
    by simp
  have l: "cost (mergeUsage [mergeUsage [costing (to_double (1 / 10)),
                                          costing (to_double (1 / 5))],
                             costing (to_double (3 / 10))]) =
      Some (Finite (1351079888211149 / 2251799813685248))"
    by (simp add: mergeUsage_binary_cost valid_usage_mergeUsage v c
        tenth_fifth_then_three_tenths)
  have r: "cost (mergeUsage [costing (to_double (1 / 10)),
                             mergeUsage [costing (to_double (1 / 5)),
                                         costing (to_double (3 / 10))]]) =
      Some (to_double (3 / 5))"
    by (simp add: mergeUsage_binary_cost valid_usage_mergeUsage v c
        tenth_then_fifth_three_tenths three_fifths)
  have "Some (Finite (1351079888211149 / 2251799813685248)) \<noteq> Some (to_double (3 / 5))"
    by (simp add: three_fifths)
  with l r have ne: "mergeUsage [mergeUsage [costing (to_double (1 / 10)),
                                             costing (to_double (1 / 5))],
                                costing (to_double (3 / 10))] \<noteq>
     mergeUsage [costing (to_double (1 / 10)),
                 mergeUsage [costing (to_double (1 / 5)), costing (to_double (3 / 10))]]"
    by metis
  show ?thesis
    using l r three_fifths ne by (intro conjI)
qed

text \<open>
  C6, amended. For usages whose costs, when present, are doubles: \<^verbatim>\<open>mergeUsage\<close> as a
  binary operation is commutative; the three token fields of \<^verbatim>\<open>mergeUsage(a, b)\<close> are the
  sums of the operands' fields, its \<^verbatim>\<open>durationMs\<close> is the maximum of the two, and its
  cost is the sum, as doubles, of the operand costs that are not null, null only when
  both are. It is associative in the token fields and in \<^verbatim>\<open>durationMs\<close>, and in all
  fields when one of the three costs is null; the sum of three costs depends on the
  grouping.
\<close>

theorem mergeUsage_binary_laws:
  assumes "valid_usage a" "valid_usage b" "valid_usage c"
  shows "mergeUsage [a, b] = mergeUsage [b, a]
   \<and> inputTokens (mergeUsage [a, b]) = inputTokens a + inputTokens b
   \<and> outputTokens (mergeUsage [a, b]) = outputTokens a + outputTokens b
   \<and> totalTokens (mergeUsage [a, b]) = totalTokens a + totalTokens b
   \<and> durationMs (mergeUsage [a, b]) = max (durationMs a) (durationMs b)
   \<and> cost (mergeUsage [a, b]) = sum_non_null (cost a) (cost b)
   \<and> inputTokens (mergeUsage [mergeUsage [a, b], c]) =
       inputTokens (mergeUsage [a, mergeUsage [b, c]])
   \<and> outputTokens (mergeUsage [mergeUsage [a, b], c]) =
       outputTokens (mergeUsage [a, mergeUsage [b, c]])
   \<and> totalTokens (mergeUsage [mergeUsage [a, b], c]) =
       totalTokens (mergeUsage [a, mergeUsage [b, c]])
   \<and> durationMs (mergeUsage [mergeUsage [a, b], c]) =
       durationMs (mergeUsage [a, mergeUsage [b, c]])
   \<and> (cost a = None \<or> cost b = None \<or> cost c = None \<longrightarrow>
        mergeUsage [mergeUsage [a, b], c] = mergeUsage [a, mergeUsage [b, c]])"
proof -
  have k1: "mergeUsage [a, b] = mergeUsage [b, a]"
    using assms(1,2) by (rule mergeUsage_commute)
  have k2: "inputTokens (mergeUsage [a, b]) = inputTokens a + inputTokens b"
    "outputTokens (mergeUsage [a, b]) = outputTokens a + outputTokens b"
    "totalTokens (mergeUsage [a, b]) = totalTokens a + totalTokens b"
    by (simp_all add: mergeUsage_inputTokens mergeUsage_outputTokens mergeUsage_totalTokens)
  have k3: "durationMs (mergeUsage [a, b]) = max (durationMs a) (durationMs b)"
    by (simp add: mergeUsage_durationMs max_duration_def)
  have k4: "cost (mergeUsage [a, b]) = sum_non_null (cost a) (cost b)"
    using assms(1,2) by (rule mergeUsage_binary_cost)
  have k5: "cost a = None \<or> cost b = None \<or> cost c = None \<longrightarrow>
        mergeUsage [mergeUsage [a, b], c] = mergeUsage [a, mergeUsage [b, c]]"
  proof
    assume "cost a = None \<or> cost b = None \<or> cost c = None"
    then have "cost (mergeUsage [mergeUsage [a, b], c]) =
        cost (mergeUsage [a, mergeUsage [b, c]])"
      using assms mergeUsage_assoc_cost by blast
    then show "mergeUsage [mergeUsage [a, b], c] = mergeUsage [a, mergeUsage [b, c]]"
      using mergeUsage_assoc_counts [of a b c] by (intro UsageInfo_eqI)
  qed
  show ?thesis
    using k1 k2 k3 k4 k5 mergeUsage_assoc_counts [of a b c] by (intro conjI)
qed

theorem mergeUsage_binary_laws_witness:
  "valid_usage (costing (to_double (1 / 10))) \<and> valid_usage (costing (to_double (1 / 5)))
   \<and> valid_usage uncosted
   \<and> mergeUsage [costing (to_double (1 / 10)), costing (to_double (1 / 5))] =
       mergeUsage [costing (to_double (1 / 5)), costing (to_double (1 / 10))]
   \<and> mergeUsage [costing (to_double (1 / 10)), costing (to_double (1 / 5))] =
       \<lparr>inputTokens = 200, outputTokens = 40, totalTokens = 240,
        cost = Some (Finite (1351079888211149 / 4503599627370496)), durationMs = 10\<rparr>
   \<and> mergeUsage [mergeUsage [costing (to_double (1 / 10)), costing (to_double (1 / 5))],
                 uncosted] =
       mergeUsage [costing (to_double (1 / 10)),
                   mergeUsage [costing (to_double (1 / 5)), uncosted]]
   \<and> mergeUsage [costing (to_double (1 / 10)),
                 mergeUsage [costing (to_double (1 / 5)), uncosted]] =
       \<lparr>inputTokens = 207, outputTokens = 43, totalTokens = 250,
        cost = Some (Finite (1351079888211149 / 4503599627370496)), durationMs = 30\<rparr>"
proof -
  have v: "valid_usage (costing (to_double (1 / 10)))"
    "valid_usage (costing (to_double (1 / 5)))" "valid_usage uncosted"
    by (simp_all add: valid_usage_def costing_def uncosted_def is_double_to_double)
  note laws = mergeUsage_binary_laws
    [of "costing (to_double (1 / 10))" "costing (to_double (1 / 5))" uncosted, OF v]
  have ab: "mergeUsage [costing (to_double (1 / 10)), costing (to_double (1 / 5))] =
       \<lparr>inputTokens = 200, outputTokens = 40, totalTokens = 240,
        cost = Some (Finite (1351079888211149 / 4503599627370496)), durationMs = 10\<rparr>"
    by (rule UsageInfo_eqI; use laws [THEN conjunct2] in \<open>simp add: costing_def tenth_plus_fifth\<close>)
  have bc: "mergeUsage [costing (to_double (1 / 5)), uncosted] =
       \<lparr>inputTokens = 107, outputTokens = 23, totalTokens = 130,
        cost = Some (to_double (1 / 5)), durationMs = 30\<rparr>"
    by (rule UsageInfo_eqI;
        use mergeUsage_binary_laws
          [of "costing (to_double (1 / 5))" uncosted uncosted, OF v(2) v(3) v(3),
           THEN conjunct2]
        in \<open>simp add: costing_def uncosted_def\<close>)
  have assoc: "mergeUsage [mergeUsage [costing (to_double (1 / 10)),
                                        costing (to_double (1 / 5))], uncosted] =
       mergeUsage [costing (to_double (1 / 10)),
                   mergeUsage [costing (to_double (1 / 5)), uncosted]]"
    using laws [THEN conjunct2] by (simp add: uncosted_def)
  have total: "mergeUsage [mergeUsage [costing (to_double (1 / 10)),
                                        costing (to_double (1 / 5))], uncosted] =
       \<lparr>inputTokens = 207, outputTokens = 43, totalTokens = 250,
        cost = Some (Finite (1351079888211149 / 4503599627370496)), durationMs = 30\<rparr>"
    by (rule UsageInfo_eqI;
        use mergeUsage_binary_laws
          [of "mergeUsage [costing (to_double (1 / 10)), costing (to_double (1 / 5))]"
              uncosted uncosted, OF valid_usage_mergeUsage v(3) v(3), THEN conjunct2]
        in \<open>simp add: ab uncosted_def\<close>)
  show ?thesis
    using v laws [THEN conjunct1] ab assoc total by (intro conjI) simp_all
qed

section \<open>The registry of active requests\<close>

text \<open>
  What \<^verbatim>\<open>registerRequest\<close> does to the registry: a controller found under the id is
  aborted and replaced by a new one, which is not aborted; other ids keep their entry.
\<close>

lemma registerRequest_replaces:
  assumes "activeRequests s cid = Some old" "old < length (controllers s)"
    "registerRequest cid s = (c, s')"
  shows "controllers s' ! old" "activeRequests s' cid = Some c" "c \<noteq> old"
    "\<not> controllers s' ! c" "c = length (controllers s)"
  using assms
  by (auto simp: registerRequest_def cancelRequest_def Let_def nth_append)

lemma registerRequest_other_ids:
  "cid' \<noteq> cid \<Longrightarrow> activeRequests (snd (registerRequest cid s)) cid' = activeRequests s cid'"
  by (simp add: registerRequest_def cancelRequest_def Let_def split: option.splits)

text \<open>
  C10. For every conversation id at most one request is active at a time, because
  \<^verbatim>\<open>registerRequest\<close> aborts and removes the controller registered under the id before
  it installs a new one. The code breaks this when three requests share an id: the first
  is aborted by the second, and when its handler ends, its
  \<^verbatim>\<open>finally { unregisterRequest(convId) }\<close> deletes the entry of the second; the third
  then finds nothing to abort. After these four events the second and the third request
  are both active.
\<close>

theorem stale_unregister_two_active:
  "active_requests (run_server [Start ''c'', Start ''c'', Finish 0, Start ''c'']) ''c'' =
     [\<lparr>req_conversationId = ''c'', req_controller = 1, req_finished = False\<rparr>,
      \<lparr>req_conversationId = ''c'', req_controller = 2, req_finished = False\<rparr>]"
  by (simp add: run_server_def server_init_def registry_init_def registerRequest_def
      cancelRequest_def unregisterRequest_def active_requests_def is_active_def Let_def)

section \<open>Compaction\<close>

lemma stored_messages_append:
  "stored_messages (store_append cid m now s) cid = stored_messages s cid @ [m]"
  by (simp add: stored_messages_def store_append_def Let_def split: option.splits)

lemma stored_messages_clear:
  "stored_messages (store_clear cid now s) cid = []"
  by (simp add: stored_messages_def store_clear_def split: option.splits)

lemma stored_messages_append_all:
  "stored_messages (foldl (\<lambda>s msg. store_append cid msg now s) s ms) cid =
     stored_messages s cid @ ms"
  by (induction ms arbitrary: s) (simp_all add: stored_messages_append)

lemma compactConversation_summarizes:
  assumes "store cid = Some conversation"
    and "keep = effective_preserveRecent config ov"
    and "keep < length (messages conversation)"
    and "llm (effective_model config ov)
           (fullPrompt (effective_prompt config ov)
              (take (length (messages conversation) - keep) (messages conversation))) = Inr stext"
  shows "compactConversation llm now config store cid ov =
     (foldl (\<lambda>s msg. store_append cid msg now s)
        (store_append cid
           (summary_message stext (length (messages conversation) - keep) now) now
           (store_clear cid now store))
        (drop (length (messages conversation) - keep) (messages conversation)),
      Inr (Some \<lparr>summary = stext,
             summarizedCount = length (messages conversation) - keep,
             preservedCount = keep,
             newMessageCount = 1 + keep\<rparr>))"
  using assms by (simp add: compactConversation_def Let_def)

lemma compactConversation_call_throws:
  assumes "store cid = Some conversation"
    and "keep = effective_preserveRecent config ov"
    and "keep < length (messages conversation)"
    and "llm (effective_model config ov)
           (fullPrompt (effective_prompt config ov)
              (take (length (messages conversation) - keep) (messages conversation))) = Inl err"
  shows "compactConversation llm now config store cid ov = (store, Inl err)"
  using assms by (simp add: compactConversation_def Let_def)

lemma effective_preserveRecent_cases:
  "Option.bind ov ov_preserveRecent = Some k \<Longrightarrow> effective_preserveRecent config ov = k"
  "Option.bind ov ov_preserveRecent = None \<Longrightarrow> Option.bind config preserveRecent = Some k \<Longrightarrow>
     effective_preserveRecent config ov = k"
  "Option.bind ov ov_preserveRecent = None \<Longrightarrow> Option.bind config preserveRecent = None \<Longrightarrow>
     effective_preserveRecent config ov = 4"
  by (simp_all add: effective_preserveRecent_def COMPACTION_PRESERVE_RECENT_def)

text \<open>
  C8, as stated: a conversation with more messages than \<^verbatim>\<open>preserveRecent\<close> is left with
  \<open>1 + preserveRecent\<close> messages. The summary is the text of a model call, made before
  the store is touched: when that call throws, \<^verbatim>\<open>compactConversation\<close> throws what it
  threw and the 25 stored messages are still there.
\<close>

theorem compaction_call_failure_counterexample:
  "compactConversation (\<lambda>m p. Inl (ErrorObj (new_Error ''model unavailable''))) ''t1''
     (Some config_20_4) [''c'' \<mapsto> conv25] ''c'' None =
     ([''c'' \<mapsto> conv25], Inl (ErrorObj (new_Error ''model unavailable'')))
   \<and> length (stored_messages [''c'' \<mapsto> conv25] ''c'') = 25
   \<and> preserveRecent config_20_4 = Some 4"
  by (simp add: compactConversation_def Let_def effective_preserveRecent_def config_20_4_def
      conv25_def stored_messages_def)

text \<open>
  C8, amended. \<^verbatim>\<open>preserveRecent\<close> is \<open>k\<close>: the value of the override when it gives one,
  else that of the configuration, else 4. For a stored conversation of \<open>N > k\<close> messages:
  when the summarizing call returns a text, \<^verbatim>\<open>compactConversation\<close> leaves exactly
  \<open>1 + k\<close> messages, first the summary message (role assistant, the text as content,
  tagged \<^verbatim>\<open>_compaction: true\<close> with the number \<open>N - k\<close> of summarized messages), then the
  last \<open>k\<close> messages of the original, the same and in the same order, and it reports
  these counts; when the call throws, \<^verbatim>\<open>compactConversation\<close> throws the same and the
  store is unchanged.
\<close>

theorem compactConversation_keeps_tail:
  assumes "store cid = Some conversation"
    and "Option.bind ov ov_preserveRecent = Some k
         \<or> Option.bind ov ov_preserveRecent = None \<and> Option.bind config preserveRecent = Some k
         \<or> Option.bind ov ov_preserveRecent = None \<and> Option.bind config preserveRecent = None
            \<and> k = 4"
    and "msgs = messages conversation"
    and "k < length msgs"
    and "outcome = llm (effective_model config ov)
           (fullPrompt (effective_prompt config ov) (take (length msgs - k) msgs))"
  shows "(outcome = Inr stext \<longrightarrow>
            stored_messages (fst (compactConversation llm now config store cid ov)) cid =
              \<lparr>msg_role = Assistant, content = stext, timestamp = now,
               metadata = Some [(''_compaction'', MBool True),
                                (''summarizedCount'', MNum (length msgs - k))]\<rparr> #
              drop (length msgs - k) msgs
            \<and> length (stored_messages
                  (fst (compactConversation llm now config store cid ov)) cid) = 1 + k
            \<and> snd (compactConversation llm now config store cid ov) =
                Inr (Some \<lparr>summary = stext, summarizedCount = length msgs - k,
                       preservedCount = k, newMessageCount = 1 + k\<rparr>))
         \<and> (outcome = Inl err \<longrightarrow>
              compactConversation llm now config store cid ov = (store, Inl err))"
proof -
  have keep: "k = effective_preserveRecent config ov"
    using assms(2) by (auto simp: effective_preserveRecent_cases)
  have less: "k < length (messages conversation)"
    using assms(3,4) by simp
  have ok: "outcome = Inr stext \<longrightarrow>
            stored_messages (fst (compactConversation llm now config store cid ov)) cid =
              \<lparr>msg_role = Assistant, content = stext, timestamp = now,
               metadata = Some [(''_compaction'', MBool True),
                                (''summarizedCount'', MNum (length msgs - k))]\<rparr> #
              drop (length msgs - k) msgs
            \<and> length (stored_messages
                  (fst (compactConversation llm now config store cid ov)) cid) = 1 + k
            \<and> snd (compactConversation llm now config store cid ov) =
                Inr (Some \<lparr>summary = stext, summarizedCount = length msgs - k,
                       preservedCount = k, newMessageCount = 1 + k\<rparr>)"
  proof
    assume "outcome = Inr stext"
    then have call: "llm (effective_model config ov)
           (fullPrompt (effective_prompt config ov)
              (take (length (messages conversation) - k) (messages conversation))) = Inr stext"
      using assms(3,5) by simp
    note run = compactConversation_summarizes
      [of store cid conversation k config ov llm stext now, OF assms(1) keep less call]
    show "stored_messages (fst (compactConversation llm now config store cid ov)) cid =
              \<lparr>msg_role = Assistant, content = stext, timestamp = now,
               metadata = Some [(''_compaction'', MBool True),
                                (''summarizedCount'', MNum (length msgs - k))]\<rparr> #
              drop (length msgs - k) msgs
            \<and> length (stored_messages
                  (fst (compactConversation llm now config store cid ov)) cid) = 1 + k
            \<and> snd (compactConversation llm now config store cid ov) =
                Inr (Some \<lparr>summary = stext, summarizedCount = length msgs - k,
                       preservedCount = k, newMessageCount = 1 + k\<rparr>)"
      using less
      by (simp add: run assms(3) stored_messages_append_all stored_messages_append
          stored_messages_clear summary_message_def COMPACTION_METADATA_KEY_def)
  qed
  have fails: "outcome = Inl err \<longrightarrow>
              compactConversation llm now config store cid ov = (store, Inl err)"
  proof
    assume "outcome = Inl err"
    then have call: "llm (effective_model config ov)
           (fullPrompt (effective_prompt config ov)
              (take (length (messages conversation) - k) (messages conversation))) = Inl err"
      using assms(3,5) by simp
    show "compactConversation llm now config store cid ov = (store, Inl err)"
      using assms(1) keep less call by (rule compactConversation_call_throws)
  qed
  show ?thesis using ok fails by (rule conjI)
qed

theorem compactConversation_keeps_tail_witness:
  "stored_messages
     (fst (compactConversation (\<lambda>m p. Inr ''S'') ''t1'' (Some config_20_4)
             [''c'' \<mapsto> conv25] ''c'' None)) ''c'' =
     [\<lparr>msg_role = Assistant, content = ''S'', timestamp = ''t1'',
       metadata = Some [(''_compaction'', MBool True), (''summarizedCount'', MNum 21)]\<rparr>,
      mk_message User ''w'', mk_message Assistant ''x'', mk_message User ''y'', mk_message Assistant ''z'']
   \<and> length (messages conv25) = 25
   \<and> stored_messages
       (fst (compactConversation (\<lambda>m p. Inr ''S'') ''t1'' (Some config_20_4)
               [''c'' \<mapsto> conv25] ''c''
               (Some \<lparr>ov_preserveRecent = Some 2, ov_prompt = None, ov_model = None\<rparr>))) ''c'' =
     [\<lparr>msg_role = Assistant, content = ''S'', timestamp = ''t1'',
       metadata = Some [(''_compaction'', MBool True), (''summarizedCount'', MNum 23)]\<rparr>,
      mk_message User ''y'', mk_message Assistant ''z'']
   \<and> snd (compactConversation (\<lambda>m p. Inr ''S'') ''t1'' None [''c'' \<mapsto> conv10] ''c'' None) =
       Inr (Some \<lparr>summary = ''S'', summarizedCount = 6, preservedCount = 4,
              newMessageCount = 5\<rparr>)
   \<and> compactConversation (\<lambda>m p. Inl (NonError ''offline'' None)) ''t1'' (Some config_20_4)
       [''c'' \<mapsto> conv25] ''c'' None = ([''c'' \<mapsto> conv25], Inl (NonError ''offline'' None))"
proof -
  have r1: "stored_messages
     (fst (compactConversation (\<lambda>m p. Inr ''S'') ''t1'' (Some config_20_4)
             [''c'' \<mapsto> conv25] ''c'' None)) ''c'' =
     [\<lparr>msg_role = Assistant, content = ''S'', timestamp = ''t1'',
       metadata = Some [(''_compaction'', MBool True), (''summarizedCount'', MNum 21)]\<rparr>,
      mk_message User ''w'', mk_message Assistant ''x'', mk_message User ''y'', mk_message Assistant ''z'']"
    using compactConversation_keeps_tail
      [where store = "[''c'' \<mapsto> conv25]" and cid = "''c''" and conversation = conv25
        and k = 4 and config = "Some config_20_4" and ov = None
        and llm = "\<lambda>m p. Inr ''S''" and stext = "''S''" and now = "''t1''",
        OF _ _ refl _ refl, THEN conjunct1]
    by (simp add: conv25_def config_20_4_def)
  have r2: "stored_messages
       (fst (compactConversation (\<lambda>m p. Inr ''S'') ''t1'' (Some config_20_4)
               [''c'' \<mapsto> conv25] ''c''
               (Some \<lparr>ov_preserveRecent = Some 2, ov_prompt = None, ov_model = None\<rparr>))) ''c'' =
     [\<lparr>msg_role = Assistant, content = ''S'', timestamp = ''t1'',
       metadata = Some [(''_compaction'', MBool True), (''summarizedCount'', MNum 23)]\<rparr>,
      mk_message User ''y'', mk_message Assistant ''z'']"
    using compactConversation_keeps_tail
      [where store = "[''c'' \<mapsto> conv25]" and cid = "''c''" and conversation = conv25
        and k = 2 and config = "Some config_20_4"
        and ov = "Some \<lparr>ov_preserveRecent = Some 2, ov_prompt = None, ov_model = None\<rparr>"
        and llm = "\<lambda>m p. Inr ''S''" and stext = "''S''" and now = "''t1''",
        OF _ _ refl _ refl, THEN conjunct1]
    by (simp add: conv25_def config_20_4_def)
  have r3: "snd (compactConversation (\<lambda>m p. Inr ''S'') ''t1'' None
                   [''c'' \<mapsto> conv10] ''c'' None) =
       Inr (Some \<lparr>summary = ''S'', summarizedCount = 6, preservedCount = 4,
              newMessageCount = 5\<rparr>)"
    using compactConversation_keeps_tail
      [where store = "[''c'' \<mapsto> conv10]" and cid = "''c''" and conversation = conv10
        and k = 4 and config = None and ov = None
        and llm = "\<lambda>m p. Inr ''S''" and stext = "''S''" and now = "''t1''",
        OF _ _ refl _ refl, THEN conjunct1]
    by (simp add: conv10_def)
  have r4: "compactConversation (\<lambda>m p. Inl (NonError ''offline'' None)) ''t1''
       (Some config_20_4) [''c'' \<mapsto> conv25] ''c'' None =
       ([''c'' \<mapsto> conv25], Inl (NonError ''offline'' None))"
    using compactConversation_keeps_tail
      [where store = "[''c'' \<mapsto> conv25]" and cid = "''c''" and conversation = conv25
        and k = 4 and config = "Some config_20_4" and ov = None
        and llm = "\<lambda>m p. Inl (NonError ''offline'' None)"
        and err = "NonError ''offline'' None" and now = "''t1''",
        OF _ _ refl _ refl, THEN conjunct2]
    by (simp add: conv25_def config_20_4_def)
  have n: "length (messages conv25) = 25" by (simp add: conv25_def)
  show ?thesis
    using r1 n r2 r3 r4 by (intro conjI)
qed

text \<open>
  C9, as stated: a conversation whose message count does not exceed the compaction
  threshold is left alone by compaction, which reports zero summarized messages. The
  guard of \<^verbatim>\<open>compactConversation\<close> compares the count with \<^verbatim>\<open>preserveRecent\<close>, not with
  the threshold: 10 messages are within the threshold 20, and compaction with
  \<^verbatim>\<open>preserveRecent = 4\<close> summarizes 6 of them and rewrites the stored list.
\<close>

theorem compaction_within_threshold_counterexample:
  "\<not> needsCompaction conv10 (threshold config_20_4)
   \<and> snd (compactConversation (\<lambda>m p. Inr ''S'') ''t1'' (Some config_20_4)
             [''c'' \<mapsto> conv10] ''c'' None) =
       Inr (Some \<lparr>summary = ''S'', summarizedCount = 6, preservedCount = 4,
              newMessageCount = 5\<rparr>)
   \<and> stored_messages
        (fst (compactConversation (\<lambda>m p. Inr ''S'') ''t1'' (Some config_20_4)
                [''c'' \<mapsto> conv10] ''c'' None)) ''c'' =
       [summary_message ''S'' 6 ''t1'',
        mk_message User ''w'', mk_message Assistant ''x'', mk_message User ''y'', mk_message Assistant ''z'']"
  by (simp add: needsCompaction_def conv10_def config_20_4_def compactConversation_def
      Let_def effective_preserveRecent_def store_clear_def store_append_def
      stored_messages_def)

text \<open>
  C9, amended: for every stored conversation whose message count does not exceed
  \<^verbatim>\<open>preserveRecent\<close>, \<^verbatim>\<open>compactConversation\<close> is a no-op: the store is unchanged and
  the result reports zero summarized messages (and the unchanged count).
\<close>

theorem compactConversation_noop:
  assumes "store cid = Some conversation"
    and "length (messages conversation) \<le> effective_preserveRecent config ov"
  shows "compactConversation llm now config store cid ov =
     (store, Inr (Some \<lparr>summary = [], summarizedCount = 0,
                    preservedCount = length (messages conversation),
                    newMessageCount = length (messages conversation)\<rparr>))"
  using assms by (simp add: compactConversation_def Let_def)

theorem compactConversation_noop_witness:
  "compactConversation (\<lambda>m p. Inr ''S'') ''t1'' (Some config_20_4)
     [''c'' \<mapsto> conv3] ''c'' None =
     ([''c'' \<mapsto> conv3],
      Inr (Some \<lparr>summary = [], summarizedCount = 0, preservedCount = 3,
             newMessageCount = 3\<rparr>))"
  using compactConversation_noop
    [of "[''c'' \<mapsto> conv3]" "''c''" conv3 "Some config_20_4" None "\<lambda>m p. Inr ''S''" "''t1''"]
  by (simp add: conv3_def effective_preserveRecent_def config_20_4_def)

section \<open>The task executor\<close>

lemma is_error_result_errorResult [simp]:
  "is_error_result a q (evs, Inr (errorResult a q m))"
  by (simp add: is_error_result_def errorResult_def)

lemma executeTask_unknown:
  "registry_get (registry_of ctx) a = None \<Longrightarrow>
   executeTask ctx parentCtx a q skills = ([], Inr (errorResult a q (''Unknown agent: '' @ a)))"
  by (simp add: executeTask_def)

lemma executeTask_rejects:
  "\<not> passes_checks ctx parentCtx a \<Longrightarrow>
   is_error_result a q (executeTask ctx parentCtx a q skills)
   \<and> fst (executeTask ctx parentCtx a q skills) = []"
  by (auto simp: passes_checks_def executeTask_def Let_def split: option.splits)


text \<open>
  C1. \<^verbatim>\<open>executeTask\<close> makes its legality checks in this order: unknown agent, target
  is an orchestrator, target has no tools, depth at the limit, immediate self-delegation,
  target anywhere in the chain. Each conjunct below gives the result when one check fails
  and all earlier ones pass: an \<^verbatim>\<open>errorResult\<close> with the message of that check, and no
  event. Whenever any check fails the result has the shape of an \<^verbatim>\<open>errorResult\<close> and
  nothing is thrown; in particular when the agent is in the chain (self-delegation
  included) and when the depth has reached \<^verbatim>\<open>maxDelegationDepth\<close>.
\<close>

theorem executeTask_legality_order:
  assumes "chain = parent_chain parentCtx"
    and "depth = parent_depth parentCtx"
    and "out = executeTask ctx parentCtx a q skills"
  shows
    "(registry_get (registry_of ctx) a = None \<longrightarrow>
        out = ([], Inr (errorResult a q (''Unknown agent: '' @ a))))
     \<and> (registry_get (registry_of ctx) a \<noteq> None
          \<and> a \<in> getOrchestratorNames (registry_of ctx) \<longrightarrow>
        out = ([], Inr (errorResult a q
          (''Agent '' @ DQ @ a @ DQ @ '' is an orchestrator and cannot be delegated to''))))
     \<and> (registry_get (registry_of ctx) a = Some registration
          \<and> a \<notin> getOrchestratorNames (registry_of ctx)
          \<and> (tools registration = None \<or> tools registration = Some []) \<longrightarrow>
        out = ([], Inr (errorResult a q
          (''Agent '' @ DQ @ a @ DQ @ '' does not support task execution''))))
     \<and> (registry_get (registry_of ctx) a = Some registration
          \<and> a \<notin> getOrchestratorNames (registry_of ctx)
          \<and> tools registration = Some (t # ts)
          \<and> depth \<ge> maxDelegationDepth ctx \<longrightarrow>
        out = ([], Inr (errorResult a q
          (''Delegation depth limit ('' @ template_number (maxDelegationDepth ctx) @
           '') exceeded. Chain: '' @ join ARROW chain @ ARROW @ a))))
     \<and> (registry_get (registry_of ctx) a = Some registration
          \<and> a \<notin> getOrchestratorNames (registry_of ctx)
          \<and> tools registration = Some (t # ts)
          \<and> depth < maxDelegationDepth ctx
          \<and> chain \<noteq> [] \<and> last chain = a \<longrightarrow>
        out = ([], Inr (errorResult a q
          (''Self-delegation blocked: '' @ DQ @ a @ DQ @ '' cannot delegate to itself''))))
     \<and> (registry_get (registry_of ctx) a = Some registration
          \<and> a \<notin> getOrchestratorNames (registry_of ctx)
          \<and> tools registration = Some (t # ts)
          \<and> depth < maxDelegationDepth ctx
          \<and> \<not> (chain \<noteq> [] \<and> last chain = a) \<and> a \<in> set chain \<longrightarrow>
        out = ([], Inr (errorResult a q
          (''Circular delegation blocked: '' @ join ARROW chain @ ARROW @ a))))
     \<and> (\<not> passes_checks ctx parentCtx a \<longrightarrow> is_error_result a q out \<and> fst out = [])
     \<and> (a \<in> set chain \<longrightarrow> is_error_result a q out)
     \<and> (depth \<ge> maxDelegationDepth ctx \<longrightarrow> is_error_result a q out)"
proof -
  have rej: "\<not> passes_checks ctx parentCtx a \<longrightarrow> is_error_result a q out \<and> fst out = []"
    using executeTask_rejects [of ctx parentCtx a q skills] assms(3) by simp
  have c1: "a \<in> set chain \<longrightarrow> \<not> passes_checks ctx parentCtx a"
    using assms(1) by (simp add: passes_checks_def split: option.splits)
  have c2: "depth \<ge> maxDelegationDepth ctx \<longrightarrow> \<not> passes_checks ctx parentCtx a"
    using assms(2) by (simp add: passes_checks_def split: option.splits)
  have k1: "registry_get (registry_of ctx) a = None \<longrightarrow>
        out = ([], Inr (errorResult a q (''Unknown agent: '' @ a)))"
    by (simp add: assms(3) executeTask_def)
  have k2: "registry_get (registry_of ctx) a \<noteq> None
          \<and> a \<in> getOrchestratorNames (registry_of ctx) \<longrightarrow>
        out = ([], Inr (errorResult a q
          (''Agent '' @ DQ @ a @ DQ @ '' is an orchestrator and cannot be delegated to'')))"
    by (auto simp: assms(3) executeTask_def)
  have k3: "registry_get (registry_of ctx) a = Some registration
          \<and> a \<notin> getOrchestratorNames (registry_of ctx)
          \<and> (tools registration = None \<or> tools registration = Some []) \<longrightarrow>
        out = ([], Inr (errorResult a q
          (''Agent '' @ DQ @ a @ DQ @ '' does not support task execution'')))"
    by (auto simp: assms(3) executeTask_def)
  have k4: "registry_get (registry_of ctx) a = Some registration
          \<and> a \<notin> getOrchestratorNames (registry_of ctx)
          \<and> tools registration = Some (t # ts)
          \<and> depth \<ge> maxDelegationDepth ctx \<longrightarrow>
        out = ([], Inr (errorResult a q
          (''Delegation depth limit ('' @ template_number (maxDelegationDepth ctx) @
           '') exceeded. Chain: '' @ join ARROW chain @ ARROW @ a)))"
    by (simp add: assms executeTask_def Let_def)
  have k5: "registry_get (registry_of ctx) a = Some registration
          \<and> a \<notin> getOrchestratorNames (registry_of ctx)
          \<and> tools registration = Some (t # ts)
          \<and> depth < maxDelegationDepth ctx
          \<and> chain \<noteq> [] \<and> last chain = a \<longrightarrow>
        out = ([], Inr (errorResult a q
          (''Self-delegation blocked: '' @ DQ @ a @ DQ @ '' cannot delegate to itself'')))"
    by (auto simp: assms executeTask_def Let_def)
  have k6: "registry_get (registry_of ctx) a = Some registration
          \<and> a \<notin> getOrchestratorNames (registry_of ctx)
          \<and> tools registration = Some (t # ts)
          \<and> depth < maxDelegationDepth ctx
          \<and> \<not> (chain \<noteq> [] \<and> last chain = a) \<and> a \<in> set chain \<longrightarrow>
        out = ([], Inr (errorResult a q
          (''Circular delegation blocked: '' @ join ARROW chain @ ARROW @ a)))"
    by (auto simp: assms executeTask_def Let_def)
  from rej c1 c2 have k8: "a \<in> set chain \<longrightarrow> is_error_result a q out"
    and k9: "depth \<ge> maxDelegationDepth ctx \<longrightarrow> is_error_result a q out"
    by blast+
  show ?thesis
    by (intro conjI) (rule k1 k2 k3 k4 k5 k6 rej k8 k9)+
qed


theorem executeTask_legality_order_witness:
  "executeTask example_ctx None ''ghost'' ''q'' None =
     ([], Inr (errorResult ''ghost'' ''q'' ''Unknown agent: ghost''))
   \<and> executeTask example_ctx None ''boss'' ''q'' None =
     ([], Inr (errorResult ''boss'' ''q''
        (''Agent '' @ DQ @ ''boss'' @ DQ @ '' is an orchestrator and cannot be delegated to'')))
   \<and> executeTask example_ctx None ''idle'' ''q'' None =
     ([], Inr (errorResult ''idle'' ''q''
        (''Agent '' @ DQ @ ''idle'' @ DQ @ '' does not support task execution'')))
   \<and> executeTask example_ctx (Some (context_of [''a'', ''b'', ''c''])) ''weather'' ''q'' None =
     ([], Inr (errorResult ''weather'' ''q''
        (''Delegation depth limit (3) exceeded. Chain: a'' @ ARROW @ ''b'' @ ARROW @ ''c'' @
         ARROW @ ''weather'')))
   \<and> executeTask example_ctx (Some (context_of [''news'', ''weather''])) ''weather'' ''q'' None =
     ([], Inr (errorResult ''weather'' ''q''
        (''Self-delegation blocked: '' @ DQ @ ''weather'' @ DQ @ '' cannot delegate to itself'')))
   \<and> executeTask example_ctx (Some (context_of [''weather'', ''news''])) ''weather'' ''q'' None =
     ([], Inr (errorResult ''weather'' ''q''
        (''Circular delegation blocked: weather'' @ ARROW @ ''news'' @ ARROW @ ''weather'')))"
proof -
  note ex = example_ctx_def example_registry_def registry_get_def getOrchestratorNames_def
    weather_agent_def boss_agent_def idle_agent_def fragile_agent_def strict_agent_def
    context_of_def parent_chain_def parent_depth_def
  have three: "template_number 3 = ''3''"
    by (simp add: template_number_def digit_char_def)
  have r1: "executeTask example_ctx None ''ghost'' ''q'' None =
     ([], Inr (errorResult ''ghost'' ''q'' ''Unknown agent: ghost''))"
    using executeTask_legality_order [where ctx = example_ctx and parentCtx = None
      and a = "''ghost''" and q = "''q''" and skills = None, OF refl refl refl, THEN conjunct1]
    by (simp add: ex)
  have r2: "executeTask example_ctx None ''boss'' ''q'' None =
     ([], Inr (errorResult ''boss'' ''q''
        (''Agent '' @ DQ @ ''boss'' @ DQ @ '' is an orchestrator and cannot be delegated to'')))"
    using executeTask_legality_order [where ctx = example_ctx and parentCtx = None
      and a = "''boss''" and q = "''q''" and skills = None, OF refl refl refl,
      THEN conjunct2, THEN conjunct1]
    by (simp add: ex)
  have r3: "executeTask example_ctx None ''idle'' ''q'' None =
     ([], Inr (errorResult ''idle'' ''q''
        (''Agent '' @ DQ @ ''idle'' @ DQ @ '' does not support task execution'')))"
    using executeTask_legality_order [where ctx = example_ctx and parentCtx = None
      and a = "''idle''" and q = "''q''" and skills = None and registration = idle_agent,
      OF refl refl refl, THEN conjunct2, THEN conjunct2, THEN conjunct1]
    by (simp add: ex)
  have r4: "executeTask example_ctx (Some (context_of [''a'', ''b'', ''c''])) ''weather'' ''q'' None =
     ([], Inr (errorResult ''weather'' ''q''
        (''Delegation depth limit (3) exceeded. Chain: a'' @ ARROW @ ''b'' @ ARROW @ ''c'' @
         ARROW @ ''weather'')))"
    using executeTask_legality_order [where ctx = example_ctx
      and parentCtx = "Some (context_of [''a'', ''b'', ''c''])"
      and a = "''weather''" and q = "''q''" and skills = None and registration = weather_agent
      and t = "''getWeather''" and ts = "[]", OF refl refl refl,
      THEN conjunct2, THEN conjunct2, THEN conjunct2, THEN conjunct1]
    by (simp add: ex three)
  have r5: "executeTask example_ctx (Some (context_of [''news'', ''weather''])) ''weather'' ''q'' None =
     ([], Inr (errorResult ''weather'' ''q''
        (''Self-delegation blocked: '' @ DQ @ ''weather'' @ DQ @ '' cannot delegate to itself'')))"
    using executeTask_legality_order [where ctx = example_ctx
      and parentCtx = "Some (context_of [''news'', ''weather''])"
      and a = "''weather''" and q = "''q''" and skills = None and registration = weather_agent
      and t = "''getWeather''" and ts = "[]", OF refl refl refl,
      THEN conjunct2, THEN conjunct2, THEN conjunct2, THEN conjunct2, THEN conjunct1]
    by (simp add: ex)
  have r6: "executeTask example_ctx (Some (context_of [''weather'', ''news''])) ''weather'' ''q'' None =
     ([], Inr (errorResult ''weather'' ''q''
        (''Circular delegation blocked: weather'' @ ARROW @ ''news'' @ ARROW @ ''weather'')))"
    using executeTask_legality_order [where ctx = example_ctx
      and parentCtx = "Some (context_of [''weather'', ''news''])"
      and a = "''weather''" and q = "''q''" and skills = None and registration = weather_agent
      and t = "''getWeather''" and ts = "[]", OF refl refl refl,
      THEN conjunct2, THEN conjunct2, THEN conjunct2, THEN conjunct2, THEN conjunct2,
      THEN conjunct1]
    by (simp add: ex)
  show ?thesis
    by (intro conjI) (rule r1 r2 r3 r4 r5 r6)+
qed

subsection \<open>What executeTask throws\<close>














section \<open>The orchestrator\<close>

subsection \<open>The aggregate usage\<close>

lemma plan_totalUsage_fields:
  "inputTokens (plan_totalUsage pu rs su k) =
     sum_list (map inputTokens (pu # subAgentUsages rs @ [su]))"
  "outputTokens (plan_totalUsage pu rs su k) =
     sum_list (map outputTokens (pu # subAgentUsages rs @ [su]))"
  "totalTokens (plan_totalUsage pu rs su k) =
     sum_list (map totalTokens (pu # subAgentUsages rs @ [su]))"
  "cost (plan_totalUsage pu rs su k) = sum_costs (pu # subAgentUsages rs @ [su])"
  "durationMs (plan_totalUsage pu rs su k) = k"
  by (simp_all add: plan_totalUsage_def mergeUsage_inputTokens mergeUsage_outputTokens
      mergeUsage_totalTokens mergeUsage_cost)

lemma approvedPlan_totalUsage_fields:
  "inputTokens (approvedPlan_totalUsage rs su k) =
     sum_list (map inputTokens (subAgentUsages rs @ [su]))"
  "outputTokens (approvedPlan_totalUsage rs su k) =
     sum_list (map outputTokens (subAgentUsages rs @ [su]))"
  "totalTokens (approvedPlan_totalUsage rs su k) =
     sum_list (map totalTokens (subAgentUsages rs @ [su]))"
  "cost (approvedPlan_totalUsage rs su k) = sum_costs (subAgentUsages rs @ [su])"
  "durationMs (approvedPlan_totalUsage rs su k) = k"
  by (simp_all add: approvedPlan_totalUsage_def mergeUsage_inputTokens
      mergeUsage_outputTokens mergeUsage_totalTokens mergeUsage_cost)

lemma executeTask_weather:
  "executeTask example_ctx None ''weather'' ''rain?'' None =
     ([], Inr \<lparr>agent = ''weather'', query = ''rain?'', result = sunny, responseSkills = None\<rparr>)"
  by (simp add: executeTask_def run_delegation_def guarded_invoke_def invoke_agent_def
      agent_invocation_def task_skills_loaded_def no_skills_def
      example_ctx_def example_registry_def registry_get_def getOrchestratorNames_def
      weather_agent_def boss_agent_def idle_agent_def fragile_agent_def strict_agent_def
      parent_chain_def parent_depth_def parent_bus_def delegate_from_def emit_def Let_def)

lemma weather_task_settled:
  "executeTasksSettled example_ctx None [weather_task] =
     [\<lparr>agent = ''weather'', query = ''rain?'', result = sunny, responseSkills = None\<rparr>]"
  using executeTask_weather
  by (simp add: executeTasksSettled_def settled_def weather_task_def)

lemma one_task_plan_tasks: "collectTasksFromSteps (steps one_task_plan) = [weather_task]"
  by (simp add: collectTasksFromSteps_def one_task_plan_def task_of_call_def weather_task_def
      TOOL_CREATE_TASK_def)

lemma example_routable: "getRoutableAgents example_ctx None \<noteq> []"
  by (simp add: getRoutableAgents_def example_ctx_def example_registry_def
      getOrchestratorNames_def weather_agent_def boss_agent_def idle_agent_def
      fragile_agent_def strict_agent_def)

subsection \<open>The usage a handler reports\<close>

lemma sums_stages_mergeUsage: "sums_stages (mergeUsage us) us"
  by (simp add: sums_stages_def mergeUsage_inputTokens mergeUsage_outputTokens
      mergeUsage_totalTokens mergeUsage_cost)

lemma sums_stages_elapsed: "sums_stages (u\<lparr>durationMs := k\<rparr>) us = sums_stages u us"
  by (simp add: sums_stages_def)

lemma json_execute_tasks_usage:
  assumes "json_execute_tasks env parentCtx body tasks first_usage = Inr out"
  shows "\<exists>su sys prompt stext. synthesis_json env sys prompt = Inr (stext, su)
           \<and> json_usage out =
               (mergeUsage ((case first_usage of None \<Rightarrow> [] | Some pu \<Rightarrow> [pu]) @
                   subAgentUsages (executeTasksSettled (plugin env) parentCtx tasks) @ [su]))
                 \<lparr>durationMs := clock env\<rparr>"
proof -
  define results where "results = executeTasksSettled (plugin env) parentCtx tasks"
  obtain stext su where
    syn: "synthesizeJson env (taskResultsToSources results) (body_message body)
            (collectResponseSkills results) = Inr (stext, su)"
    using assms
    by (cases "synthesizeJson env (taskResultsToSources results) (body_message body)
            (collectResponseSkills results)")
       (auto simp: json_execute_tasks_def Let_def results_def)
  then obtain sys prompt where call: "synthesis_json env sys prompt = Inr (stext, su)"
    by (auto simp: synthesizeJson_def split: sum.splits)
  have "json_usage out =
      (mergeUsage ((case first_usage of None \<Rightarrow> [] | Some pu \<Rightarrow> [pu]) @
                   subAgentUsages results @ [su]))\<lparr>durationMs := clock env\<rparr>"
    using assms syn
    by (cases first_usage)
       (auto simp: json_execute_tasks_def Let_def results_def approvedPlan_totalUsage_def
          plan_totalUsage_def)
  with call show ?thesis unfolding results_def by blast
qed

lemma json_direct_usage:
  "json_usage (json_direct env body res) =
     (if routed_usages res \<noteq> [] then mergeUsage (plan_usage res # routed_usages res)
      else plan_usage res)"
  by (simp add: json_direct_def Let_def routed_usages_def routed_results_def)

lemma json_approved:
  assumes "buildJsonHandler env parentCtx allowedAgents d body = Inr out"
    and "approved_tasks body = Some plan"
  shows "\<exists>su sys prompt stext. synthesis_json env sys prompt = Inr (stext, su)
      \<and> sums_stages (json_usage out)
           (subAgentUsages (executeTasksSettled (plugin env) parentCtx plan) @ [su])
      \<and> durationMs (json_usage out) = clock env"
proof -
  have "json_execute_tasks env parentCtx body plan None = Inr out"
    using assms by (simp add: buildJsonHandler_def Let_def)
  from json_execute_tasks_usage [OF this] obtain su sys prompt stext where
    call: "synthesis_json env sys prompt = Inr (stext, su)"
    and u: "json_usage out =
      (mergeUsage (subAgentUsages (executeTasksSettled (plugin env) parentCtx plan) @ [su]))
        \<lparr>durationMs := clock env\<rparr>"
    by auto
  have "sums_stages (json_usage out)
           (subAgentUsages (executeTasksSettled (plugin env) parentCtx plan) @ [su])"
    and "durationMs (json_usage out) = clock env"
    by (simp_all add: u sums_stages_elapsed sums_stages_mergeUsage)
  with call show ?thesis by blast
qed

lemma json_planned:
  assumes "buildJsonHandler env parentCtx allowedAgents d body = Inr out"
    and "approved_tasks body = None" "planning env = Inr res"
    and "collectTasksFromSteps (steps res) = tasks" "tasks \<noteq> []"
  shows "\<exists>su sys prompt stext. synthesis_json env sys prompt = Inr (stext, su)
      \<and> sums_stages (json_usage out)
           (plan_usage res # subAgentUsages (executeTasksSettled (plugin env) parentCtx tasks) @ [su])
      \<and> durationMs (json_usage out) = clock env"
proof -
  have "json_execute_tasks env parentCtx body tasks (Some (plan_usage res)) = Inr out"
    using assms
    by (auto simp: buildJsonHandler_def Let_def split: sum.splits if_splits)
  from json_execute_tasks_usage [OF this] obtain su sys prompt stext where
    call: "synthesis_json env sys prompt = Inr (stext, su)"
    and u: "json_usage out =
      (mergeUsage (plan_usage res #
         subAgentUsages (executeTasksSettled (plugin env) parentCtx tasks) @ [su]))
        \<lparr>durationMs := clock env\<rparr>"
    by auto
  have "sums_stages (json_usage out)
           (plan_usage res #
            subAgentUsages (executeTasksSettled (plugin env) parentCtx tasks) @ [su])"
    and "durationMs (json_usage out) = clock env"
    by (simp_all add: u sums_stages_elapsed sums_stages_mergeUsage)
  with call show ?thesis by blast
qed

lemma json_routed:
  assumes "buildJsonHandler env parentCtx allowedAgents d body = Inr out"
    and "approved_tasks body = None" "planning env = Inr res"
    and "collectTasksFromSteps (steps res) = []" "routed_usages res \<noteq> []"
  shows "sums_stages (json_usage out) (plan_usage res # routed_usages res)
      \<and> durationMs (json_usage out) = max_duration (plan_usage res # routed_usages res)"
proof -
  have "out = json_direct env body res"
    using assms
    by (auto simp: buildJsonHandler_def Let_def split: sum.splits if_splits)
  then show ?thesis
    using assms(5) by (simp add: json_direct_usage sums_stages_mergeUsage mergeUsage_durationMs)
qed


lemma synthesizeStreaming_no_done:
  "Done p \<notin> set (fst (synthesizeStreaming env sources msg skills an))"
  by (auto simp: synthesizeStreaming_def Let_def split: sum.splits)

lemma synthesizeStreaming_usage:
  assumes "snd (synthesizeStreaming env sources msg skills an) = Inr (ftext, su)"
  shows "\<exists>sys prompt. snd (synthesis_stream env sys prompt) = Inr su"
  using assms
  by (auto simp: synthesizeStreaming_def Let_def split: sum.splits)

lemma with_catch_done:
  "Done p \<in> set (with_catch env convId tried) \<Longrightarrow> Done p \<in> set (fst tried)"
  by (auto simp: with_catch_def on_error_def catch_block_def split: option.splits if_splits)

lemma sse_execute_tasks_done:
  assumes "Done p \<in> set (fst (sse_execute_tasks env parentCtx body an convId tasks
                                 first_usage written))"
    and "\<And>q. Done q \<notin> set written"
  shows "\<exists>su sys prompt. snd (synthesis_stream env sys prompt) = Inr su
           \<and> done_usage p =
               (mergeUsage ((case first_usage of None \<Rightarrow> [] | Some pu \<Rightarrow> [pu]) @
                   subAgentUsages
                     (executeTasksSettled (plugin env) (Some (delCtx parentCtx)) tasks) @ [su]))
                 \<lparr>durationMs := clock env\<rparr>"
proof -
  define results where
    "results = executeTasksSettled (plugin env) (Some (delCtx parentCtx)) tasks"
  define synth where
    "synth = synthesizeStreaming env (taskResultsToSources results) (body_message body)
               (collectResponseSkills results) an"
  have nd: "Done p \<notin> set (fst synth)"
    unfolding synth_def by (rule synthesizeStreaming_no_done)
  show ?thesis
  proof (cases "snd synth")
    case (Inl err)
    then have "fst (sse_execute_tasks env parentCtx body an convId tasks first_usage written) =
        written @ fst synth"
      by (simp add: sse_execute_tasks_def Let_def results_def synth_def)
    with assms nd show ?thesis by simp
  next
    case (Inr got)
    obtain ftext su where got: "got = (ftext, su)" by (cases got)
    from synthesizeStreaming_usage [of env _ _ _ an ftext su] Inr got
    obtain sys prompt where call: "snd (synthesis_stream env sys prompt) = Inr su"
      unfolding synth_def by blast
    show ?thesis
    proof (cases "saveAssistantResponse env body ftext")
      case (Some err)
      then have "fst (sse_execute_tasks env parentCtx body an convId tasks first_usage written) =
          written @ fst synth"
        using Inr got by (simp add: sse_execute_tasks_def Let_def results_def synth_def)
      with assms nd show ?thesis by simp
    next
      case None
      then have "fst (sse_execute_tasks env parentCtx body an convId tasks first_usage written) =
          written @ fst synth @
          [SseAgentEnd an,
           Done \<lparr>done_toolsUsed = tools_of_results results,
                 done_conversationId = convId,
                 done_awaitingApproval = False,
                 done_awaitingResponse = False,
                 done_plan = None,
                 done_tasks = Some (task_summaries results),
                 done_usage =
                   (case first_usage of
                      None \<Rightarrow> approvedPlan_totalUsage results su (clock env)
                    | Some pu \<Rightarrow> plan_totalUsage pu results su (clock env))\<rparr>]"
        using Inr got
        by (simp add: sse_execute_tasks_def Let_def results_def synth_def
            split: option.splits)
      with assms nd have "done_usage p =
          (case first_usage of
             None \<Rightarrow> approvedPlan_totalUsage results su (clock env)
           | Some pu \<Rightarrow> plan_totalUsage pu results su (clock env))"
        by auto
      then have "done_usage p =
          (mergeUsage ((case first_usage of None \<Rightarrow> [] | Some pu \<Rightarrow> [pu]) @
                       subAgentUsages results @ [su]))\<lparr>durationMs := clock env\<rparr>"
        by (simp add: approvedPlan_totalUsage_def plan_totalUsage_def split: option.splits)
      with call show ?thesis unfolding results_def by blast
    qed
  qed
qed

lemma routed_usages_outputs:
  "List.map_filter (\<lambda>opt. case opt of None \<Rightarrow> None | Some ro \<Rightarrow> usage (out_result ro))
     (map res_output (routed_results res)) = routed_usages res"
  by (simp add: routed_usages_def List.map_filter_def filter_map comp_def)

lemma sse_direct_done:
  assumes "Done p \<in> set (fst (sse_direct env body an convId res written))"
    and "\<And>q. Done q \<notin> set written"
    and "routed_results res \<noteq> []"
  shows "\<exists>su sys prompt. snd (synthesis_stream env sys prompt) = Inr su
           \<and> done_usage p =
               (mergeUsage (plan_usage res # routed_usages res @ [su]))
                 \<lparr>durationMs := clock env\<rparr>"
proof -
  define outs where "outs = map res_output (routed_results res)"
  define synth where
    "synth = synthesizeStreaming env
       (map (\<lambda>(i, opt).
            \<lparr>label = ''Result '' @ decimal (i + 1),
             source_response =
               (case opt of None \<Rightarrow> [] | Some ro \<Rightarrow> response (out_result ro))\<rparr>)
          (enumerate 0 outs))
       (body_message body)
       (new_Set (concat (map
          (\<lambda>opt. case opt of None \<Rightarrow> [] | Some ro \<Rightarrow> out_responseSkills ro) outs)))
       an"
  have ne: "outs \<noteq> []" using assms(3) by (simp add: outs_def)
  have nd: "Done p \<notin> set (fst synth)"
    unfolding synth_def by (rule synthesizeStreaming_no_done)
  have outs: "map res_output
            (filter (\<lambda>tr. res_toolName tr = TOOL_ROUTE_TO_AGENT)
               (concat (map toolResults (steps res)))) = outs"
    by (simp add: outs_def routed_results_def)
  show ?thesis
  proof (cases "snd synth")
    case (Inl err)
    then have "fst (sse_direct env body an convId res written) = written @ fst synth"
      unfolding sse_direct_def Let_def outs synth_def [symmetric] using ne by simp
    with assms nd show ?thesis by simp
  next
    case (Inr got)
    obtain ftext su where got: "got = (ftext, su)" by (cases got)
    from synthesizeStreaming_usage [of env _ _ _ an ftext su] Inr got
    obtain sys prompt where call: "snd (synthesis_stream env sys prompt) = Inr su"
      unfolding synth_def by blast
    show ?thesis
    proof (cases "saveAssistantResponse env body ftext")
      case (Some err)
      then have "fst (sse_direct env body an convId res written) = written @ fst synth"
        unfolding sse_direct_def Let_def outs synth_def [symmetric] using ne Inr got by simp
      with assms nd show ?thesis by simp
    next
      case None
      then have "\<exists>tu. fst (sse_direct env body an convId res written) =
          written @ fst synth @
          [SseAgentEnd an,
           Done \<lparr>done_toolsUsed = tu,
                 done_conversationId = convId,
                 done_awaitingApproval = False,
                 done_awaitingResponse = False,
                 done_plan = None, done_tasks = None,
                 done_usage =
                   (mergeUsage (plan_usage res #
                      List.map_filter
                        (\<lambda>opt. case opt of None \<Rightarrow> None | Some ro \<Rightarrow> usage (out_result ro))
                        outs @ [su]))\<lparr>durationMs := clock env\<rparr>\<rparr>]"
        unfolding sse_direct_def Let_def outs synth_def [symmetric] using ne Inr got by simp
      with assms nd have "done_usage p =
          (mergeUsage (plan_usage res #
             List.map_filter
               (\<lambda>opt. case opt of None \<Rightarrow> None | Some ro \<Rightarrow> usage (out_result ro))
               outs @ [su]))\<lparr>durationMs := clock env\<rparr>"
        by auto
      then have "done_usage p =
          (mergeUsage (plan_usage res # routed_usages res @ [su]))\<lparr>durationMs := clock env\<rparr>"
        by (simp add: outs_def routed_usages_outputs)
      with call show ?thesis by blast
    qed
  qed
qed


subsection \<open>Task plans: approval and execution\<close>

text \<open>
  \<^verbatim>\<open>executeTasksSettled\<close> gives one result per task, each that of its own
  \<^verbatim>\<open>executeTask\<close>: a task that fails, by an error result or by a throw, leaves the
  results of its siblings as they are.
\<close>

lemma executeTasksSettled_isolated:
  "length (executeTasksSettled ctx parentCtx tasks) = length tasks"
  "i < length tasks \<Longrightarrow>
     executeTasksSettled ctx parentCtx tasks ! i =
       settled (tasks ! i)
         (snd (executeTask ctx parentCtx (task_agent (tasks ! i)) (task_query (tasks ! i))
                 (task_skills (tasks ! i))))"
  by (simp_all add: executeTasksSettled_def)

text \<open>
  The streaming handler with a fresh plan: in non-autonomous mode the plan is written
  and the request ends awaiting approval, no task is executed; in autonomous mode the
  tasks are executed.
\<close>

lemma sse_plan_awaits_approval:
  assumes "planning env = Inr res" "clarifying_output res = None"
    and "collectTasksFromSteps (steps res) = tasks" "tasks \<noteq> []"
  shows "sse_try_body env parentCtx body an convId False =
     ([SseAgentStart an, SseStatus ''thinking'' ''Analyzing query and routing'' an,
       SseStatus ''planning'' ''Building task plan'' an, AgentPlan tasks,
       SseAgentEnd an,
       Done \<lparr>done_toolsUsed = [TOOL_CREATE_TASK], done_conversationId = convId,
             done_awaitingApproval = True, done_awaitingResponse = False,
             done_plan = Some tasks, done_tasks = None,
             done_usage = (plan_usage res)\<lparr>durationMs := clock env\<rparr>\<rparr>], None)"
  using assms by (simp add: sse_try_body_def Let_def)

lemma sse_plan_autonomous_executes:
  assumes "planning env = Inr res"
    and "collectTasksFromSteps (steps res) = tasks" "tasks \<noteq> []"
  shows "sse_try_body env parentCtx body an convId True =
     sse_execute_tasks env parentCtx body an convId tasks (Some (plan_usage res))
       [SseAgentStart an, SseStatus ''thinking'' ''Analyzing query and routing'' an,
        SseStatus ''planning'' ''Building task plan'' an, AgentPlan tasks,
        SseStatus ''executing-tasks'' ''Executing parallel tasks'' an]"
  using assms by (simp add: sse_try_body_def Let_def)

lemma buildSseHandler_events:
  assumes "buildSseHandler env parentCtx an allowedAgents d body = Inr evs"
  shows "approved_tasks body = Some plan \<Longrightarrow>
           evs = SessionStart (generateConversationId env (body_conversationId body)) #
                 with_catch env (generateConversationId env (body_conversationId body))
                   (sse_execute_tasks env parentCtx body an
                      (generateConversationId env (body_conversationId body)) plan None
                      [SseAgentStart an,
                       SseStatus ''executing-tasks'' ''Executing approved plan tasks'' an])"
    and "approved_tasks body = None \<Longrightarrow>
           evs = SessionStart (generateConversationId env (body_conversationId body)) #
                 with_catch env (generateConversationId env (body_conversationId body))
                   (sse_try_body env parentCtx body an
                      (generateConversationId env (body_conversationId body))
                      (autonomous_mode d body))"
  using assms
  by (auto simp: buildSseHandler_def Let_def autonomous_mode_def
      split: sum.splits option.splits if_splits)

lemma sse_direct_branch:
  assumes "planning env = Inr res"
    and "autonomous \<or> clarifying_output res = None"
    and "collectTasksFromSteps (steps res) = []"
  shows "sse_try_body env parentCtx body an convId autonomous =
     sse_direct env body an convId res
       [SseAgentStart an, SseStatus ''thinking'' ''Analyzing query and routing'' an]"
  using assms by (auto simp: sse_try_body_def Let_def)

lemma sse_clarification_branch:
  assumes "planning env = Inr res" "\<not> autonomous"
    and "clarifying_output res = Some (its, ro)"
  shows "sse_try_body env parentCtx body an convId autonomous =
     ([SseAgentStart an, SseStatus ''thinking'' ''Analyzing query and routing'' an,
       AskUser its (routed_agent res),
       SseAgentEnd an,
       Done \<lparr>done_toolsUsed = [TOOL_ROUTE_TO_AGENT],
             done_conversationId = convId,
             done_awaitingApproval = False,
             done_awaitingResponse = True,
             done_plan = None, done_tasks = None,
             done_usage =
               (case usage (out_result ro) of
                  Some subAgentUsage \<Rightarrow> mergeUsage [plan_usage res, subAgentUsage]
                | None \<Rightarrow> plan_usage res)\<lparr>durationMs := clock env\<rparr>\<rparr>], None)"
  using assms by (simp add: sse_try_body_def Let_def)

lemma sse_approved:
  assumes "buildSseHandler env parentCtx an allowedAgents d body = Inr evs"
    and "Done p \<in> set evs" "approved_tasks body = Some plan"
  shows "\<exists>su sys prompt. snd (synthesis_stream env sys prompt) = Inr su
      \<and> sums_stages (done_usage p)
           (subAgentUsages
              (executeTasksSettled (plugin env) (Some (delCtx parentCtx)) plan) @ [su])
      \<and> durationMs (done_usage p) = clock env"
proof -
  have "Done p \<in> set (fst (sse_execute_tasks env parentCtx body an
                      (generateConversationId env (body_conversationId body)) plan None
                      [SseAgentStart an,
                       SseStatus ''executing-tasks'' ''Executing approved plan tasks'' an]))"
    using assms(2) buildSseHandler_events(1) [OF assms(1,3)] with_catch_done by fastforce
  from sse_execute_tasks_done [OF this] obtain su sys prompt where
    call: "snd (synthesis_stream env sys prompt) = Inr su"
    and u: "done_usage p =
      (mergeUsage (subAgentUsages
          (executeTasksSettled (plugin env) (Some (delCtx parentCtx)) plan) @ [su]))
        \<lparr>durationMs := clock env\<rparr>"
    by auto
  have "sums_stages (done_usage p)
           (subAgentUsages
              (executeTasksSettled (plugin env) (Some (delCtx parentCtx)) plan) @ [su])"
    and "durationMs (done_usage p) = clock env"
    by (simp_all add: u sums_stages_elapsed sums_stages_mergeUsage)
  with call show ?thesis by blast
qed

lemma sse_planned:
  assumes "buildSseHandler env parentCtx an allowedAgents d body = Inr evs"
    and "Done p \<in> set evs" "approved_tasks body = None"
    and "planning env = Inr res" "autonomous_mode d body"
    and "collectTasksFromSteps (steps res) = tasks" "tasks \<noteq> []"
  shows "\<exists>su sys prompt. snd (synthesis_stream env sys prompt) = Inr su
      \<and> sums_stages (done_usage p)
           (plan_usage res #
            subAgentUsages
              (executeTasksSettled (plugin env) (Some (delCtx parentCtx)) tasks) @ [su])
      \<and> durationMs (done_usage p) = clock env"
proof -
  define convId where "convId = generateConversationId env (body_conversationId body)"
  have "Done p \<in> set (fst (sse_try_body env parentCtx body an convId True))"
    using assms(2,5) buildSseHandler_events(2) [OF assms(1,3)] with_catch_done
    unfolding convId_def by fastforce
  then have "Done p \<in> set (fst (sse_execute_tasks env parentCtx body an convId tasks
       (Some (plan_usage res))
       [SseAgentStart an, SseStatus ''thinking'' ''Analyzing query and routing'' an,
        SseStatus ''planning'' ''Building task plan'' an, AgentPlan tasks,
        SseStatus ''executing-tasks'' ''Executing parallel tasks'' an]))"
    by (simp add: sse_plan_autonomous_executes [OF assms(4,6,7)])
  from sse_execute_tasks_done [OF this] obtain su sys prompt where
    call: "snd (synthesis_stream env sys prompt) = Inr su"
    and u: "done_usage p =
      (mergeUsage (plan_usage res # subAgentUsages
          (executeTasksSettled (plugin env) (Some (delCtx parentCtx)) tasks) @ [su]))
        \<lparr>durationMs := clock env\<rparr>"
    by auto
  have "sums_stages (done_usage p)
           (plan_usage res # subAgentUsages
              (executeTasksSettled (plugin env) (Some (delCtx parentCtx)) tasks) @ [su])"
    and "durationMs (done_usage p) = clock env"
    by (simp_all add: u sums_stages_elapsed sums_stages_mergeUsage)
  with call show ?thesis by blast
qed

lemma sse_routed:
  assumes "buildSseHandler env parentCtx an allowedAgents d body = Inr evs"
    and "Done p \<in> set evs" "approved_tasks body = None"
    and "planning env = Inr res"
    and "autonomous_mode d body \<or> clarifying_output res = None"
    and "collectTasksFromSteps (steps res) = []" "routed_results res \<noteq> []"
  shows "\<exists>su sys prompt. snd (synthesis_stream env sys prompt) = Inr su
      \<and> sums_stages (done_usage p) (plan_usage res # routed_usages res @ [su])
      \<and> durationMs (done_usage p) = clock env"
proof -
  define convId where "convId = generateConversationId env (body_conversationId body)"
  have "Done p \<in> set (fst (sse_try_body env parentCtx body an convId (autonomous_mode d body)))"
    using assms(2) buildSseHandler_events(2) [OF assms(1,3)] with_catch_done
    unfolding convId_def by fastforce
  then have "Done p \<in> set (fst (sse_direct env body an convId res
       [SseAgentStart an, SseStatus ''thinking'' ''Analyzing query and routing'' an]))"
    by (simp add: sse_direct_branch [OF assms(4,5,6)])
  from sse_direct_done [OF this _ assms(7)] obtain su sys prompt where
    call: "snd (synthesis_stream env sys prompt) = Inr su"
    and u: "done_usage p =
      (mergeUsage (plan_usage res # routed_usages res @ [su]))\<lparr>durationMs := clock env\<rparr>"
    by auto
  have "sums_stages (done_usage p) (plan_usage res # routed_usages res @ [su])"
    and "durationMs (done_usage p) = clock env"
    by (simp_all add: u sums_stages_elapsed sums_stages_mergeUsage)
  with call show ?thesis by blast
qed

lemma sse_clarification:
  assumes "buildSseHandler env parentCtx an allowedAgents d body = Inr evs"
    and "Done p \<in> set evs" "approved_tasks body = None"
    and "planning env = Inr res" "\<not> autonomous_mode d body"
    and "clarifying_output res = Some (its, ro)" "usage (out_result ro) = Some sub"
  shows "sums_stages (done_usage p) [plan_usage res, sub]
      \<and> durationMs (done_usage p) = clock env"
proof -
  define convId where "convId = generateConversationId env (body_conversationId body)"
  have "Done p \<in> set (fst (sse_try_body env parentCtx body an convId (autonomous_mode d body)))"
    using assms(2) buildSseHandler_events(2) [OF assms(1,3)] with_catch_done
    unfolding convId_def by fastforce
  then have "done_usage p = (mergeUsage [plan_usage res, sub])\<lparr>durationMs := clock env\<rparr>"
    by (auto simp: sse_clarification_branch [OF assms(4,5,6)] assms(7))
  then show ?thesis
    by (simp add: sums_stages_elapsed sums_stages_mergeUsage)
qed

(*C7HERE*)

text \<open>
  The JSON handler does not read the mode: its response is the same whatever
  \<^verbatim>\<open>autonomous\<close> the request carries and whatever the default is.
\<close>

lemma json_handler_mode_blind:
  "buildJsonHandler env parentCtx allowedAgents d (body\<lparr>body_autonomous := m\<rparr>) =
   buildJsonHandler env parentCtx allowedAgents d' body"
proof -
  have a: "approved_tasks (body\<lparr>body_autonomous := m\<rparr>) = approved_tasks body"
    by (simp add: approved_tasks_def)
  have b: "json_execute_tasks env parentCtx (body\<lparr>body_autonomous := m\<rparr>) ts fu =
      json_execute_tasks env parentCtx body ts fu" for ts fu
    by (simp add: json_execute_tasks_def Let_def split: sum.splits prod.splits)
  have c: "json_direct env (body\<lparr>body_autonomous := m\<rparr>) res = json_direct env body res"
    for res
    by (simp add: json_direct_def Let_def)
  show ?thesis
    unfolding buildJsonHandler_def Let_def a b c ..
qed

text \<open>
  C3. When the planning step declares tasks, non-autonomous mode returns the plan for
  approval and does not execute it, and this holds for the streaming and for the JSON
  handler. The JSON handler breaks it: for the request \<open>ask_first\<close>
  (\<^verbatim>\<open>autonomous: false\<close>) and a planning result that declares one task, it executes the
  task and answers with the synthesized text, while the streaming handler, on the same
  input, writes the plan and ends with \<^verbatim>\<open>awaitingApproval\<close>.
\<close>

theorem json_handler_ignores_autonomous:
  "buildJsonHandler example_env None None True ask_first =
     Inr \<lparr>json_response = ''It is sunny.'',
          json_toolsUsed = [''getWeather''],
          json_agentsUsed = Some [''weather''],
          json_tasks = Some [\<lparr>sum_agent = ''weather'', sum_query = ''rain?'',
                              sum_summary = ''sunny''\<rparr>],
          json_conversationId = ''conv_1'',
          json_usage = \<lparr>inputTokens = 150, outputTokens = 55, totalTokens = 205,
                         cost = Some (Finite (3 / 4)), durationMs = 75\<rparr>\<rparr>
   \<and> buildSseHandler example_env None ''boss'' None True ask_first =
     Inr [SessionStart ''conv_1'',
          SseAgentStart ''boss'',
          SseStatus ''thinking'' ''Analyzing query and routing'' ''boss'',
          SseStatus ''planning'' ''Building task plan'' ''boss'',
          AgentPlan [weather_task],
          SseAgentEnd ''boss'',
          Done \<lparr>done_toolsUsed = [''createTask''], done_conversationId = ''conv_1'',
                done_awaitingApproval = True, done_awaitingResponse = False,
                done_plan = Some [weather_task], done_tasks = None,
                done_usage = planning_usage\<lparr>durationMs := 75\<rparr>\<rparr>]"
proof -
  have env: "plugin example_env = example_ctx" "planning example_env = Inr one_task_plan"
    "system_prompt example_env = Inr ''You route queries.''" "clock example_env = 75"
    "fresh_id example_env = ''conv_1''" "signal_aborted example_env = False"
    "synthesis_json example_env = (\<lambda>sys p. Inr (''It is sunny.'', synthesis_usage))"
    by (simp_all add: example_env_def)
  have body: "approved_tasks ask_first = None" "body_autonomous ask_first = Some False"
    "body_conversationId ask_first = None" "body_message ask_first = ''Will it rain?''"
    by (simp_all add: ask_first_def approved_tasks_def)
  have noskills: "buildSynthesisContext example_ctx [] = Inr None"
    by (simp add: buildSynthesisContext_def)
  have plan: "plan_usage one_task_plan = planning_usage"
    "clarifying_output one_task_plan = None"
    by (simp_all add: one_task_plan_def clarifying_output_def List.map_filter_simps)
  let ?r = "\<lparr>agent = ''weather'', query = ''rain?'', result = sunny, responseSkills = None\<rparr>"
  have res: "collectResponseSkills [?r] = []" "tools_of_results [?r] = [''getWeather'']"
    "task_summaries [?r] = [\<lparr>sum_agent = ''weather'', sum_query = ''rain?'',
                              sum_summary = ''sunny''\<rparr>]"
    "subAgentUsages [?r] = [\<lparr>inputTokens = 10, outputTokens = 5, totalTokens = 15,
                               cost = None, durationMs = 20\<rparr>]"
    by (simp_all add: collectResponseSkills_def new_Set_def tools_of_results_def
        task_summaries_def subAgentUsages_def List.map_filter_simps sunny_def
        SUMMARY_LENGTH_LIMIT_def js_slice_ascii)
  have total: "plan_totalUsage planning_usage [?r] synthesis_usage 75 =
      \<lparr>inputTokens = 150, outputTokens = 55, totalTokens = 205,
       cost = Some (Finite (3 / 4)), durationMs = 75\<rparr>"
    by (simp add: plan_totalUsage_def res mergeUsage_def merge_step_def merged_init_def
        planning_usage_def synthesis_usage_def double_half double_three_quarters)
  have exec: "json_execute_tasks example_env None ask_first [weather_task]
                (Some planning_usage) =
     Inr \<lparr>json_response = ''It is sunny.'',
          json_toolsUsed = [''getWeather''],
          json_agentsUsed = Some [''weather''],
          json_tasks = Some [\<lparr>sum_agent = ''weather'', sum_query = ''rain?'',
                              sum_summary = ''sunny''\<rparr>],
          json_conversationId = ''conv_1'',
          json_usage = \<lparr>inputTokens = 150, outputTokens = 55, totalTokens = 205,
                         cost = Some (Finite (3 / 4)), durationMs = 75\<rparr>\<rparr>"
    by (simp add: json_execute_tasks_def env body weather_task_settled res total
        synthesizeJson_def noskills generateConversationId_def new_Set_def Let_def)
  have json: "buildJsonHandler example_env None None True ask_first =
     Inr \<lparr>json_response = ''It is sunny.'',
          json_toolsUsed = [''getWeather''],
          json_agentsUsed = Some [''weather''],
          json_tasks = Some [\<lparr>sum_agent = ''weather'', sum_query = ''rain?'',
                              sum_summary = ''sunny''\<rparr>],
          json_conversationId = ''conv_1'',
          json_usage = \<lparr>inputTokens = 150, outputTokens = 55, totalTokens = 205,
                         cost = Some (Finite (3 / 4)), durationMs = 75\<rparr>\<rparr>"
    by (simp add: buildJsonHandler_def env body example_routable one_task_plan_tasks
        plan exec Let_def)
  have tried: "sse_try_body example_env None ask_first ''boss'' ''conv_1'' False =
     ([SseAgentStart ''boss'',
       SseStatus ''thinking'' ''Analyzing query and routing'' ''boss'',
       SseStatus ''planning'' ''Building task plan'' ''boss'',
       AgentPlan [weather_task],
       SseAgentEnd ''boss'',
       Done \<lparr>done_toolsUsed = [''createTask''], done_conversationId = ''conv_1'',
             done_awaitingApproval = True, done_awaitingResponse = False,
             done_plan = Some [weather_task], done_tasks = None,
             done_usage = planning_usage\<lparr>durationMs := 75\<rparr>\<rparr>], None)"
    by (simp add: sse_try_body_def Let_def env plan one_task_plan_tasks TOOL_CREATE_TASK_def)
  have sse: "buildSseHandler example_env None ''boss'' None True ask_first =
     Inr [SessionStart ''conv_1'',
          SseAgentStart ''boss'',
          SseStatus ''thinking'' ''Analyzing query and routing'' ''boss'',
          SseStatus ''planning'' ''Building task plan'' ''boss'',
          AgentPlan [weather_task],
          SseAgentEnd ''boss'',
          Done \<lparr>done_toolsUsed = [''createTask''], done_conversationId = ''conv_1'',
                done_awaitingApproval = True, done_awaitingResponse = False,
                done_plan = Some [weather_task], done_tasks = None,
                done_usage = planning_usage\<lparr>durationMs := 75\<rparr>\<rparr>]"
    by (simp add: buildSseHandler_def Let_def env body generateConversationId_def
        example_routable tried with_catch_def)
  show ?thesis using json sse by (rule conjI)
qed

section \<open>The resilience wrapper\<close>

declare attempts.simps [simp del]

declare toLowerCase.simps [simp del]

lemma status_verdict_cases:
  "st \<in> RETRYABLE_STATUS_CODES \<Longrightarrow> status_verdict st = Some True"
  "st \<in> NON_RETRYABLE_STATUS_CODES \<Longrightarrow> status_verdict st = Some False"
  by (auto simp: status_verdict_def RETRYABLE_STATUS_CODES_def NON_RETRYABLE_STATUS_CODES_def)

lemma isRetryableError_abort:
  "err_name e = ''AbortError'' \<Longrightarrow> \<not> isRetryableError (ErrorObj e)"
  by simp

lemma isRetryableError_message_status:
  assumes "statusMatch (toLowerCase (err_message e)) = Some st"
  shows "err_name e \<noteq> ''AbortError'' \<Longrightarrow> st \<in> RETRYABLE_STATUS_CODES \<Longrightarrow>
           isRetryableError (ErrorObj e)"
    and "st \<in> NON_RETRYABLE_STATUS_CODES \<Longrightarrow> \<not> isRetryableError (ErrorObj e)"
  using assms by (simp_all add: status_verdict_cases Let_def)

lemma isRetryableError_property_status:
  assumes "message_undecided e" "statusProp e = Some st"
  shows "err_name e \<noteq> ''AbortError'' \<Longrightarrow> st \<in> RETRYABLE_STATUS_CODES \<Longrightarrow>
           isRetryableError (ErrorObj e)"
    and "st \<in> NON_RETRYABLE_STATUS_CODES \<Longrightarrow> \<not> isRetryableError (ErrorObj e)"
  using assms by (simp_all add: status_verdict_cases message_undecided_def Let_def)

lemma isRetryableError_markers:
  assumes "err_name e \<noteq> ''AbortError''" "message_undecided e" "property_undecided e"
  shows "isRetryableError (ErrorObj e) = has_marker (toLowerCase (err_message e))"
  using assms by (simp add: message_undecided_def property_undecided_def Let_def)

lemma retryable_not_abort:
  "isRetryableError (ErrorObj e) \<Longrightarrow> err_name e \<noteq> ''AbortError''"
  by auto

lemma attempts_fail_fast:
  assumes "call w k = Inl err" "\<not> isRetryableError (ErrorObj (as_Error err))"
  shows "attempts w k left = (k + 1, Inr (Inl (ErrorObj (as_Error err))))"
  using assms by (simp add: attempts.simps [of w k left] Let_def del: isRetryableError.simps)

lemma attempts_value:
  assumes "call w k = Inr v"
  shows "attempts w k left = (k + 1, Inr (Inr v))"
  using assms by (simp add: attempts.simps [of w k left])

lemma attempts_retry:
  assumes "retryable_failure w k"
  shows "attempts w k (Suc left) = attempts w (k + 1) left"
    and "attempts w k 0 = (k + 1, Inl (as_Error (case call w k of Inl err \<Rightarrow> err)))"
  using assms retryable_not_abort [of "as_Error (case call w k of Inl err \<Rightarrow> err)"]
  by (auto simp: retryable_failure_def attempts.simps [of w k] Let_def
      simp del: isRetryableError.simps split: sum.splits)

lemma attempts_exhausted:
  "(\<And>j. k \<le> j \<Longrightarrow> j \<le> k + left \<Longrightarrow> retryable_failure w j) \<Longrightarrow>
   attempts w k left = (k + left + 1, Inl (as_Error (case call w (k + left) of Inl err \<Rightarrow> err)))"
proof (induction left arbitrary: k)
  case 0
  then show ?case using attempts_retry(2) [of w k] by simp
next
  case (Suc left)
  have "retryable_failure w k" using Suc.prems [of k] by simp
  then have "attempts w k (Suc left) = attempts w (k + 1) left"
    by (rule attempts_retry(1))
  also have "\<dots> = (k + 1 + left + 1,
      Inl (as_Error (case call w (k + 1 + left) of Inl err \<Rightarrow> err)))"
    by (rule Suc.IH) (use Suc.prems in simp)
  finally show ?case by simp
qed

lemma attempts_succeeds_later:
  "(\<And>j. k \<le> j \<Longrightarrow> j < k + m \<Longrightarrow> retryable_failure w j) \<Longrightarrow> m \<le> left \<Longrightarrow>
   call w (k + m) = Inr v \<Longrightarrow>
   attempts w k left = (k + m + 1, Inr (Inr v))"
proof (induction m arbitrary: k left)
  case 0
  then show ?case using attempts_value [of w k v left] by simp
next
  case (Suc m)
  then obtain fewer where l: "left = Suc fewer" by (cases left) auto
  have "retryable_failure w k" using Suc.prems(1) [of k] by simp
  then have "attempts w k left = attempts w (k + 1) fewer"
    unfolding l by (rule attempts_retry(1))
  also have "\<dots> = (k + 1 + m + 1, Inr (Inr v))"
    by (rule Suc.IH) (use Suc.prems l in simp_all)
  finally show ?case by simp
qed

lemma withResilience_fail_fast:
  assumes "call w 0 = Inl err" "\<not> isRetryableError (ErrorObj (as_Error err))"
  shows "withResilience w n = (1, Inl (ErrorObj (as_Error err)))"
  using attempts_fail_fast [OF assms, of n] by (simp add: withResilience_def)

lemma withResilience_exhausts:
  assumes "\<forall>j\<le>n. retryable_failure w j" "onFallback w = None"
  shows "withResilience w n = (n + 1, Inl (failure_of w n))"
proof -
  have "retryable_failure w n" using assms(1) by simp
  then have "failure_of w n = ErrorObj (as_Error (case call w n of Inl err \<Rightarrow> err))"
    by (simp add: failure_of_def retryable_failure_def del: isRetryableError.simps
        split: sum.splits)
  moreover have "attempts w 0 n = (0 + n + 1, Inl (as_Error (case call w (0 + n) of Inl err \<Rightarrow> err)))"
    by (rule attempts_exhausted) (use assms(1) in simp)
  ultimately show ?thesis
    using assms(2) by (simp add: withResilience_def)
qed

text \<open>
  With a fallback hook that names a model, the exhausted run makes one more call of
  \<^verbatim>\<open>fn\<close>, with that model, and its outcome is the outcome of \<^verbatim>\<open>withResilience\<close>.
\<close>

lemma withResilience_fallback:
  assumes "\<forall>j\<le>n. retryable_failure w j" "onFallback w = Some hook"
    and "hook (as_Error (case call w n of Inl err \<Rightarrow> err)) = Inr (Some fallbackModel)"
    and "fallbackModel \<noteq> []"
  shows "withResilience w n = (n + 2, fallback_call w fallbackModel)"
proof -
  have "attempts w 0 n = (0 + n + 1, Inl (as_Error (case call w (0 + n) of Inl err \<Rightarrow> err)))"
    by (rule attempts_exhausted) (use assms(1) in simp)
  then show ?thesis
    using assms(2-4) by (simp add: withResilience_def)
qed

lemma withResilience_succeeds_later:
  assumes "\<forall>j<m. retryable_failure w j" "m \<le> n" "call w m = Inr v"
  shows "withResilience w n = (m + 1, Inr v)"
proof -
  have "attempts w 0 n = (0 + m + 1, Inr (Inr v))"
    by (rule attempts_succeeds_later) (use assms in simp_all)
  then show ?thesis by (simp add: withResilience_def)
qed

subsection \<open>Example classifications\<close>

text \<open>On ASCII text \<^verbatim>\<open>toLowerCase\<close> maps the letters one by one.\<close>

lemma toLowerCase_ascii:
  "list_all (\<lambda>c. \<not> digit7 c) s \<Longrightarrow> toLowerCase s = map lower_char s"
  by (induction s rule: toLowerCase.induct) (auto simp: toLowerCase.simps)

text \<open>
  The two characters outside ASCII whose lower case has an ASCII letter: the Kelvin sign
  in \<open>NETWORK\<close> gives the marker \<open>network\<close>.
\<close>

lemma toLowerCase_kelvin:
  "toLowerCase (''NETWOR'' @ [CHR 0xE2, CHR 0x84, CHR 0xAA] @ '' down'') = ''network down''"
  "toLowerCase [CHR 0xC4, CHR 0xB0] = [CHR ''i'', CHR 0xCC, CHR 0x87]"
  by (simp_all add: toLowerCase.simps lower_char_def)

lemmas string_tests =
  toLowerCase_ascii lower_char_def statusMatch_def is_digit_def is_word_char_def
  digit_value_def has_marker_def transient_markers_def

lemma example_status_matches:
  "statusMatch (toLowerCase ''limit 500 exceeded'') = Some 500"
  "statusMatch (toLowerCase ''401 Unauthorized'') = Some 401"
  "statusMatch (toLowerCase ''HTTP 429'') = Some 429"
  "statusMatch (toLowerCase ''boom'') = None"
  "statusMatch (toLowerCase ''Request timeout'') = None"
  "statusMatch (toLowerCase ''fetch failed'') = None"
  "statusMatch (toLowerCase ''Failed after 120 seconds: 503 Service Unavailable'') = Some 120"
  by (simp_all add: string_tests)

lemma example_markers:
  "has_marker (toLowerCase ''Request timeout'')"
  "has_marker (toLowerCase ''fetch failed'')"
  "\<not> has_marker (toLowerCase ''boom'')"
  by (simp_all add: string_tests)

lemma example_undecided:
  "message_undecided (error_with ''boom'' st sc)"
  "message_undecided (error_with ''Request timeout'' st sc)"
  "message_undecided (error_with ''fetch failed'' st sc)"
  "property_undecided (error_with m Absent Absent)"
  by (simp_all add: message_undecided_def property_undecided_def error_with_def
      example_status_matches statusProp_def)

lemma retryable_429: "isRetryableError (ErrorObj (error_with ''HTTP 429'' Absent Absent))"
  by (simp add: error_with_def example_status_matches status_verdict_def
      RETRYABLE_STATUS_CODES_def)

lemma not_retryable_401:
  "\<not> isRetryableError (ErrorObj (error_with ''401 Unauthorized'' Absent Absent))"
  by (simp add: error_with_def example_status_matches status_verdict_def
      RETRYABLE_STATUS_CODES_def NON_RETRYABLE_STATUS_CODES_def)

lemma limit_500_retryable:
  "isRetryableError
     (ErrorObj \<lparr>err_name = ''Error'', err_message = ''limit 500 exceeded'',
                err_status = Absent, err_statusCode = Num 400\<rparr>)"
  using example_status_matches(1)
  by (simp add: status_verdict_def RETRYABLE_STATUS_CODES_def)

text \<open>
  C5. An error carrying the HTTP-style status 400 is never retried. The code reads the
  first three-digit number of the message before the \<^verbatim>\<open>status\<close> and \<^verbatim>\<open>statusCode\<close>
  properties: an \<^verbatim>\<open>Error\<close> with \<^verbatim>\<open>statusCode\<close> 400 and the message
  \<open>limit 500 exceeded\<close> is classified retryable, and \<^verbatim>\<open>withResilience\<close> with
  \<^verbatim>\<open>maxRetries = 3\<close> calls the failing function four times before it gives up. The same
  error with the message \<open>limit exceeded\<close> is not retried: one call.
\<close>

theorem status_400_error_is_retried:
  "statusProp \<lparr>err_name = ''Error'', err_message = ''limit 500 exceeded'',
               err_status = Absent, err_statusCode = Num 400\<rparr> = Some 400
   \<and> isRetryableError
        (ErrorObj \<lparr>err_name = ''Error'', err_message = ''limit 500 exceeded'',
                   err_status = Absent, err_statusCode = Num 400\<rparr>)
   \<and> withResilience
        (always_failing
           (ErrorObj \<lparr>err_name = ''Error'', err_message = ''limit 500 exceeded'',
                      err_status = Absent, err_statusCode = Num 400\<rparr>)) 3 =
       (4, Inl (ErrorObj \<lparr>err_name = ''Error'', err_message = ''limit 500 exceeded'',
                          err_status = Absent, err_statusCode = Num 400\<rparr>))
   \<and> \<not> isRetryableError
          (ErrorObj \<lparr>err_name = ''Error'', err_message = ''limit exceeded'',
                     err_status = Absent, err_statusCode = Num 400\<rparr>)
   \<and> withResilience
        (always_failing
           (ErrorObj \<lparr>err_name = ''Error'', err_message = ''limit exceeded'',
                      err_status = Absent, err_statusCode = Num 400\<rparr>)) 3 =
       (1, Inl (ErrorObj \<lparr>err_name = ''Error'', err_message = ''limit exceeded'',
                          err_status = Absent, err_statusCode = Num 400\<rparr>))"
proof -
  let ?e = "\<lparr>err_name = ''Error'', err_message = ''limit 500 exceeded'',
             err_status = Absent, err_statusCode = Num 400\<rparr>"
  let ?f = "\<lparr>err_name = ''Error'', err_message = ''limit exceeded'',
             err_status = Absent, err_statusCode = Num 400\<rparr>"
  have p: "statusProp ?e = Some 400" by (simp add: statusProp_def)
  have plain: "statusMatch (toLowerCase ''limit exceeded'') = None"
    by (simp add: string_tests)
  have nf: "\<not> isRetryableError (ErrorObj ?f)"
    using plain
    by (simp add: statusProp_def status_verdict_def RETRYABLE_STATUS_CODES_def
        NON_RETRYABLE_STATUS_CODES_def)
  have four: "withResilience (always_failing (ErrorObj ?e)) 3 = (4, Inl (ErrorObj ?e))"
    using withResilience_exhausts [of 3 "always_failing (ErrorObj ?e)"] limit_500_retryable
    by (simp add: always_failing_def retryable_failure_def failure_of_def
        del: isRetryableError.simps)
  have one: "withResilience (always_failing (ErrorObj ?f)) 3 = (1, Inl (ErrorObj ?f))"
    using withResilience_fail_fast [of "always_failing (ErrorObj ?f)" "ErrorObj ?f" 3] nf
    by (simp add: always_failing_def del: isRetryableError.simps)
  show ?thesis
    using p limit_500_retryable four nf one by (intro conjI)
qed

section \<open>The event stream of a connection\<close>

text \<open>
  Once the stream is closed nothing more is delivered, and an abort of the signal after
  the stream was created closes it: after such an abort no \<^verbatim>\<open>cancelled\<close> event reaches
  the client, whatever the handler writes (the \<^verbatim>\<open>try\<close> body itself never writes one).
\<close>

lemma writeSSE_after_close: "is_closed c \<Longrightarrow> writeSSE ev c = c"
  by (simp add: writeSSE_def)

lemma do_step_after_close:
  "is_closed c \<Longrightarrow> is_closed (do_step c st) \<and> delivered (do_step c st) = delivered c"
  by (cases st) (simp_all add: abort_signal_def close_writer_def writeSSE_after_close)

lemma steps_after_close:
  "is_closed c \<Longrightarrow>
   is_closed (foldl do_step c sts) \<and> delivered (foldl do_step c sts) = delivered c"
  by (induction sts arbitrary: c) (simp_all add: do_step_after_close)

lemma writes_after_close:
  "is_closed c \<Longrightarrow> foldl (\<lambda>c ev. writeSSE ev c) c evs = c"
  by (induction evs) (simp_all add: writeSSE_after_close)

lemma do_step_aborted_closed:
  "aborted c \<longrightarrow> is_closed c \<Longrightarrow> aborted (do_step c st) \<longrightarrow> is_closed (do_step c st)"
  by (cases st) (auto simp: abort_signal_def close_writer_def writeSSE_def)

lemma abort_closes:
  "Abort \<in> set sts \<Longrightarrow> aborted c \<longrightarrow> is_closed c \<Longrightarrow> is_closed (foldl do_step c sts)"
proof (induction sts arbitrary: c)
  case Nil
  then show ?case by simp
next
  case (Cons st sts)
  show ?case
  proof (cases st)
    case (Write ev)
    with Cons.prems have "Abort \<in> set sts" by simp
    then show ?thesis
      using Cons.IH [of "do_step c st"] do_step_aborted_closed [OF Cons.prems(2), of st]
      by simp
  next
    case Abort
    have "is_closed (do_step c Abort)"
      using Cons.prems(2) by (simp add: abort_signal_def close_writer_def)
    with Abort show ?thesis using steps_after_close [of "do_step c Abort" sts] by simp
  qed
qed

lemma steps_no_cancelled:
  assumes "\<not> list_ex is_cancelled (delivered c)"
    and "\<not> list_ex (\<lambda>st. case st of Write ev \<Rightarrow> is_cancelled ev | Abort \<Rightarrow> False) sts"
  shows "\<not> list_ex is_cancelled (delivered (foldl do_step c sts))"
  using assms
proof (induction sts arbitrary: c)
  case Nil
  then show ?case by simp
next
  case (Cons st sts)
  have "\<not> list_ex is_cancelled (delivered (do_step c st))"
    using Cons.prems
    by (cases st) (auto simp: writeSSE_def abort_signal_def close_writer_def)
  then show ?case using Cons by simp
qed

lemma aborted_run_delivers_no_cancelled:
  assumes "Abort \<in> set sts"
    and "\<not> list_ex (\<lambda>st. case st of Write ev \<Rightarrow> is_cancelled ev | Abort \<Rightarrow> False) sts"
  shows "\<not> list_ex is_cancelled (delivered (run_stream convId False sts ending))"
proof -
  let ?c1 = "writeSSE (SessionStart convId) (connection_init\<lparr>aborted := False\<rparr>)"
  let ?c2 = "foldl do_step ?c1 sts"
  have "\<not> list_ex is_cancelled (delivered ?c1)"
    by (simp add: writeSSE_def connection_init_def is_cancelled_def)
  then have n2: "\<not> list_ex is_cancelled (delivered ?c2)"
    using assms(2) by (rule steps_no_cancelled)
  have cl: "is_closed ?c2"
    using assms(1) by (rule abort_closes) (simp add: writeSSE_def connection_init_def)
  show ?thesis
    using n2 by (simp add: run_stream_def Let_def writes_after_close [OF cl] close_writer_def
        split: option.splits)
qed

text \<open>
  What holds of the \<^verbatim>\<open>catch\<close> block: a cancellation (an \<^verbatim>\<open>AbortError\<close>, or the signal
  aborted) makes it write \<^verbatim>\<open>cancelled\<close> and never \<^verbatim>\<open>error\<close>. When the signal does not
  abort while the stream exists (an \<^verbatim>\<open>AbortError\<close> is thrown without it, or the signal
  had aborted before the stream was created, so that no listener closes the stream),
  that one \<^verbatim>\<open>cancelled\<close> event is delivered last.
\<close>

lemma catch_block_cancellation:
  "name_of err = Some ''AbortError'' \<or> ab \<Longrightarrow> catch_block ab convId err = [Cancelled convId]"
  by (auto simp: catch_block_def)

lemma steps_without_abort:
  "Abort \<notin> set sts \<Longrightarrow> \<not> is_closed c \<Longrightarrow>
   foldl do_step c sts =
     c\<lparr>delivered := delivered c @
          concat (map (\<lambda>st. case st of Write ev \<Rightarrow> [ev] | Abort \<Rightarrow> []) sts)\<rparr>"
proof (induction sts arbitrary: c)
  case Nil
  then show ?case by simp
next
  case (Cons st sts)
  then obtain ev where st: "st = Write ev" by (cases st) auto
  have open': "\<not> is_closed (do_step c st)"
    using Cons.prems(2) by (simp add: st writeSSE_def)
  show ?case
    using Cons.IH [OF _ open'] Cons.prems
    by (simp add: st writeSSE_def)
qed

lemma cancelled_delivered_without_listener:
  assumes "Abort \<notin> set sts" "name_of err = Some ''AbortError'' \<or> early"
  shows "delivered (run_stream convId early sts (Some err)) =
           written_events convId early sts (Some err)"
    and "last (delivered (run_stream convId early sts (Some err))) = Cancelled convId"
proof -
  define c1 where "c1 = writeSSE (SessionStart convId) (connection_init\<lparr>aborted := early\<rparr>)"
  define c2 where "c2 = foldl do_step c1 sts"
  define evs where "evs = concat (map (\<lambda>st. case st of Write ev \<Rightarrow> [ev] | Abort \<Rightarrow> []) sts)"
  have o1: "\<not> is_closed c1" and d1: "delivered c1 = [SessionStart convId]"
    and a1: "aborted c1 = early"
    by (simp_all add: c1_def writeSSE_def connection_init_def)
  have c2: "c2 = c1\<lparr>delivered := delivered c1 @ evs\<rparr>"
    unfolding c2_def evs_def using assms(1) o1 by (rule steps_without_abort)
  have o2: "\<not> is_closed c2" and d2: "delivered c2 = SessionStart convId # evs"
    and a2: "aborted c2 = early"
    by (simp_all add: c2 o1 d1 a1)
  have cb: "catch_block (aborted c2) convId err = [Cancelled convId]"
    "catch_block (early \<or> Abort \<in> set sts) convId err = [Cancelled convId]"
    using assms(2) by (auto simp: catch_block_cancellation a2)
  have run: "run_stream convId early sts (Some err) =
      close_writer (writeSSE (Cancelled convId) c2)"
    unfolding run_stream_def Let_def using cb(1) by (simp add: c2_def c1_def)
  have del: "delivered (run_stream convId early sts (Some err)) =
      SessionStart convId # evs @ [Cancelled convId]"
    by (simp add: run close_writer_def writeSSE_def o2 d2)
  have wr: "written_events convId early sts (Some err) =
      SessionStart convId # evs @ [Cancelled convId]"
    unfolding written_events_def evs_def using cb(2) by simp
  show "delivered (run_stream convId early sts (Some err)) =
          written_events convId early sts (Some err)"
    by (simp add: del wr)
  show "last (delivered (run_stream convId early sts (Some err))) = Cancelled convId"
    by (simp add: del)
qed

text \<open>
  C4. Whenever a streaming request is cancelled, its event stream emits exactly one
  \<^verbatim>\<open>cancelled\<close> event, as the last event, and never an \<^verbatim>\<open>error\<close> event. The code
  breaks the first part: an abort of the signal while the stream exists closes it at once
  (the listener of \<^verbatim>\<open>createSSEStream\<close>), before the rejected call brings the handler to its \<^verbatim>\<open>catch\<close>
  block, so the \<^verbatim>\<open>cancelled\<close> event that the block writes is dropped. Here the client
  disconnects while the planning call is in flight, and the call rejects with an
  \<^verbatim>\<open>AbortError\<close>: the handler writes \<^verbatim>\<open>cancelled\<close>, the client receives the three
  events before the abort and no \<^verbatim>\<open>cancelled\<close> event.
\<close>

theorem cancelled_event_dropped_after_abort:
  "delivered (run_stream ''conv_1'' False
      [Write (SseAgentStart ''boss''),
       Write (SseStatus ''thinking'' ''Analyzing query and routing'' ''boss''),
       Abort]
      (Some (ErrorObj abort_error))) =
     [SessionStart ''conv_1'', SseAgentStart ''boss'',
      SseStatus ''thinking'' ''Analyzing query and routing'' ''boss'']
   \<and> written_events ''conv_1'' False
      [Write (SseAgentStart ''boss''),
       Write (SseStatus ''thinking'' ''Analyzing query and routing'' ''boss''),
       Abort]
      (Some (ErrorObj abort_error)) =
     [SessionStart ''conv_1'', SseAgentStart ''boss'',
      SseStatus ''thinking'' ''Analyzing query and routing'' ''boss'', Cancelled ''conv_1'']"
  by (simp add: run_stream_def written_events_def connection_init_def writeSSE_def
      abort_signal_def close_writer_def catch_block_def abort_error_def Let_def)

end
